(* ===== verification/Prelude.thy ===== *)
theory Prelude
  imports Main "HOL-Library.Word" "HOL-Library.List_Lexorder"
begin

text \<open>
  The vocabulary every component shares: Rust's \<open>Result\<close> and its \<open>?\<close>, byte slices
  and their checked accessors, 64-bit arithmetic with the wrap-around written out, and the
  little-endian field access of a \<open>repr(C)\<close> struct together with the contract a
  fixed-size codec keeps.
\<close>

unbundle bit_operations_syntax

section \<open>Machine types and byte strings\<close>

type_synonym u8 = "8 word"
type_synonym u16 = "16 word"
type_synonym u32 = "32 word"
type_synonym u64 = "64 word"
type_synonym bytes = "u8 list"

named_theorems result_simps \<open>case analysis of the operations on results\<close>
named_theorems slice_simps \<open>checked slice access\<close>
named_theorems wrap_simps \<open>64-bit operations that do not overflow\<close>
named_theorems le_simps \<open>little-endian fields of concatenated encodings\<close>

lemma unat_lt: "unat (w :: 'a::len word) < 2 ^ LENGTH('a)"
  by (rule unsigned_less)

lemma unat_ucast: "unat (ucast (w :: 'a::len word) :: 'b::len word) = unat w mod 2 ^ LENGTH('b)"
  by (simp add: unsigned_ucast_eq take_bit_eq_mod)

lemma unat_of_nat_less: "n < 2 ^ LENGTH('a) \<Longrightarrow> unat (of_nat n :: 'a::len word) = n"
  by (simp add: unat_of_nat)

definition ascii :: "string \<Rightarrow> bytes" where
  "ascii s = map of_char s"

section \<open>Results\<close>

datatype ('a, 'e) result = Ok 'a | Err 'e

fun bindr :: "('a, 'e) result \<Rightarrow> ('a \<Rightarrow> ('b, 'e) result) \<Rightarrow> ('b, 'e) result" where
  "bindr (Ok x) f = f x"
| "bindr (Err e) f = Err e"

fun mapr :: "('a \<Rightarrow> 'b) \<Rightarrow> ('a, 'e) result \<Rightarrow> ('b, 'e) result" where
  "mapr f (Ok x) = Ok (f x)"
| "mapr f (Err e) = Err e"

fun map_err :: "('e \<Rightarrow> 'f) \<Rightarrow> ('a, 'e) result \<Rightarrow> ('a, 'f) result" where
  "map_err f (Ok x) = Ok x"
| "map_err f (Err e) = Err (f e)"

fun ok_or :: "'e \<Rightarrow> 'a option \<Rightarrow> ('a, 'e) result" where
  "ok_or e None = Err e"
| "ok_or e (Some x) = Ok x"

fun is_ok :: "('a, 'e) result \<Rightarrow> bool" where
  "is_ok (Ok x) = True"
| "is_ok (Err e) = False"

lemma bindr_eq_Ok [result_simps]:
  "bindr m f = Ok y \<longleftrightarrow> (\<exists>x. m = Ok x \<and> f x = Ok y)"
  by (cases m) auto

lemma bindr_eq_Err [result_simps]:
  "bindr m f = Err e \<longleftrightarrow> m = Err e \<or> (\<exists>x. m = Ok x \<and> f x = Err e)"
  by (cases m) auto

lemma mapr_eq_Ok [result_simps]: "mapr f m = Ok y \<longleftrightarrow> (\<exists>x. m = Ok x \<and> y = f x)"
  by (cases m) auto

lemma mapr_eq_Err [result_simps]: "mapr f m = Err e \<longleftrightarrow> m = Err e"
  by (cases m) auto

lemma map_err_eq_Ok [result_simps]: "map_err f r = Ok x \<longleftrightarrow> r = Ok x"
  by (cases r) auto

lemma ok_or_eq_Ok [result_simps]: "ok_or e m = Ok x \<longleftrightarrow> m = Some x"
  by (cases m) auto

lemma ok_or_eq_Err [result_simps]: "ok_or e m = Err e' \<longleftrightarrow> m = None \<and> e' = e"
  by (cases m) auto

lemma is_ok_iff: "is_ok r \<longleftrightarrow> (\<exists>x. r = Ok x)"
  by (cases r) auto

section \<open>Checked slices\<close>

text \<open>\<open>data.get(off..)\<close>, \<open>data.get(a..b)\<close> and \<open>data.split_at_checked(n)\<close> of a Rust slice.\<close>

definition get_from :: "nat \<Rightarrow> 'a list \<Rightarrow> 'a list option" where
  "get_from off xs = (if off \<le> length xs then Some (drop off xs) else None)"

definition get_range :: "nat \<Rightarrow> nat \<Rightarrow> 'a list \<Rightarrow> 'a list option" where
  "get_range a b xs = (if a \<le> b \<and> b \<le> length xs then Some (take (b - a) (drop a xs)) else None)"

definition split_at_checked :: "nat \<Rightarrow> 'a list \<Rightarrow> ('a list \<times> 'a list) option" where
  "split_at_checked n xs = (if n \<le> length xs then Some (take n xs, drop n xs) else None)"

lemma get_from_Some [slice_simps]:
  "get_from off xs = Some ys \<longleftrightarrow> off \<le> length xs \<and> ys = drop off xs"
  by (auto simp: get_from_def)

lemma get_range_Some [slice_simps]:
  "get_range a b xs = Some ys \<longleftrightarrow> a \<le> b \<and> b \<le> length xs \<and> ys = take (b - a) (drop a xs)"
  by (auto simp: get_range_def)

lemma split_at_checked_Some [slice_simps]:
  "split_at_checked n xs = Some (ys, zs) \<longleftrightarrow> xs = ys @ zs \<and> length ys = n"
  by (auto simp: split_at_checked_def)

lemma get_from_None [slice_simps]: "get_from off xs = None \<longleftrightarrow> length xs < off"
  by (auto simp: get_from_def)

lemma get_range_None [slice_simps]: "get_range a b xs = None \<longleftrightarrow> b < a \<or> length xs < b"
  by (auto simp: get_range_def)

text \<open>
  A byte string stored at an offset of an image. Writers establish \<open>stored\<close>, readers consume it.
\<close>

definition stored :: "'a list \<Rightarrow> nat \<Rightarrow> 'a list \<Rightarrow> bool" where
  "stored img off bs \<longleftrightarrow> off + length bs \<le> length img \<and> take (length bs) (drop off img) = bs"

lemma stored_iff:
  "stored img off bs \<longleftrightarrow> (\<exists>pre post. img = pre @ bs @ post \<and> length pre = off)"
proof
  assume s: "stored img off bs"
  then have len: "off + length bs \<le> length img" and tk: "take (length bs) (drop off img) = bs"
    by (auto simp: stored_def)
  have "img = take off img @ take (length bs) (drop off img) @ drop (length bs) (drop off img)"
    by (simp only: append_take_drop_id)
  then have "img = take off img @ bs @ drop (length bs) (drop off img)"
    by (simp only: tk)
  moreover have "length (take off img) = off"
    using len by simp
  ultimately show "\<exists>pre post. img = pre @ bs @ post \<and> length pre = off" by blast
qed (auto simp: stored_def)

lemma stored_Nil [simp]: "stored img off [] \<longleftrightarrow> off \<le> length img"
  by (simp add: stored_def)

lemma stored_append:
  "stored img off (xs @ ys) \<longleftrightarrow> stored img off xs \<and> stored img (off + length xs) ys"
proof -
  have "take (length xs + length ys) (drop off img) =
      take (length xs) (drop off img) @ take (length ys) (drop (off + length xs) img)"
    by (simp add: take_add add.commute)
  then show ?thesis
    by (auto simp: stored_def append_eq_append_conv)
qed

lemma stored_get_range: "stored img off bs \<Longrightarrow> get_range off (off + length bs) img = Some bs"
  by (simp add: stored_def get_range_def)

lemma stored_get_from:
  "stored img off bs \<Longrightarrow> \<exists>rest. get_from off img = Some (bs @ rest)"
  by (auto simp: stored_iff get_from_def)

section \<open>64-bit arithmetic\<close>

text \<open>
  \<open>u64\<close> and \<open>usize\<close> values that the code computes with are natural numbers below \<open>2 ^ 64\<close>;
  the operations wrap, and a shift count is taken modulo 64, as in a release build.
\<close>

definition add64 :: "nat \<Rightarrow> nat \<Rightarrow> nat" where "add64 a b = (a + b) mod 2 ^ 64"
definition sub64 :: "nat \<Rightarrow> nat \<Rightarrow> nat" where "sub64 a b = (a + (2 ^ 64 - b)) mod 2 ^ 64"
definition mul64 :: "nat \<Rightarrow> nat \<Rightarrow> nat" where "mul64 a b = (a * b) mod 2 ^ 64"
definition shl64 :: "nat \<Rightarrow> nat \<Rightarrow> nat" where "shl64 a n = (a * 2 ^ (n mod 64)) mod 2 ^ 64"

lemma add64_small [wrap_simps]: "a + b < 2 ^ 64 \<Longrightarrow> add64 a b = a + b"
  by (simp add: add64_def)

lemma mul64_small [wrap_simps]: "a * b < 2 ^ 64 \<Longrightarrow> mul64 a b = a * b"
  by (simp add: mul64_def)

lemma shl64_small [wrap_simps]: "n < 64 \<Longrightarrow> a * 2 ^ n < 2 ^ 64 \<Longrightarrow> shl64 a n = a * 2 ^ n"
  by (simp add: shl64_def)

lemma sub64_small [wrap_simps]: "b \<le> a \<Longrightarrow> a < 2 ^ 64 \<Longrightarrow> sub64 a b = a - b"
proof -
  assume *: "b \<le> a" "a < 2 ^ 64"
  then have "a + (2 ^ 64 - b) = (a - b) + 2 ^ 64" by simp
  then have "sub64 a b = (a - b + 2 ^ 64) mod 2 ^ 64" by (simp only: sub64_def)
  also have "\<dots> = a - b" using * by (simp only: mod_add_self2) simp
  finally show ?thesis .
qed

lemma sub64_add_mod: "b \<le> 2 ^ 64 \<Longrightarrow> (sub64 a b + b) mod 2 ^ 64 = a mod 2 ^ 64"
  by (simp only: sub64_def mod_add_left_eq add.assoc le_add_diff_inverse2) simp

lemma mod_add_cancel: "(a + k) mod m = (b + k) mod m \<longleftrightarrow> a mod m = (b :: nat) mod m"
proof -
  have *: "x mod m = y mod m \<longleftrightarrow> int m dvd int x - int y" for x y :: nat
    by (simp flip: mod_eq_dvd_iff) (metis of_nat_eq_iff zmod_int)
  show ?thesis by (simp add: *)
qed

lemma addr_trans:
  assumes "(b + la_j) mod m = (a + k + t) mod m" and "(k + la_i) mod m = la_j mod m"
  shows "(b + la_i) mod m = (a + t) mod (m :: nat)"
proof -
  have "(b + la_i + k) mod m = (b + (k + la_i)) mod m" by (simp add: ac_simps)
  also have "\<dots> = (b + la_j) mod m" using assms(2) by (rule mod_add_cong[OF refl])
  also have "\<dots> = (a + t + k) mod m" using assms(1) by (simp add: ac_simps)
  finally show ?thesis by (simp only: mod_add_cancel)
qed

lemma get_range_add64:
  assumes "get_range a (add64 a n) xs = Some ys" and "a < 2 ^ 64" and "n < 2 ^ 64"
  shows "a + n \<le> length xs" and "ys = take n (drop a xs)" and "length ys = n"
proof -
  from assms(1) have *: "a \<le> add64 a n" "add64 a n \<le> length xs" "ys = take (add64 a n - a) (drop a xs)"
    by (auto simp: get_range_def split: if_splits)
  have "add64 a n = a + n"
  proof (rule ccontr)
    assume "add64 a n \<noteq> a + n"
    then have "2 ^ 64 \<le> a + n" using add64_small by (meson not_le)
    then have "add64 a n = a + n - 2 ^ 64"
      using assms(2,3) by (simp only: add64_def le_mod_geq) simp
    with *(1) assms(3) \<open>2 ^ 64 \<le> a + n\<close> show False by linarith
  qed
  with * show "a + n \<le> length xs" "ys = take n (drop a xs)" "length ys = n" by auto
qed

lemma add64_lt [simp]: "add64 a b < 2 ^ 64" by (simp add: add64_def)
lemma sub64_lt [simp]: "sub64 a b < 2 ^ 64" by (simp add: sub64_def)
lemma shl64_lt [simp]: "shl64 a n < 2 ^ 64" by (simp add: shl64_def)

lemma fill_dvd: "0 < a \<Longrightarrow> a dvd n + (a - n mod a) mod (a :: nat)"
proof -
  assume "0 < a"
  have "(n + (a - n mod a) mod a) mod a = (n mod a + (a - n mod a)) mod a"
    by (simp add: mod_simps)
  also have "\<dots> = 0" using \<open>0 < a\<close> by (simp add: less_imp_le)
  finally show ?thesis by blast
qed

definition div_ceil :: "nat \<Rightarrow> nat \<Rightarrow> nat" where
  "div_ceil a b = (if a mod b = 0 then a div b else a div b + 1)"

lemma div_ceil_mult_ge: "0 < b \<Longrightarrow> a \<le> div_ceil a b * b"
  by (auto simp: div_ceil_def) (metis div_mult_mod_eq mod_le_divisor add_le_mono le_refl
      add.commute)

lemma div_ceil_mult_less: "0 < b \<Longrightarrow> div_ceil a b * b < a + b"
  by (auto simp: div_ceil_def) (metis div_mult_mod_eq less_add_same_cancel1)

end
