(* ===== verification/Codec.thy ===== *)
theory Codec
  imports Prelude
begin

text \<open>
  Little-endian integers and the fields of a packed \<open>repr(C)\<close> struct, and the interface
  \<open>fixed_codec\<close>: what the readers and writers of the image rely on when they turn a struct
  into bytes (\<open>as_bytes\<close>) and a prefix of a slice back into the struct
  (\<open>try_ref_from_prefix\<close>). Every on-disk struct interprets it.
\<close>

section \<open>Little-endian integers\<close>

fun to_le :: "nat \<Rightarrow> 'a::len word \<Rightarrow> bytes" where
  "to_le 0 w = []"
| "to_le (Suc n) w = ucast w # to_le n (drop_bit 8 w)"

fun from_le :: "bytes \<Rightarrow> nat" where
  "from_le [] = 0"
| "from_le (b # bs) = unat b + 256 * from_le bs"

definition le_field :: "nat \<Rightarrow> nat \<Rightarrow> bytes \<Rightarrow> 'a::len word" where
  "le_field off n bs = of_nat (from_le (take n (drop off bs)))"

lemma to_le_num: "to_le (numeral n) w = ucast w # to_le (pred_numeral n) (drop_bit 8 w)"
  by (simp only: numeral_eq_Suc to_le.simps)

lemma to_le_one: "to_le 1 w = [ucast w]"
  by (simp only: One_nat_def to_le.simps)

lemmas to_le_eval = to_le_num to_le_one to_le.simps

lemma length_to_le [simp]: "length (to_le n w) = n"
  by (induction n arbitrary: w) auto

lemma from_le_less: "from_le bs < 256 ^ length bs"
proof (induction bs)
  case Nil
  show ?case by simp
next
  case (Cons b bs)
  have "unat b < 256"
    using unat_lt[of b] by simp
  with Cons show ?case by simp
qed

lemma from_le_to_le: "from_le (to_le n w) = unat w mod 256 ^ n"
proof (induction n arbitrary: w)
  case 0
  show ?case by simp
next
  case (Suc n)
  have low: "unat (ucast w :: u8) = unat w mod 256"
    by (simp add: unat_ucast)
  have high: "unat (drop_bit 8 w) = unat w div 256"
    by (simp only: unat_drop_bit_eq) (simp add: drop_bit_eq_div)
  have "from_le (to_le (Suc n) w) = unat w mod 256 + 256 * (unat w div 256 mod 256 ^ n)"
    by (simp add: Suc.IH low high)
  also have "\<dots> = unat w mod (256 * 256 ^ n)"
    by (simp add: mod_mult2_eq)
  finally show ?case by simp
qed

lemma from_le_to_le_exact:
  fixes w :: "'a::len word"
  assumes "LENGTH('a) = 8 * n"
  shows "from_le (to_le n w) = unat w"
proof -
  have "unat w < 2 ^ (8 * n)"
    using unat_lt[of w] assms by simp
  also have "(2::nat) ^ (8 * n) = 256 ^ n"
    by (simp add: power_mult)
  finally show ?thesis
    by (simp add: from_le_to_le)
qed

lemma to_le_from_le:
  fixes w :: "'a::len word"
  assumes "LENGTH('a) \<ge> 8 * length bs" and "w = of_nat (from_le bs)"
  shows "to_le (length bs) w = bs"
  using assms
proof (induction bs arbitrary: w)
  case Nil
  show ?case by simp
next
  case (Cons b bs)
  let ?v = "from_le (b # bs)"
  have v_less: "?v < 2 ^ LENGTH('a)"
  proof -
    have "?v < 256 ^ length (b # bs)" by (rule from_le_less)
    also have "\<dots> = 2 ^ (8 * length (b # bs))" by (simp only: power_mult) simp
    also have "\<dots> \<le> 2 ^ LENGTH('a)" using Cons.prems(1) by (intro power_increasing) auto
    finally show ?thesis .
  qed
  have b_less: "unat b < 256"
    using unat_lt[of b] by simp
  have unat_w: "unat w = ?v"
    using v_less by (simp only: Cons.prems(2) unat_of_nat mod_less)
  have "unat (ucast w :: u8) = unat b"
    using b_less by (simp add: unat_ucast unat_w)
  then have low: "ucast w = b"
    by (metis of_nat_unat ucast_id)
  have "unat (drop_bit 8 w) = from_le bs"
    using b_less by (simp only: unat_drop_bit_eq unat_w) (simp add: drop_bit_eq_div)
  then have high: "drop_bit 8 w = of_nat (from_le bs)"
    by (metis of_nat_unat ucast_id)
  have "to_le (length bs) (drop_bit 8 w) = bs"
    using Cons.prems(1) high by (intro Cons.IH) auto
  with low show ?case by simp
qed

declare to_le.simps [simp del]

lemma le_field_skip [le_simps]:
  "length xs \<le> off \<Longrightarrow> le_field off n (xs @ ys) = le_field (off - length xs) n ys"
  by (simp add: le_field_def)

lemma le_field_here [le_simps]:
  fixes w :: "'a::len word"
  assumes "LENGTH('a) = 8 * n"
  shows "le_field 0 n (to_le n w @ ys) = w"
  using from_le_to_le_exact[OF assms, of w] by (simp add: le_field_def)

lemma le_field_here_end [le_simps]:
  fixes w :: "'a::len word"
  assumes "LENGTH('a) = 8 * n"
  shows "le_field 0 n (to_le n w) = w"
  using le_field_here[OF assms, of w "[]"] by simp

lemma to_le_le_field:
  assumes "LENGTH('a::len) = 8 * n" and "off + n \<le> length bs"
  shows "to_le n (le_field off n bs :: 'a word) = take n (drop off bs)"
  using to_le_from_le[of "take n (drop off bs)" "le_field off n bs :: 'a word"] assms
  by (simp add: le_field_def)

text \<open>Consecutive fields glue back together: what a decoded struct re-encodes to.\<close>

named_theorems glue_simps \<open>adjacent slices of one byte string\<close>

lemma take_drop_glue [glue_simps]:
  "off' = off + m \<Longrightarrow> take m (drop off bs) @ take n (drop off' bs) = take (m + n) (drop off bs)"
  by (simp add: take_add add.commute)

lemma take_glue [glue_simps]: "take m bs @ take n (drop m bs) = take (m + n) bs"
  by (simp add: take_add)

section \<open>The contract of a fixed-size struct\<close>

locale fixed_codec =
  fixes enc :: "'a \<Rightarrow> bytes"
    and dec :: "bytes \<Rightarrow> 'a option"
    and valid :: "'a \<Rightarrow> bool"
    and sz :: nat
  assumes enc_length: "valid x \<Longrightarrow> length (enc x) = sz"
    and dec_enc: "valid x \<Longrightarrow> dec (enc x @ rest) = Some x"
    and dec_short: "length bs < sz \<Longrightarrow> dec bs = None"
    and dec_valid: "dec bs = Some x \<Longrightarrow> valid x"
    and enc_dec: "dec bs = Some x \<Longrightarrow> enc x = take sz bs"
begin

lemma dec_length: "dec bs = Some x \<Longrightarrow> sz \<le> length bs"
  using dec_short[of bs] by (cases "length bs < sz") auto

lemma enc_inj: "valid x \<Longrightarrow> valid y \<Longrightarrow> enc x = enc y \<Longrightarrow> x = y"
  using dec_enc[of x "[]"] dec_enc[of y "[]"] by simp

lemma dec_stored:
  assumes "valid x" and "stored img off (enc x)" and "get_from off img = Some bs"
  shows "dec bs = Some x"
proof -
  obtain rest where "get_from off img = Some (enc x @ rest)"
    using stored_get_from[OF assms(2)] by blast
  with assms(3) have "bs = enc x @ rest" by simp
  with assms(1) show ?thesis by (simp add: dec_enc)
qed

lemma dec_prefix_only: "length bs \<ge> sz \<Longrightarrow> dec (take sz bs) = Some x \<Longrightarrow> dec (take sz bs @ ys) = Some x"
  using dec_valid[of "take sz bs" x] enc_dec[of "take sz bs" x] dec_enc[of x ys] by simp

end

end
