(* ===== verification/Erofs_Disk.thy ===== *)
theory Erofs_Disk
  imports Codec
begin

text \<open>
  The on-disk structures of \<open>peerofs/src/disk.rs\<close>: the packed little-endian structs with their
  byte layout, the enumerations and their conversions, and the bit fields of the inode format
  word, the map header and the logical cluster index.
\<close>

section \<open>Constants, errors and enumerations\<close>

definition EROFS_SUPER_OFFSET :: nat where "EROFS_SUPER_OFFSET = 1024"
definition EROFS_SUPER_MAGIG_V1 :: u32 where "EROFS_SUPER_MAGIG_V1 = 0xe0f5e1e2"
definition INODE_ALIGNMENT :: nat where "INODE_ALIGNMENT = 32"
definition EROFS_NULL_ADDR :: u32 where "EROFS_NULL_ADDR = - 1"

datatype layout = FlatPlain | CompressedFull | FlatInline | CompressedCompact | ChunkBased

datatype compression_type = Lz4 | Lzma | Deflate | Zstd

text \<open>The last constructor stands for a panic: an \<open>expect\<close> that fails or a capacity overflow.\<close>

datatype disk_error =
    BadSuperblock | BadMagic | BadConversion | BadCStr | Oob | NotDir | NotSymlink
  | NotRegDirLink | DirentBadSize | BadFileType | InodeTooBig | NotExpectingBlockData
  | BlockLenShouldBeZero | NotCompressed | NotCompressedFull | InvalidXattrPrefix
  | BuiltinPrefixTooBig | XattrPrefixTableNotHandled | Decompress | LciMalformed | Write
  | Underflow | UnknownCompression | Head2NotSupported
  | CompressionNotSupported compression_type | LayoutNotHandled layout
  | DiskPanic

datatype inode_type = InodeCompactT | InodeExtendedT

datatype logical_cluster_type = Plain | Head1 | NonHead | Head2

datatype dirent_file_type =
    DtUnknown | DtRegularFile | DtDirectory | DtCharacterDevice | DtBlockDevice | DtFifo
  | DtSocket | DtSymlink

text \<open>\<open>rustix::fs::FileType\<close>, the result of classifying a raw mode.\<close>

datatype file_type =
    FtRegularFile | FtDirectory | FtSymlink | FtFifo | FtSocket | FtCharacterDevice
  | FtBlockDevice | FtUnknown

section \<open>Structs\<close>

record superblock =
  sb_magic :: u32
  sb_checksum :: u32
  sb_feature_compat :: u32
  sb_blkszbits :: u8
  sb_extslots :: u8
  sb_root_disk_id :: u16
  sb_inos :: u64
  sb_build_time :: u64
  sb_build_time_nsec :: u32
  sb_blocks :: u32
  sb_meta_blkaddr :: u32
  sb_xattr_blkaddr :: u32
  sb_uuid :: bytes
  sb_volume_name :: bytes
  sb_feature_incompat :: u32
  sb_available_compr_algs_or_lz4_max_distance :: u16
  sb_extra_devices :: u16
  sb_devt_slotoff :: u16
  sb_dirblkbits :: u8
  sb_xattr_prefix_count :: u8
  sb_xattr_prefix_start :: u32
  sb_packed_nid :: u64
  sb_xattr_filter_reserved :: u8
  sb_reserved2 :: bytes

record inode_compact =
  ic_format_layout :: u16
  ic_xattr_count :: u16
  ic_mode :: u16
  ic_nlink :: u16
  ic_size :: u32
  ic_reserved :: u32
  ic_info :: bytes
  ic_ino :: u32
  ic_uid :: u16
  ic_gid :: u16
  ic_reserved2 :: u32

record inode_extended =
  ie_format_layout :: u16
  ie_xattr_count :: u16
  ie_mode :: u16
  ie_reserved :: u16
  ie_size :: u64
  ie_info :: bytes
  ie_ino :: u32
  ie_uid :: u32
  ie_gid :: u32
  ie_mtime :: u64
  ie_mtime_nsec :: u32
  ie_nlink :: u32
  ie_reserved2 :: bytes

record xattr_header =
  xh_name_filter :: u32
  xh_shared_count :: u8
  xh_reserved :: bytes

record xattr_entry =
  xe_name_len :: u8
  xe_name_index :: u8
  xe_value_size :: u16

record disk_dirent =
  dd_disk_id :: u64
  dd_name_offset :: u16
  dd_file_type :: u8
  dd_reserved :: u8

record map_header =
  mh_fragment_offset_or_data_size :: u32
  mh_config :: u16
  mh_algorithm :: u8
  mh_cluster_bits :: u8

record logical_cluster_index =
  lci_advise :: u16
  lci_cluster_offset :: u16
  lci_block_addr_or_delta :: bytes

section \<open>Byte layout of the structs\<close>

definition enc_superblock :: "superblock \<Rightarrow> bytes" where
  "enc_superblock x =
    to_le 4 (sb_magic x) @ to_le 4 (sb_checksum x) @ to_le 4 (sb_feature_compat x) @
     to_le 1 (sb_blkszbits x) @ to_le 1 (sb_extslots x) @ to_le 2 (sb_root_disk_id x) @
     to_le 8 (sb_inos x) @ to_le 8 (sb_build_time x) @ to_le 4 (sb_build_time_nsec x) @
     to_le 4 (sb_blocks x) @ to_le 4 (sb_meta_blkaddr x) @ to_le 4 (sb_xattr_blkaddr x) @
     sb_uuid x @ sb_volume_name x @ to_le 4 (sb_feature_incompat x) @
     to_le 2 (sb_available_compr_algs_or_lz4_max_distance x) @
     to_le 2 (sb_extra_devices x) @ to_le 2 (sb_devt_slotoff x) @
     to_le 1 (sb_dirblkbits x) @ to_le 1 (sb_xattr_prefix_count x) @
     to_le 4 (sb_xattr_prefix_start x) @ to_le 8 (sb_packed_nid x) @
     to_le 1 (sb_xattr_filter_reserved x) @ sb_reserved2 x"

definition valid_superblock :: "superblock \<Rightarrow> bool" where
  "valid_superblock x \<longleftrightarrow> length (sb_uuid x) = 16 \<and> length (sb_volume_name x) = 16 \<and> length (sb_reserved2 x) = 23"

definition dec_superblock :: "bytes \<Rightarrow> superblock option" where
  "dec_superblock bs =
     (if length bs < 128 then None
      else Some \<lparr>sb_magic = le_field 0 4 bs,
        sb_checksum = le_field 4 4 bs,
        sb_feature_compat = le_field 8 4 bs,
        sb_blkszbits = le_field 12 1 bs,
        sb_extslots = le_field 13 1 bs,
        sb_root_disk_id = le_field 14 2 bs,
        sb_inos = le_field 16 8 bs,
        sb_build_time = le_field 24 8 bs,
        sb_build_time_nsec = le_field 32 4 bs,
        sb_blocks = le_field 36 4 bs,
        sb_meta_blkaddr = le_field 40 4 bs,
        sb_xattr_blkaddr = le_field 44 4 bs,
        sb_uuid = take 16 (drop 48 bs),
        sb_volume_name = take 16 (drop 64 bs),
        sb_feature_incompat = le_field 80 4 bs,
        sb_available_compr_algs_or_lz4_max_distance = le_field 84 2 bs,
        sb_extra_devices = le_field 86 2 bs,
        sb_devt_slotoff = le_field 88 2 bs,
        sb_dirblkbits = le_field 90 1 bs,
        sb_xattr_prefix_count = le_field 91 1 bs,
        sb_xattr_prefix_start = le_field 92 4 bs,
        sb_packed_nid = le_field 96 8 bs,
        sb_xattr_filter_reserved = le_field 104 1 bs,
        sb_reserved2 = take 23 (drop 105 bs)\<rparr>)"

definition enc_inode_compact :: "inode_compact \<Rightarrow> bytes" where
  "enc_inode_compact x =
    to_le 2 (ic_format_layout x) @ to_le 2 (ic_xattr_count x) @ to_le 2 (ic_mode x) @
     to_le 2 (ic_nlink x) @ to_le 4 (ic_size x) @ to_le 4 (ic_reserved x) @ ic_info x @
     to_le 4 (ic_ino x) @ to_le 2 (ic_uid x) @ to_le 2 (ic_gid x) @ to_le 4 (ic_reserved2 x)"

definition valid_inode_compact :: "inode_compact \<Rightarrow> bool" where
  "valid_inode_compact x \<longleftrightarrow> length (ic_info x) = 4"

definition dec_inode_compact :: "bytes \<Rightarrow> inode_compact option" where
  "dec_inode_compact bs =
     (if length bs < 32 then None
      else Some \<lparr>ic_format_layout = le_field 0 2 bs,
        ic_xattr_count = le_field 2 2 bs,
        ic_mode = le_field 4 2 bs,
        ic_nlink = le_field 6 2 bs,
        ic_size = le_field 8 4 bs,
        ic_reserved = le_field 12 4 bs,
        ic_info = take 4 (drop 16 bs),
        ic_ino = le_field 20 4 bs,
        ic_uid = le_field 24 2 bs,
        ic_gid = le_field 26 2 bs,
        ic_reserved2 = le_field 28 4 bs\<rparr>)"

definition enc_inode_extended :: "inode_extended \<Rightarrow> bytes" where
  "enc_inode_extended x =
    to_le 2 (ie_format_layout x) @ to_le 2 (ie_xattr_count x) @ to_le 2 (ie_mode x) @
     to_le 2 (ie_reserved x) @ to_le 8 (ie_size x) @ ie_info x @ to_le 4 (ie_ino x) @
     to_le 4 (ie_uid x) @ to_le 4 (ie_gid x) @ to_le 8 (ie_mtime x) @
     to_le 4 (ie_mtime_nsec x) @ to_le 4 (ie_nlink x) @ ie_reserved2 x"

definition valid_inode_extended :: "inode_extended \<Rightarrow> bool" where
  "valid_inode_extended x \<longleftrightarrow> length (ie_info x) = 4 \<and> length (ie_reserved2 x) = 16"

definition dec_inode_extended :: "bytes \<Rightarrow> inode_extended option" where
  "dec_inode_extended bs =
     (if length bs < 64 then None
      else Some \<lparr>ie_format_layout = le_field 0 2 bs,
        ie_xattr_count = le_field 2 2 bs,
        ie_mode = le_field 4 2 bs,
        ie_reserved = le_field 6 2 bs,
        ie_size = le_field 8 8 bs,
        ie_info = take 4 (drop 16 bs),
        ie_ino = le_field 20 4 bs,
        ie_uid = le_field 24 4 bs,
        ie_gid = le_field 28 4 bs,
        ie_mtime = le_field 32 8 bs,
        ie_mtime_nsec = le_field 40 4 bs,
        ie_nlink = le_field 44 4 bs,
        ie_reserved2 = take 16 (drop 48 bs)\<rparr>)"

definition enc_xattr_header :: "xattr_header \<Rightarrow> bytes" where
  "enc_xattr_header x =
    to_le 4 (xh_name_filter x) @ to_le 1 (xh_shared_count x) @ xh_reserved x"

definition valid_xattr_header :: "xattr_header \<Rightarrow> bool" where
  "valid_xattr_header x \<longleftrightarrow> length (xh_reserved x) = 7"

definition dec_xattr_header :: "bytes \<Rightarrow> xattr_header option" where
  "dec_xattr_header bs =
     (if length bs < 12 then None
      else Some \<lparr>xh_name_filter = le_field 0 4 bs,
        xh_shared_count = le_field 4 1 bs,
        xh_reserved = take 7 (drop 5 bs)\<rparr>)"

definition enc_xattr_entry :: "xattr_entry \<Rightarrow> bytes" where
  "enc_xattr_entry x =
    to_le 1 (xe_name_len x) @ to_le 1 (xe_name_index x) @ to_le 2 (xe_value_size x)"

definition valid_xattr_entry :: "xattr_entry \<Rightarrow> bool" where
  "valid_xattr_entry x \<longleftrightarrow> True"

definition dec_xattr_entry :: "bytes \<Rightarrow> xattr_entry option" where
  "dec_xattr_entry bs =
     (if length bs < 4 then None
      else Some \<lparr>xe_name_len = le_field 0 1 bs,
        xe_name_index = le_field 1 1 bs,
        xe_value_size = le_field 2 2 bs\<rparr>)"

definition enc_disk_dirent :: "disk_dirent \<Rightarrow> bytes" where
  "enc_disk_dirent x =
    to_le 8 (dd_disk_id x) @ to_le 2 (dd_name_offset x) @ to_le 1 (dd_file_type x) @
     to_le 1 (dd_reserved x)"

definition valid_disk_dirent :: "disk_dirent \<Rightarrow> bool" where
  "valid_disk_dirent x \<longleftrightarrow> True"

definition dec_disk_dirent :: "bytes \<Rightarrow> disk_dirent option" where
  "dec_disk_dirent bs =
     (if length bs < 12 then None
      else Some \<lparr>dd_disk_id = le_field 0 8 bs,
        dd_name_offset = le_field 8 2 bs,
        dd_file_type = le_field 10 1 bs,
        dd_reserved = le_field 11 1 bs\<rparr>)"

definition enc_map_header :: "map_header \<Rightarrow> bytes" where
  "enc_map_header x =
    to_le 4 (mh_fragment_offset_or_data_size x) @ to_le 2 (mh_config x) @
     to_le 1 (mh_algorithm x) @ to_le 1 (mh_cluster_bits x)"

definition valid_map_header :: "map_header \<Rightarrow> bool" where
  "valid_map_header x \<longleftrightarrow> True"

definition dec_map_header :: "bytes \<Rightarrow> map_header option" where
  "dec_map_header bs =
     (if length bs < 8 then None
      else Some \<lparr>mh_fragment_offset_or_data_size = le_field 0 4 bs,
        mh_config = le_field 4 2 bs,
        mh_algorithm = le_field 6 1 bs,
        mh_cluster_bits = le_field 7 1 bs\<rparr>)"

definition enc_logical_cluster_index :: "logical_cluster_index \<Rightarrow> bytes" where
  "enc_logical_cluster_index x =
    to_le 2 (lci_advise x) @ to_le 2 (lci_cluster_offset x) @ lci_block_addr_or_delta x"

definition valid_logical_cluster_index :: "logical_cluster_index \<Rightarrow> bool" where
  "valid_logical_cluster_index x \<longleftrightarrow> length (lci_block_addr_or_delta x) = 4"

definition dec_logical_cluster_index :: "bytes \<Rightarrow> logical_cluster_index option" where
  "dec_logical_cluster_index bs =
     (if length bs < 8 then None
      else Some \<lparr>lci_advise = le_field 0 2 bs,
        lci_cluster_offset = le_field 2 2 bs,
        lci_block_addr_or_delta = take 4 (drop 4 bs)\<rparr>)"

section \<open>The structs keep the codec contract\<close>

interpretation sb_codec: fixed_codec enc_superblock dec_superblock valid_superblock 128
  by unfold_locales
    (auto simp: enc_superblock_def dec_superblock_def valid_superblock_def le_simps to_le_le_field glue_simps
      split: if_splits)

interpretation ic_codec: fixed_codec enc_inode_compact dec_inode_compact valid_inode_compact 32
  by unfold_locales
    (auto simp: enc_inode_compact_def dec_inode_compact_def valid_inode_compact_def le_simps to_le_le_field glue_simps
      split: if_splits)

interpretation ie_codec: fixed_codec enc_inode_extended dec_inode_extended valid_inode_extended 64
  by unfold_locales
    (auto simp: enc_inode_extended_def dec_inode_extended_def valid_inode_extended_def le_simps to_le_le_field glue_simps
      split: if_splits)

interpretation xh_codec: fixed_codec enc_xattr_header dec_xattr_header valid_xattr_header 12
  by unfold_locales
    (auto simp: enc_xattr_header_def dec_xattr_header_def valid_xattr_header_def le_simps to_le_le_field glue_simps
      split: if_splits)

interpretation xe_codec: fixed_codec enc_xattr_entry dec_xattr_entry valid_xattr_entry 4
  by unfold_locales
    (auto simp: enc_xattr_entry_def dec_xattr_entry_def valid_xattr_entry_def le_simps to_le_le_field glue_simps
      numeral_eq_Suc
      split: if_splits)

interpretation dd_codec: fixed_codec enc_disk_dirent dec_disk_dirent valid_disk_dirent 12
  by unfold_locales
    (auto simp: enc_disk_dirent_def dec_disk_dirent_def valid_disk_dirent_def le_simps to_le_le_field glue_simps
      split: if_splits)

interpretation mh_codec: fixed_codec enc_map_header dec_map_header valid_map_header 8
  by unfold_locales
    (auto simp: enc_map_header_def dec_map_header_def valid_map_header_def le_simps to_le_le_field glue_simps
      split: if_splits)

interpretation lci_codec: fixed_codec enc_logical_cluster_index dec_logical_cluster_index valid_logical_cluster_index 8
  by unfold_locales
    (auto simp: enc_logical_cluster_index_def dec_logical_cluster_index_def valid_logical_cluster_index_def le_simps to_le_le_field glue_simps
      split: if_splits)

section \<open>Conversions of the enumerations\<close>

definition compression_type_of_u8 :: "u8 \<Rightarrow> (compression_type, disk_error) result" where
  "compression_type_of_u8 x =
     (if x = 0 then Ok Lz4
      else if x = 1 then Ok Lzma
      else if x = 2 then Ok Deflate
      else if x = 3 then Ok Zstd
      else Err UnknownCompression)"

fun u16_of_layout :: "layout \<Rightarrow> u16" where
  "u16_of_layout FlatPlain = 0"
| "u16_of_layout CompressedFull = 1"
| "u16_of_layout FlatInline = 2"
| "u16_of_layout CompressedCompact = 3"
| "u16_of_layout ChunkBased = 4"

definition layout_of_u16 :: "u16 \<Rightarrow> layout option" where
  "layout_of_u16 x =
     (if x = 0 then Some FlatPlain
      else if x = 1 then Some CompressedFull
      else if x = 2 then Some FlatInline
      else if x = 3 then Some CompressedCompact
      else if x = 4 then Some ChunkBased
      else None)"

fun is_compressed :: "layout \<Rightarrow> bool" where
  "is_compressed CompressedFull = True"
| "is_compressed CompressedCompact = True"
| "is_compressed _ = False"

fun u8_of_dirent_file_type :: "dirent_file_type \<Rightarrow> u8" where
  "u8_of_dirent_file_type DtUnknown = 0"
| "u8_of_dirent_file_type DtRegularFile = 1"
| "u8_of_dirent_file_type DtDirectory = 2"
| "u8_of_dirent_file_type DtCharacterDevice = 3"
| "u8_of_dirent_file_type DtBlockDevice = 4"
| "u8_of_dirent_file_type DtFifo = 5"
| "u8_of_dirent_file_type DtSocket = 6"
| "u8_of_dirent_file_type DtSymlink = 7"

definition dirent_file_type_of_u8 :: "u8 \<Rightarrow> (dirent_file_type, disk_error) result" where
  "dirent_file_type_of_u8 x =
     (if x = 0 then Ok DtUnknown
      else if x = 1 then Ok DtRegularFile
      else if x = 2 then Ok DtDirectory
      else if x = 3 then Ok DtCharacterDevice
      else if x = 4 then Ok DtBlockDevice
      else if x = 5 then Ok DtFifo
      else if x = 6 then Ok DtSocket
      else if x = 7 then Ok DtSymlink
      else Err BadFileType)"

lemma layout_of_u16_of_layout [simp]: "layout_of_u16 (u16_of_layout l) = Some l"
  by (cases l) (simp_all add: layout_of_u16_def)

lemma dirent_file_type_roundtrip [simp]:
  "dirent_file_type_of_u8 (u8_of_dirent_file_type t) = Ok t"
  by (cases t) (simp_all add: dirent_file_type_of_u8_def)

section \<open>Bit fields\<close>

definition get_format :: "u16 \<Rightarrow> u16" where
  "get_format format_layout = format_layout AND 1"

definition get_layout :: "u16 \<Rightarrow> (layout, disk_error) result" where
  "get_layout format_layout =
     ok_or BadConversion (layout_of_u16 (drop_bit 1 format_layout AND 7))"

fun u16_of_inode_type :: "inode_type \<Rightarrow> u16" where
  "u16_of_inode_type InodeCompactT = 0"
| "u16_of_inode_type InodeExtendedT = 1"

definition format_layout :: "inode_type \<Rightarrow> layout \<Rightarrow> u16" where
  "format_layout t l = u16_of_inode_type t OR push_bit 1 (u16_of_layout l)"

definition new_raw_blkaddr :: "u32 \<Rightarrow> bytes" where
  "new_raw_blkaddr block = to_le 4 block"

definition raw_blkaddr :: "bytes \<Rightarrow> u32" where
  "raw_blkaddr data = le_field 0 4 data"

definition raw_compressed_blocks_of :: "bytes \<Rightarrow> u32" where
  "raw_compressed_blocks_of data = le_field 0 4 data"

definition compression_type_1 :: "map_header \<Rightarrow> (compression_type, disk_error) result" where
  "compression_type_1 h = compression_type_of_u8 (mh_algorithm h AND 15)"

definition compression_type_2 :: "map_header \<Rightarrow> (compression_type, disk_error) result" where
  "compression_type_2 h = compression_type_of_u8 (drop_bit 4 (mh_algorithm h) AND 15)"

definition cluster_size_bits :: "map_header \<Rightarrow> u8" where
  "cluster_size_bits h = mh_cluster_bits h AND 7"

definition block_addr_of :: "logical_cluster_index \<Rightarrow> u32" where
  "block_addr_of l = le_field 0 4 (lci_block_addr_or_delta l)"

definition delta_of :: "logical_cluster_index \<Rightarrow> u16 \<times> u16" where
  "delta_of l = (le_field 0 2 (lci_block_addr_or_delta l), le_field 2 2 (lci_block_addr_or_delta l))"

text \<open>\<open>advise & 0b11\<close> has no fifth value, so the last test stands for \<open>3\<close> and \<open>unreachable!\<close>.\<close>

definition lci_typ :: "logical_cluster_index \<Rightarrow> logical_cluster_type" where
  "lci_typ l =
     (let t = lci_advise l AND 3
      in if t = 0 then Plain else if t = 1 then Head1 else if t = 2 then NonHead else Head2)"

definition lci_is_head :: "logical_cluster_index \<Rightarrow> bool" where
  "lci_is_head l \<longleftrightarrow> lci_typ l = Head1 \<or> lci_typ l = Head2"

definition cluster_offset :: "logical_cluster_index \<Rightarrow> nat" where
  "cluster_offset l = unat (lci_cluster_offset l)"

lemma get_layout_format_layout [simp]: "get_layout (format_layout t l) = Ok l"
  by (cases t; cases l) (simp_all add: get_layout_def format_layout_def layout_of_u16_def)

lemma get_format_format_layout [simp]: "get_format (format_layout t l) = u16_of_inode_type t"
  by (cases t; cases l) (simp_all add: get_format_def format_layout_def)

lemma raw_blkaddr_new [simp]: "raw_blkaddr (new_raw_blkaddr b) = b"
  by (simp add: raw_blkaddr_def new_raw_blkaddr_def le_simps)

lemma advise_and_3: "(x :: u16) AND 3 \<in> {0, 1, 2, 3}"
proof -
  have "x AND 3 = x mod 4"
    using mask_eq_exp_minus_1[of 2, where 'a = "16 word"] take_bit_eq_mask[of 2 x]
      take_bit_eq_mod[of 2 x] by simp
  moreover have "unat (x mod 4) < 4"
    by (simp add: unat_mod)
  then have "unat (x mod 4) \<in> {0, 1, 2, 3}"
    by auto
  then have "x mod 4 \<in> {0, 1, 2, 3}"
    by (auto simp: word_unat_eq_iff)
  ultimately show ?thesis by simp
qed

lemma lci_typ_Head2_iff: "lci_typ l = Head2 \<longleftrightarrow> lci_advise l AND 3 = 3"
  using advise_and_3[of "lci_advise l"] by (auto simp: lci_typ_def Let_def)

end
