(* ===== verification/Erofs_Inode.thy ===== *)
theory Erofs_Inode
  imports Erofs_Disk
begin

text \<open>
  The \<open>Inode\<close> view of \<open>peerofs/src/disk.rs\<close> (a compact or an extended inode together with
  its disk id), the helpers that size blocks, tails and extended attributes, and the arithmetic
  facts the reader and the writer share. \<open>FileType::from_raw_mode\<close> belongs to the crate
  \<open>rustix\<close> and is the argument \<open>from_raw_mode\<close>.
\<close>

section \<open>Inodes\<close>

datatype inode = Compact u32 inode_compact | Extended u32 inode_extended

definition inode_new :: "u32 \<Rightarrow> bytes \<Rightarrow> (inode, disk_error) result" where
  "inode_new disk_id data =
     bindr (if length data < 2 then Err BadConversion else Ok (le_field 0 2 data)) (\<lambda>fl.
     bindr (get_layout fl) (\<lambda>_.
       if get_format fl = 0
       then mapr (Compact disk_id) (ok_or BadConversion (dec_inode_compact data))
       else mapr (Extended disk_id) (ok_or BadConversion (dec_inode_extended data))))"

fun inode_file_type :: "(u32 \<Rightarrow> file_type) \<Rightarrow> inode \<Rightarrow> file_type" where
  "inode_file_type from_raw_mode (Compact _ x) = from_raw_mode (ucast (ic_mode x))"
| "inode_file_type from_raw_mode (Extended _ x) = from_raw_mode (ucast (ie_mode x))"

fun inode_data_size :: "inode \<Rightarrow> nat" where
  "inode_data_size (Compact _ x) = unat (ic_size x)"
| "inode_data_size (Extended _ x) = unat (ie_size x)"

fun inode_disk_id :: "inode \<Rightarrow> u32" where
  "inode_disk_id (Compact i _) = i"
| "inode_disk_id (Extended i _) = i"

fun inode_size :: "inode \<Rightarrow> nat" where
  "inode_size (Compact _ _) = 32"
| "inode_size (Extended _ _) = 64"

fun inode_xattr_count :: "inode \<Rightarrow> u16" where
  "inode_xattr_count (Compact _ x) = ic_xattr_count x"
| "inode_xattr_count (Extended _ x) = ie_xattr_count x"

fun inode_ino :: "inode \<Rightarrow> u32" where
  "inode_ino (Compact _ x) = ic_ino x"
| "inode_ino (Extended _ x) = ie_ino x"

fun inode_uid :: "inode \<Rightarrow> u32" where
  "inode_uid (Compact _ x) = ucast (ic_uid x)"
| "inode_uid (Extended _ x) = ie_uid x"

fun inode_gid :: "inode \<Rightarrow> u32" where
  "inode_gid (Compact _ x) = ucast (ic_gid x)"
| "inode_gid (Extended _ x) = ie_gid x"

fun inode_mode :: "inode \<Rightarrow> u16" where
  "inode_mode (Compact _ x) = ic_mode x"
| "inode_mode (Extended _ x) = ie_mode x"

fun inode_format_layout :: "inode \<Rightarrow> u16" where
  "inode_format_layout (Compact _ x) = ic_format_layout x"
| "inode_format_layout (Extended _ x) = ie_format_layout x"

text \<open>\<open>Inode::layout\<close> expects what \<open>Inode::new\<close> validated; a failure would panic.\<close>

definition inode_layout :: "inode \<Rightarrow> (layout, disk_error) result" where
  "inode_layout i = (case get_layout (inode_format_layout i) of Ok l \<Rightarrow> Ok l | Err _ \<Rightarrow> Err DiskPanic)"

fun raw_block_addr :: "inode \<Rightarrow> u32" where
  "raw_block_addr (Compact _ x) = raw_blkaddr (ic_info x)"
| "raw_block_addr (Extended _ x) = raw_blkaddr (ie_info x)"

fun raw_compressed_blocks :: "inode \<Rightarrow> u32" where
  "raw_compressed_blocks (Compact _ x) = raw_compressed_blocks_of (ic_info x)"
| "raw_compressed_blocks (Extended _ x) = raw_compressed_blocks_of (ie_info x)"

definition inode_block_addr :: "(u32 \<Rightarrow> file_type) \<Rightarrow> inode \<Rightarrow> (nat, disk_error) result" where
  "inode_block_addr from_raw_mode i =
     (if inode_file_type from_raw_mode i \<in> {FtRegularFile, FtDirectory, FtSymlink}
      then Ok (unat (raw_block_addr i))
      else Err NotRegDirLink)"

fun link_count :: "inode \<Rightarrow> u32" where
  "link_count (Compact _ x) = ucast (ic_nlink x)"
| "link_count (Extended _ x) = ie_nlink x"

section \<open>Sizes of blocks, tails and extended attributes\<close>

definition div_mod_u16 :: "nat \<Rightarrow> nat \<Rightarrow> nat \<times> nat" where
  "div_mod_u16 a b = (a div b, a mod b)"

definition compute_block_tail_len :: "nat \<Rightarrow> nat \<Rightarrow> nat \<times> nat" where
  "compute_block_tail_len block_size sz =
     (let num_blocks = sz div block_size;
          block_len = num_blocks * block_size;
          tail_len = sz - block_len
      in (block_len, tail_len))"

definition round_up_to :: "nat \<Rightarrow> nat \<Rightarrow> nat" where
  "round_up_to n x = (if x = 0 then n else div_ceil x n * n)"

definition xattr_count_to_len :: "u16 \<Rightarrow> nat" where
  "xattr_count_to_len count = (if count = 0 then 0 else 12 + (unat count - 1) * 4)"

definition inode_xattr_len :: "inode \<Rightarrow> nat option" where
  "inode_xattr_len i =
     (let len = xattr_count_to_len (inode_xattr_count i) in if len = 0 then None else Some len)"

section \<open>What construction guarantees\<close>

lemma inode_new_layout_ok:
  assumes "inode_new disk_id data = Ok i"
  shows "\<exists>l. inode_layout i = Ok l"
  using assms
  by (auto simp: inode_new_def inode_layout_def result_simps dec_inode_compact_def
      dec_inode_extended_def le_field_def split: if_splits result.splits)

lemma inode_new_disk_id: "inode_new disk_id data = Ok i \<Longrightarrow> inode_disk_id i = disk_id"
  by (auto simp: inode_new_def result_simps split: if_splits)

lemma inode_new_error:
  "inode_new disk_id data = Err e \<Longrightarrow> e = BadConversion"
  by (auto simp: inode_new_def get_layout_def result_simps split: if_splits)

lemma inode_new_length: "inode_new disk_id data = Ok i \<Longrightarrow> inode_size i \<le> length data"
  by (auto simp: inode_new_def result_simps dec_inode_compact_def dec_inode_extended_def
      split: if_splits)

lemma inode_new_extended:
  assumes "valid_inode_extended x" and "ie_format_layout x = format_layout InodeExtendedT l"
  shows "inode_new disk_id (enc_inode_extended x @ rest) = Ok (Extended disk_id x)"
proof -
  have "le_field 0 2 (enc_inode_extended x @ rest) = ie_format_layout x"
    by (simp add: enc_inode_extended_def le_simps)
  moreover have "2 \<le> length (enc_inode_extended x @ rest)"
    by (simp add: enc_inode_extended_def)
  ultimately show ?thesis
    using assms by (simp add: inode_new_def ie_codec.dec_enc)
qed

lemma compute_block_tail_len_spec:
  assumes "0 < block_size" and "compute_block_tail_len block_size sz = (block_len, tail_len)"
  shows "block_len + tail_len = sz" and "tail_len < block_size" and "block_size dvd block_len"
  using assms by (auto simp: compute_block_tail_len_def Let_def minus_div_mult_eq_mod)

lemma round_up_to_ge: "0 < n \<Longrightarrow> x \<le> round_up_to n x"
  by (simp add: round_up_to_def div_ceil_mult_ge)

lemma round_up_to_dvd: "n dvd round_up_to n x"
  by (simp add: round_up_to_def)

lemma round_up_to_less: "0 < n \<Longrightarrow> 0 < x \<Longrightarrow> round_up_to n x < x + n"
  by (simp add: round_up_to_def div_ceil_mult_less)

lemma round_up_to_exact: "0 < n \<Longrightarrow> n dvd x \<Longrightarrow> 0 < x \<Longrightarrow> round_up_to n x = x"
  by (simp add: round_up_to_def div_ceil_def)

lemma xattr_count_to_len_lt: "xattr_count_to_len c < 2 ^ 20"
proof -
  have "unat c - 1 < 65536"
    using unat_lt[of c] by simp
  then show ?thesis by (simp add: xattr_count_to_len_def)
qed

end
