(* ===== verification/Erofs_Dirents.thy ===== *)
theory Erofs_Dirents
  imports Erofs_Inode
begin

text \<open>
  The directory-entry iterator of \<open>peerofs/src/disk.rs\<close>. A directory's data is a sequence of
  blocks, each holding its \<open>Dirent\<close> headers followed by the names; the iterator walks the
  block part first and the inline tail after it. \<open>next\<close> returns the item and the advanced
  iterator; the loop that drains it is a partial function, because with a block size of zero the
  iterator would not advance.
\<close>

record dirent_item =
  di_disk_id :: u64
  di_file_type :: dirent_file_type
  di_name :: bytes

record dirents_iterator =
  it_data :: bytes
  it_remaining :: "bytes option"
  it_i :: nat
  it_count :: nat
  it_block_size :: nat

definition reset_count ::
    "dirents_iterator \<Rightarrow> (unit, disk_error) result \<times> dirents_iterator" where
  "reset_count it =
     (let it1 = (if it_data it = []
                 then (case it_remaining it of
                         Some nxt \<Rightarrow> it\<lparr>it_data := nxt, it_remaining := None\<rparr>
                       | None \<Rightarrow> it)
                 else it)
      in if it_data it1 = []
         then (Ok (), it1\<lparr>it_i := 0, it_count := 0\<rparr>)
         else (case dec_disk_dirent (it_data it1) of
                 None \<Rightarrow> (Err BadConversion, it1)
               | Some dirent \<Rightarrow>
                   (case div_mod_u16 (unat (dd_name_offset dirent)) 12 of
                      (count, rem) \<Rightarrow>
                        if rem \<noteq> 0 then (Err DirentBadSize, it1)
                        else (Ok (), it1\<lparr>it_i := 0, it_count := count\<rparr>))))"

definition dirents_iterator_new ::
    "bytes \<times> bytes \<Rightarrow> nat \<Rightarrow> (dirents_iterator, disk_error) result" where
  "dirents_iterator_new data block_size =
     (case reset_count \<lparr>it_data = fst data, it_remaining = Some (snd data), it_i = 0,
          it_count = 0, it_block_size = block_size\<rparr> of
        (Ok _, it) \<Rightarrow> Ok it
      | (Err e, _) \<Rightarrow> Err e)"

definition it_get :: "dirents_iterator \<Rightarrow> nat \<Rightarrow> (disk_dirent, disk_error) result" where
  "it_get it i =
     bindr (ok_or Oob (get_from (i * 12) (it_data it))) (\<lambda>bs.
       ok_or BadConversion (dec_disk_dirent bs))"

text \<open>The name of the last entry of a block ends at its first null byte, if there is one.\<close>

fun until_nul :: "bytes \<Rightarrow> bytes" where
  "until_nul [] = []"
| "until_nul (b # bs) = (if b = 0 then [] else b # until_nul bs)"

definition next_impl ::
    "dirents_iterator \<Rightarrow> (dirent_item, disk_error) result \<times> dirents_iterator" where
  "next_impl it =
     (case it_get it (it_i it) of
        Err e \<Rightarrow> (Err e, it)
      | Ok dirent \<Rightarrow>
     (case dirent_file_type_of_u8 (dd_file_type dirent) of
        Err e \<Rightarrow> (Err e, it)
      | Ok file_type \<Rightarrow>
     (let name_offset = unat (dd_name_offset dirent);
          item = (\<lambda>name. \<lparr>di_disk_id = dd_disk_id dirent, di_file_type = file_type,
                          di_name = name\<rparr>)
      in if it_i it + 1 < it_count it
         then (case it_get it (it_i it + 1) of
                 Err e \<Rightarrow> (Err e, it)
               | Ok next_dirent \<Rightarrow>
                   (let next_offset = unat (dd_name_offset next_dirent);
                        name_len = sub64 next_offset name_offset;
                        it' = it\<lparr>it_i := it_i it + 1\<rparr>
                    in case get_range name_offset (add64 name_offset name_len) (it_data it) of
                         None \<Rightarrow> (Err Oob, it')
                       | Some name \<Rightarrow> (Ok (item name), it')))
         else (let block_end = min (length (it_data it)) (it_block_size it)
               in case get_range name_offset block_end (it_data it) of
                    None \<Rightarrow> (Err Oob, it)
                  | Some name_slice \<Rightarrow>
                      (case reset_count (it\<lparr>it_data := drop block_end (it_data it)\<rparr>) of
                         (Err e, it') \<Rightarrow> (Err e, it')
                       | (Ok _, it') \<Rightarrow> (Ok (item (until_nul name_slice)), it'))))))"

definition it_next ::
    "dirents_iterator \<Rightarrow> (dirent_item, disk_error) result option \<times> dirents_iterator" where
  "it_next it =
     (if it_i it < it_count it
      then (case next_impl it of (r, it') \<Rightarrow> (Some r, it'))
      else (None, it))"

text \<open>
  \<open>for item in dirents.iter()? { let item = item?; ... }\<close>: the entries up to the end, or the
  first error.
\<close>

partial_function (option) it_items ::
    "dirents_iterator \<Rightarrow> (dirent_item list, disk_error) result option" where
  "it_items it =
     (case it_next it of
        (None, _) \<Rightarrow> Some (Ok [])
      | (Some (Err e), _) \<Rightarrow> Some (Err e)
      | (Some (Ok x), it') \<Rightarrow> Option.bind (it_items it') (\<lambda>r. Some (mapr (Cons x) r)))"

declare it_items.simps [code]

section \<open>The iterator makes progress\<close>

definition it_total :: "dirents_iterator \<Rightarrow> nat" where
  "it_total it = length (it_data it) + (case it_remaining it of None \<Rightarrow> 0 | Some r \<Rightarrow> length r)"

lemma reset_count_frame:
  assumes "reset_count it = (r, it')"
  shows "it_total it' = it_total it" and "it_block_size it' = it_block_size it"
  using assms
  by (auto simp: reset_count_def it_total_def Let_def div_mod_u16_def
      split: if_splits option.splits prod.splits)

lemma it_get_length: "it_get it i = Ok d \<Longrightarrow> i * 12 + 12 \<le> length (it_data it)"
  by (auto simp: it_get_def result_simps slice_simps dest!: dd_codec.dec_length)

lemma it_next_progress:
  assumes "it_next it = (Some (Ok x), it')" and "0 < it_block_size it"
  shows "it_total it' < it_total it \<or>
      (it_total it' = it_total it \<and> it_count it' - it_i it' < it_count it - it_i it)"
    and "it_block_size it' = it_block_size it"
proof -
  from assms(1) have lt: "it_i it < it_count it" and step: "next_impl it = (Ok x, it')"
    by (auto simp: it_next_def split: if_splits prod.splits)
  from step obtain d where d: "it_get it (it_i it) = Ok d"
    by (auto simp: next_impl_def split: result.splits)
  then have nonempty: "0 < length (it_data it)"
    using it_get_length by fastforce
  show "it_total it' < it_total it \<or>
      (it_total it' = it_total it \<and> it_count it' - it_i it' < it_count it - it_i it)"
  proof (cases "it_i it + 1 < it_count it")
    case True
    with step have "it' = it\<lparr>it_i := it_i it + 1\<rparr>"
      by (auto simp: next_impl_def Let_def split: result.splits option.splits)
    with True show ?thesis by (simp add: it_total_def)
  next
    case False
    let ?e = "min (length (it_data it)) (it_block_size it)"
    from step False obtain u where "reset_count (it\<lparr>it_data := drop ?e (it_data it)\<rparr>) = (Ok u, it')"
      by (auto simp: next_impl_def Let_def split: result.splits option.splits prod.splits)
    then have "it_total it' = it_total (it\<lparr>it_data := drop ?e (it_data it)\<rparr>)"
      by (rule reset_count_frame)
    with nonempty assms(2) show ?thesis by (simp add: it_total_def)
  qed
  show "it_block_size it' = it_block_size it"
    using step by (auto simp: next_impl_def Let_def dest!: reset_count_frame(2)
        split: result.splits option.splits prod.splits if_splits)
qed

lemma it_items_returns:
  assumes "0 < it_block_size it"
  shows "\<exists>r. it_items it = Some r"
  using assms
proof (induction it rule: wf_induct[OF wf_measures[of "[it_total, \<lambda>it. it_count it - it_i it]"]])
  case (1 it)
  show ?case
  proof (cases "it_next it")
    case (Pair r it')
    show ?thesis
    proof (cases "\<exists>x. r = Some (Ok x)")
      case True
      then obtain x where "it_next it = (Some (Ok x), it')" using Pair by auto
      from it_next_progress[OF this 1(2)] have "\<exists>r. it_items it' = Some r"
        using 1 by (auto simp: in_measures)
      then show ?thesis
        using Pair True by (auto simp: it_items.simps[of it])
    next
      case False
      with Pair show ?thesis
        by (auto simp: it_items.simps[of it] split: option.splits result.splits)
    qed
  qed
qed

end
