(* ===== verification/Erofs_Xattr.thy ===== *)
theory Erofs_Xattr
  imports Erofs_Inode
begin

text \<open>
  Extended attributes in \<open>peerofs/src/disk.rs\<close>: the built-in prefix table, the iterator over
  shared and inline entries, and the size computation the writer uses. \<open>xi_next\<close> returns the
  iterator as the call leaves it, also when it fails.
\<close>

section \<open>Prefixes\<close>

definition XATTR_BUILTIN_PREFIX_TABLE :: "bytes list" where
  "XATTR_BUILTIN_PREFIX_TABLE =
     [ascii ''user.'', ascii ''system.posix_acl_access'', ascii ''system.posix_acl_default'',
      ascii ''trusted'', ascii '''', ascii ''security.'']"

definition XATTR_BUILTIN_PREFIX_MAX :: u8 where "XATTR_BUILTIN_PREFIX_MAX = 7"

datatype xattr_prefix = Builtin u8 | Table u8

definition xattr_prefix_try_from :: "u8 \<Rightarrow> (xattr_prefix option, disk_error) result" where
  "xattr_prefix_try_from x =
     (if x = 0 then Ok None
      else if x AND 0x80 \<noteq> 0 then Ok (Some (Table (x AND 0x7f)))
      else if x < XATTR_BUILTIN_PREFIX_MAX then Ok (Some (Builtin x))
      else Err InvalidXattrPrefix)"

definition starts_with :: "bytes \<Rightarrow> bytes \<Rightarrow> bool" where
  "starts_with key prefix \<longleftrightarrow> take (length prefix) key = prefix"

record xattr_builtin_prefix_with_len =
  xp_id :: u8
  xp_len :: u8

fun find_prefix :: "nat \<Rightarrow> bytes list \<Rightarrow> bytes \<Rightarrow> xattr_builtin_prefix_with_len option" where
  "find_prefix i [] key = None"
| "find_prefix i (prefix # prefixes) key =
     (if starts_with key prefix
      then Some \<lparr>xp_id = of_nat (i + 1), xp_len = of_nat (length prefix)\<rparr>
      else find_prefix (i + 1) prefixes key)"

definition xattr_builtin_prefix :: "bytes \<Rightarrow> xattr_builtin_prefix_with_len option" where
  "xattr_builtin_prefix key = find_prefix 0 XATTR_BUILTIN_PREFIX_TABLE key"

section \<open>The iterator\<close>

record xattr_item =
  xi_prefix :: "xattr_prefix option"
  xi_name :: bytes
  xi_value :: bytes

record xattrs =
  xs_header :: xattr_header
  xs_data :: bytes
  xs_shared_data :: bytes

record xattrs_iterator =
  xit_data :: bytes
  xit_shared_data :: bytes
  xit_shared_remaining :: nat

definition xattrs_iter :: "xattrs \<Rightarrow> xattrs_iterator" where
  "xattrs_iter x =
     \<lparr>xit_data = xs_data x, xit_shared_data = xs_shared_data x,
      xit_shared_remaining = unat (xh_shared_count (xs_header x))\<rparr>"

definition next_shared ::
    "xattrs_iterator \<Rightarrow> (xattr_item, disk_error) result \<times> xattrs_iterator" where
  "next_shared it =
     (let it1 = it\<lparr>xit_shared_remaining := xit_shared_remaining it - 1\<rparr>
      in if length (xit_data it) < 4 then (Err BadConversion, it1)
         else
           (let index = unat (le_field 0 4 (xit_data it) :: u32);
                it2 = it1\<lparr>xit_data := drop 4 (xit_data it)\<rparr>
            in (bindr (ok_or Oob (get_from (index * 4) (xit_shared_data it))) (\<lambda>sd.
                bindr (ok_or BadConversion (dec_xattr_entry sd)) (\<lambda>entry.
                bindr (ok_or Oob (split_at_checked (unat (xe_name_len entry)) (drop 4 sd)))
                  (\<lambda>(name, sdata).
                bindr (ok_or Oob (split_at_checked (unat (xe_value_size entry)) sdata))
                  (\<lambda>(val, _).
                bindr (xattr_prefix_try_from (xe_name_index entry)) (\<lambda>prefix.
                  Ok \<lparr>xi_prefix = prefix, xi_name = name, xi_value = val\<rparr>))))), it2)))"

definition next_unshared ::
    "xattrs_iterator \<Rightarrow> (xattr_item, disk_error) result \<times> xattrs_iterator" where
  "next_unshared it =
     (case dec_xattr_entry (xit_data it) of
        None \<Rightarrow> (Err BadConversion, it)
      | Some entry \<Rightarrow>
          (let data = drop 4 (xit_data it);
               name_len = unat (xe_name_len entry);
               value_len = unat (xe_value_size entry);
               off = round_up_to 4 (name_len + value_len)
           in case get_range 0 name_len data of
                None \<Rightarrow> (Err Oob, it)
              | Some name \<Rightarrow>
             (case get_range name_len (name_len + value_len) data of
                None \<Rightarrow> (Err Oob, it)
              | Some val \<Rightarrow>
             (case get_from off data of
                None \<Rightarrow> (Err Oob, it)
              | Some rest \<Rightarrow>
                  (mapr (\<lambda>prefix. \<lparr>xi_prefix = prefix, xi_name = name, xi_value = val\<rparr>)
                     (xattr_prefix_try_from (xe_name_index entry)),
                   it\<lparr>xit_data := (if length rest < 4 then [] else rest)\<rparr>)))))"

definition xi_next ::
    "xattrs_iterator \<Rightarrow> (xattr_item, disk_error) result option \<times> xattrs_iterator" where
  "xi_next it =
     (if 0 < xit_shared_remaining it
      then (case next_shared it of (r, it') \<Rightarrow> (Some r, it'))
      else if xit_data it \<noteq> []
      then (case next_unshared it of (r, it') \<Rightarrow> (Some r, it'))
      else (None, it))"

lemma xi_next_progress:
  assumes "xi_next it = (Some (Ok x), it')"
  shows "xit_shared_remaining it' < xit_shared_remaining it \<or>
     (xit_shared_remaining it' = xit_shared_remaining it \<and>
      length (xit_data it') < length (xit_data it))"
proof (cases "0 < xit_shared_remaining it")
  case True
  with assms show ?thesis
    by (auto simp: xi_next_def next_shared_def Let_def split: if_splits)
next
  case False
  with assms have "xit_data it \<noteq> []" and "next_unshared it = (Ok x, it')"
    by (auto simp: xi_next_def split: if_splits prod.splits)
  then show ?thesis
    by (auto simp: next_unshared_def Let_def slice_simps
        split: option.splits if_splits)
qed

text \<open>Draining the iterator, stopping at the first error.\<close>

function xi_items :: "xattrs_iterator \<Rightarrow> (xattr_item list, disk_error) result" where
  "xi_items it =
     (case xi_next it of
        (None, _) \<Rightarrow> Ok []
      | (Some (Err e), _) \<Rightarrow> Err e
      | (Some (Ok x), it') \<Rightarrow> mapr (Cons x) (xi_items it'))"
  by pat_completeness auto
termination
  by (relation "measures [xit_shared_remaining, length \<circ> xit_data]")
    (auto dest!: xi_next_progress[OF sym])

declare xi_items.simps [simp del]

section \<open>Sizes\<close>

record xattr_count_and_padding =
  xc_xattr_count :: nat
  xc_padding :: nat

definition xattr_entry_len :: "xattr_entry \<Rightarrow> nat" where
  "xattr_entry_len entry = unat (xe_name_len entry) + unat (xe_value_size entry) + 4"

definition xattr_count :: "xattr_entry list \<Rightarrow> xattr_count_and_padding" where
  "xattr_count entries =
     (let len = sum_list (map xattr_entry_len entries)
      in if len = 0 then \<lparr>xc_xattr_count = 0, xc_padding = 0\<rparr>
         else (let padded = round_up_to 4 len
               in \<lparr>xc_xattr_count = padded div 4 + 1, xc_padding = padded - len\<rparr>))"

definition get_xattr_prefix :: "xattr_item \<Rightarrow> (bytes, disk_error) result" where
  "get_xattr_prefix item =
     (case xi_prefix item of
        None \<Rightarrow> Ok []
      | Some (Builtin i) \<Rightarrow>
          (let k = unat i - 1
           in if k < length XATTR_BUILTIN_PREFIX_TABLE
              then Ok (XATTR_BUILTIN_PREFIX_TABLE ! k)
              else Err BuiltinPrefixTooBig)
      | Some (Table _) \<Rightarrow> Err XattrPrefixTableNotHandled)"

end
