(* ===== verification/Paths.thy ===== *)
theory Paths
  imports Prelude
begin

text \<open>
  What the code uses of \<open>std::path\<close> on Unix: a path is a byte string, and its components are the
  non-empty pieces between slashes; \<open>.\<close> is kept only as the first component of a relative path.
\<close>

definition slash :: u8 where "slash = 0x2f"
definition dot_name :: bytes where "dot_name = [0x2e]"
definition dotdot_name :: bytes where "dotdot_name = [0x2e, 0x2e]"

fun split_slash :: "bytes \<Rightarrow> bytes list" where
  "split_slash [] = [[]]"
| "split_slash (b # bs) =
     (if b = slash then [] # split_slash bs
      else (case split_slash bs of [] \<Rightarrow> [[b]] | w # ws \<Rightarrow> (b # w) # ws))"

datatype path_component = RootDir | CurDir | ParentDir | Normal bytes

definition body_components :: "bytes list \<Rightarrow> path_component list" where
  "body_components ws =
     map (\<lambda>w. if w = dotdot_name then ParentDir else Normal w)
       (filter (\<lambda>w. w \<noteq> [] \<and> w \<noteq> dot_name) ws)"

definition path_components :: "bytes \<Rightarrow> path_component list" where
  "path_components p =
     (let ws = split_slash p
      in (if p \<noteq> [] \<and> hd p = slash then [RootDir]
          else if hd ws = dot_name then [CurDir]
          else []) @ body_components ws)"

text \<open>\<open>Component::as_os_str\<close>, which iterating over a \<open>Path\<close> yields.\<close>

fun component_name :: "path_component \<Rightarrow> bytes" where
  "component_name RootDir = [slash]"
| "component_name CurDir = dot_name"
| "component_name ParentDir = dotdot_name"
| "component_name (Normal n) = n"

definition ends_with_slash :: "bytes \<Rightarrow> bool" where
  "ends_with_slash p \<longleftrightarrow> p \<noteq> [] \<and> last p = slash"

definition normal_name :: "bytes \<Rightarrow> bool" where
  "normal_name n \<longleftrightarrow> n \<noteq> [] \<and> n \<noteq> dot_name \<and> n \<noteq> dotdot_name \<and> slash \<notin> set n"

text \<open>A relative path spelled by its names.\<close>

fun join_names :: "bytes list \<Rightarrow> bytes" where
  "join_names [] = []"
| "join_names [n] = n"
| "join_names (n # ns) = n @ slash # join_names ns"

lemma split_slash_nonempty [simp]: "split_slash p \<noteq> []"
  by (induction p) (auto split: list.splits)

lemma split_slash_no_slash: "w \<in> set (split_slash p) \<Longrightarrow> slash \<notin> set w"
  by (induction p arbitrary: w) (auto split: list.splits if_splits)

lemma split_slash_plain: "slash \<notin> set n \<Longrightarrow> split_slash n = [n]"
  by (induction n) auto

lemma split_slash_append: "slash \<notin> set n \<Longrightarrow> split_slash (n @ slash # p) = n # split_slash p"
  by (induction n) auto

lemma split_slash_join:
  "ns \<noteq> [] \<Longrightarrow> \<forall>n \<in> set ns. slash \<notin> set n \<Longrightarrow> split_slash (join_names ns) = ns"
  by (induction ns rule: join_names.induct) (auto simp: split_slash_plain split_slash_append)

lemma path_components_normal:
  assumes "Normal n \<in> set (path_components p)"
  shows "normal_name n"
  using assms split_slash_no_slash[of n p]
  by (auto simp: path_components_def body_components_def normal_name_def Let_def split: if_splits)

lemma join_names_hd: "ns \<noteq> [] \<Longrightarrow> hd ns \<noteq> [] \<Longrightarrow> join_names ns \<noteq> [] \<and> hd (join_names ns) = hd (hd ns)"
  by (cases ns rule: join_names.cases) auto

lemma path_components_join:
  assumes "ns \<noteq> []" and "\<forall>n \<in> set ns. normal_name n"
  shows "path_components (join_names ns) = map Normal ns"
proof -
  have hd: "normal_name (hd ns)" using assms by (cases ns) auto
  then have "hd (join_names ns) \<noteq> slash"
    using join_names_hd[OF assms(1)] by (metis normal_name_def hd_in_set)
  moreover have "split_slash (join_names ns) = ns"
    using assms by (intro split_slash_join) (auto simp: normal_name_def)
  moreover have "filter (\<lambda>w. w \<noteq> [] \<and> w \<noteq> dot_name) ns = ns"
    using assms by (auto simp: normal_name_def filter_id_conv)
  moreover have "map (\<lambda>w. if w = dotdot_name then ParentDir else Normal w) ns = map Normal ns"
    using assms by (auto simp: normal_name_def)
  ultimately show ?thesis
    using hd by (simp add: path_components_def body_components_def normal_name_def Let_def)
qed

lemma join_names_no_trailing_slash:
  "ns \<noteq> [] \<Longrightarrow> \<forall>n \<in> set ns. normal_name n \<Longrightarrow> \<not> ends_with_slash (join_names ns)"
proof (induction ns rule: join_names.induct)
  case (2 n)
  then have "last n \<in> set n" "slash \<notin> set n" by (auto simp: normal_name_def)
  then show ?case by (auto simp: ends_with_slash_def)
next
  case (3 n m ns)
  then have "join_names (m # ns) \<noteq> []" "\<not> ends_with_slash (join_names (m # ns))"
    using join_names_hd[of "m # ns"] by (auto simp: normal_name_def)
  then show ?case by (auto simp: ends_with_slash_def)
qed simp

end
