(* ===== verification/Erofs_Reader.thy ===== *)
theory Erofs_Reader
  imports Erofs_Dirents Erofs_Xattr Paths
begin

text \<open>
  The reader \<open>Erofs\<close> of \<open>peerofs/src/disk.rs\<close>: opening an image, the checksum, address
  arithmetic, inodes, file data, directory entries, extended attributes, symbolic links and path
  lookup. The image is a byte string; addresses wrap at 64 bits as in a release build, and every
  access to the image is a checked slice.
\<close>

section \<open>Checksum\<close>

definition crc32c_bit :: "u32 \<Rightarrow> u32" where
  "crc32c_bit crc = drop_bit 1 crc XOR (if crc AND 1 = 0 then 0 else 0x82F63B78)"

definition crc32c_byte :: "u32 \<Rightarrow> u8 \<Rightarrow> u32" where
  "crc32c_byte crc x = (crc32c_bit ^^ 8) (crc XOR ucast x)"

definition crc32c :: "bytes \<Rightarrow> u32" where
  "crc32c data = foldl crc32c_byte (- 1) data"

section \<open>The image and its addresses\<close>

record erofs =
  er_data :: bytes
  er_sb :: superblock

definition erofs_new :: "bytes \<Rightarrow> (erofs, disk_error) result" where
  "erofs_new data =
     bindr (ok_or Oob (get_from EROFS_SUPER_OFFSET data)) (\<lambda>bs.
     bindr (ok_or BadConversion (dec_superblock bs)) (\<lambda>sb.
       if sb_magic sb \<noteq> EROFS_SUPER_MAGIG_V1 then Err BadMagic
       else Ok \<lparr>er_data = data, er_sb = sb\<rparr>))"

definition er_block_size :: "erofs \<Rightarrow> nat" where
  "er_block_size er = shl64 1 (unat (sb_blkszbits (er_sb er)))"

definition block_offset :: "erofs \<Rightarrow> u32 \<Rightarrow> nat" where
  "block_offset er block = shl64 (unat block) (unat (sb_blkszbits (er_sb er)))"

definition raw_inode_offset :: "erofs \<Rightarrow> u32 \<Rightarrow> nat" where
  "raw_inode_offset er disk_id =
     add64 (block_offset er (sb_meta_blkaddr (er_sb er))) (mul64 32 (unat disk_id))"

definition inode_offset :: "erofs \<Rightarrow> inode \<Rightarrow> nat" where
  "inode_offset er i = raw_inode_offset er (inode_disk_id i)"

definition inode_end :: "erofs \<Rightarrow> inode \<Rightarrow> nat" where
  "inode_end er i =
     (let start = inode_offset er i;
          xattr_size = (case inode_xattr_len i of None \<Rightarrow> 0 | Some n \<Rightarrow> n)
      in add64 (add64 start (inode_size i)) xattr_size)"

definition compute_checksum :: "erofs \<Rightarrow> (u32, disk_error) result" where
  "compute_checksum er =
     mapr (\<lambda>rest. crc32c (to_le 4 (sb_magic (er_sb er)) @ to_le 4 (0 :: u32) @ rest))
       (ok_or Oob (get_range (EROFS_SUPER_OFFSET + 8) (er_block_size er) (er_data er)))"

definition check_checksum :: "erofs \<Rightarrow> (bool, disk_error) result" where
  "check_checksum er = mapr (\<lambda>c. c = sb_checksum (er_sb er)) (compute_checksum er)"

section \<open>Inodes and data\<close>

definition get_inode :: "erofs \<Rightarrow> u32 \<Rightarrow> (inode, disk_error) result" where
  "get_inode er disk_id =
     bindr (ok_or Oob (get_from (raw_inode_offset er disk_id) (er_data er))) (inode_new disk_id)"

definition get_inode_from_dirent :: "erofs \<Rightarrow> dirent_item \<Rightarrow> (inode, disk_error) result" where
  "get_inode_from_dirent er dirent =
     (if unat (di_disk_id dirent) < 2 ^ 32
      then get_inode er (ucast (di_disk_id dirent))
      else Err InodeTooBig)"

definition get_root_inode :: "erofs \<Rightarrow> (inode, disk_error) result" where
  "get_root_inode er = get_inode er (ucast (sb_root_disk_id (er_sb er)))"

definition get_data :: "erofs \<Rightarrow> inode \<Rightarrow> (bytes \<times> bytes, disk_error) result" where
  "get_data er i =
     bindr (inode_layout i) (\<lambda>l.
       case l of
         FlatInline \<Rightarrow>
           (case compute_block_tail_len (er_block_size er) (inode_data_size i) of
              (block_len, tail_len) \<Rightarrow>
                (let data_begin = inode_end er i
                 in bindr (ok_or Oob (get_range data_begin (add64 data_begin tail_len) (er_data er)))
                      (\<lambda>tail.
                    bindr
                      (if raw_block_addr i = 0xffffffff
                       then (if block_len \<noteq> 0 then Err BlockLenShouldBeZero else Ok [])
                       else (let block_begin = block_offset er (raw_block_addr i)
                             in ok_or Oob
                                  (get_range block_begin (add64 block_begin block_len) (er_data er))))
                      (\<lambda>block. Ok (block, tail)))))
       | FlatPlain \<Rightarrow>
           (let data_len = inode_data_size i
            in if data_len = 0 then Ok ([], [])
               else (let data_begin = block_offset er (raw_block_addr i)
                     in mapr (\<lambda>x. (x, []))
                          (ok_or Oob
                             (get_range data_begin (add64 data_begin data_len) (er_data er)))))
       | _ \<Rightarrow> Err (LayoutNotHandled l))"

record dirents =
  ds_data :: "bytes \<times> bytes"
  ds_block_size :: nat

definition dirents_iter :: "dirents \<Rightarrow> (dirents_iterator, disk_error) result" where
  "dirents_iter d = dirents_iterator_new (ds_data d) (ds_block_size d)"

definition get_dirents ::
    "(u32 \<Rightarrow> file_type) \<Rightarrow> erofs \<Rightarrow> inode \<Rightarrow> (dirents, disk_error) result" where
  "get_dirents from_raw_mode er i =
     (if inode_file_type from_raw_mode i \<noteq> FtDirectory then Err NotDir
      else mapr (\<lambda>data. \<lparr>ds_data = data, ds_block_size = er_block_size er\<rparr>) (get_data er i))"

definition xattr_shared_data :: "erofs \<Rightarrow> (bytes, disk_error) result" where
  "xattr_shared_data er =
     ok_or Oob (get_from (block_offset er (sb_xattr_blkaddr (er_sb er))) (er_data er))"

definition get_xattrs :: "erofs \<Rightarrow> inode \<Rightarrow> (xattrs option, disk_error) result" where
  "get_xattrs er i =
     (case inode_xattr_len i of
        None \<Rightarrow> Ok None
      | Some sz \<Rightarrow>
          (let off = add64 (inode_offset er i) (inode_size i)
           in bindr (ok_or Oob (get_range off (add64 off sz) (er_data er))) (\<lambda>data.
              bindr (xattr_shared_data er) (\<lambda>shared_data.
              bindr (ok_or BadConversion (dec_xattr_header data)) (\<lambda>header.
                Ok (Some \<lparr>xs_header = header, xs_data = drop 12 data,
                          xs_shared_data = shared_data\<rparr>))))))"

definition get_symlink ::
    "(u32 \<Rightarrow> file_type) \<Rightarrow> erofs \<Rightarrow> inode \<Rightarrow> (bytes, disk_error) result" where
  "get_symlink from_raw_mode er i =
     (if inode_file_type from_raw_mode i \<noteq> FtSymlink then Err NotSymlink
      else bindr (get_data er i) (\<lambda>(block, tail).
             if block \<noteq> [] then Err NotExpectingBlockData else Ok tail))"

section \<open>Bounds of addresses\<close>

lemma block_offset_lt: "block_offset er b < 2 ^ 64"
  by (simp only: block_offset_def shl64_lt)

lemma er_block_size_pos: "0 < er_block_size er"
proof -
  let ?b = "unat (sb_blkszbits (er_sb er)) mod 64"
  have "(2 :: nat) ^ ?b < 2 ^ 64"
    by (rule power_strict_increasing) auto
  then show ?thesis
    by (simp only: er_block_size_def shl64_def mult_1 mod_less) simp
qed

section \<open>Path lookup\<close>

text \<open>
  The inner loop of \<open>lookup\<close>: the first entry with the wanted name, or \<open>None\<close> at the end. The
  outer loop walks the components of the path as byte strings, a leading \<open>/\<close> included.
\<close>

partial_function (option) find_dirent ::
    "dirents_iterator \<Rightarrow> bytes \<Rightarrow> (dirent_item option, disk_error) result option" where
  "find_dirent it name =
     (case it_next it of
        (None, _) \<Rightarrow> Some (Ok None)
      | (Some (Err e), _) \<Rightarrow> Some (Err e)
      | (Some (Ok item), it') \<Rightarrow>
          (if di_name item = name then Some (Ok (Some item)) else find_dirent it' name))"

declare find_dirent.simps [code]

fun lookup_from ::
    "(u32 \<Rightarrow> file_type) \<Rightarrow> erofs \<Rightarrow> inode \<Rightarrow> bytes list \<Rightarrow>
       (inode option, disk_error) result option" where
  "lookup_from from_raw_mode er cur [] = Some (Ok (Some cur))"
| "lookup_from from_raw_mode er cur (component # components) =
     (case bindr (get_dirents from_raw_mode er cur) dirents_iter of
        Err e \<Rightarrow> Some (Err e)
      | Ok it \<Rightarrow>
          Option.bind (find_dirent it component) (\<lambda>r.
            case r of
              Err e \<Rightarrow> Some (Err e)
            | Ok None \<Rightarrow> Some (Ok None)
            | Ok (Some item) \<Rightarrow>
                (case get_inode_from_dirent er item of
                   Err e \<Rightarrow> Some (Err e)
                 | Ok i \<Rightarrow> lookup_from from_raw_mode er i components)))"

definition erofs_lookup ::
    "(u32 \<Rightarrow> file_type) \<Rightarrow> erofs \<Rightarrow> bytes \<Rightarrow> (inode option, disk_error) result option" where
  "erofs_lookup from_raw_mode er p =
     (case get_root_inode er of
        Err e \<Rightarrow> Some (Err e)
      | Ok root \<Rightarrow> lookup_from from_raw_mode er root (map component_name (path_components p)))"

end
