(* ===== verification/Erofs_Compress.thy ===== *)
theory Erofs_Compress
  imports Erofs_Reader
begin

text \<open>
  Compressed files in \<open>peerofs/src/disk.rs\<close>: the map header, the logical cluster indices (LCI)
  and the loop of \<open>get_compressed_data\<close> that decompresses one physical cluster after the other.
  The decompressor of the crate \<open>lzzzz\<close> is the argument \<open>decompress\<close>: source bytes, destination
  buffer and wanted size to the decompressed size and the new buffer. The writer is a byte vector,
  whose \<open>write_all\<close> appends and does not fail.
\<close>

section \<open>Map header and cluster indices\<close>

definition map_header_start :: "erofs \<Rightarrow> inode \<Rightarrow> nat" where
  "map_header_start er i = round_up_to 8 (inode_end er i) mod 2 ^ 64"

definition get_map_header :: "erofs \<Rightarrow> inode \<Rightarrow> (map_header, disk_error) result" where
  "get_map_header er i =
     bindr (inode_layout i) (\<lambda>l.
       if \<not> is_compressed l then Err NotCompressed
       else bindr (ok_or Oob (get_from (map_header_start er i) (er_data er))) (\<lambda>bs.
              ok_or BadConversion (dec_map_header bs)))"

fun lcis_from_prefix :: "nat \<Rightarrow> bytes \<Rightarrow> logical_cluster_index list option" where
  "lcis_from_prefix 0 bs = Some []"
| "lcis_from_prefix (Suc n) bs =
     (case dec_logical_cluster_index bs of
        None \<Rightarrow> None
      | Some l \<Rightarrow> map_option (Cons l) (lcis_from_prefix n (drop 8 bs)))"

definition get_logical_cluster_indices ::
    "erofs \<Rightarrow> inode \<Rightarrow> (logical_cluster_index list, disk_error) result" where
  "get_logical_cluster_indices er i =
     bindr (inode_layout i) (\<lambda>l.
       if l \<noteq> CompressedFull then Err NotCompressedFull
       else
         (let n = div_ceil (inode_data_size i) (er_block_size er);
              start = add64 (add64 (map_header_start er i) 8) 8
          in bindr (ok_or Oob (get_from start (er_data er))) (\<lambda>data.
               ok_or BadConversion (lcis_from_prefix n data))))"

section \<open>Decompression\<close>

type_synonym decompressor = "bytes \<Rightarrow> bytes \<Rightarrow> nat \<Rightarrow> (nat \<times> bytes) option"

text \<open>\<open>lz4_feature\<close> tells whether the crate is built with its feature \<open>lz4\<close>.\<close>

definition get_decompressor ::
    "bool \<Rightarrow> decompressor \<Rightarrow> compression_type \<Rightarrow> (decompressor, disk_error) result" where
  "get_decompressor lz4_feature decompress t =
     (if t = Lz4 \<and> lz4_feature then Ok decompress else Err (CompressionNotSupported t))"

definition lci_get :: "logical_cluster_index list \<Rightarrow> nat \<Rightarrow> logical_cluster_index option" where
  "lci_get lcis i = (if i < length lcis then Some (lcis ! i) else None)"

definition pcluster_span ::
    "nat \<Rightarrow> nat \<Rightarrow> logical_cluster_index \<Rightarrow> logical_cluster_index \<Rightarrow> nat" where
  "pcluster_span block_len n cur next_head =
     sub64 (add64 (mul64 n block_len) (cluster_offset next_head)) (cluster_offset cur)"

definition pcluster_len ::
    "logical_cluster_index list \<Rightarrow> nat \<Rightarrow> nat \<Rightarrow> nat \<Rightarrow> (nat option \<times> nat, disk_error) result" where
  "pcluster_len lcis i block_len file_size =
     bindr (ok_or Oob (lci_get lcis i)) (\<lambda>cur.
     bindr (ok_or Oob (lci_get lcis (i + 1))) (\<lambda>nxt.
       if lci_typ nxt = NonHead
       then
         (let n = unat (snd (delta_of nxt))
          in case lci_get lcis (i + 1 + n) of
               None \<Rightarrow>
                 if i + 1 + n = length lcis
                 then (let la = add64 (mul64 i block_len) (cluster_offset cur)
                       in if file_size < la then Err Underflow else Ok (None, file_size - la))
                 else Err Oob
             | Some next_head \<Rightarrow>
                 Ok (Some (i + 1 + n), pcluster_span block_len (1 + n) cur next_head))
       else Ok (Some (i + 1), pcluster_span block_len 1 cur nxt)))"

lemma pcluster_len_progress:
  "pcluster_len lcis i block_len file_size = Ok (Some j, n) \<Longrightarrow> i < j"
  by (auto simp: pcluster_len_def result_simps Let_def split: if_splits option.splits)

text \<open>
  The loop from index \<open>i\<close> on; \<open>buf\<close> is the decompression buffer it reuses, \<open>out\<close> what was
  written so far. A buffer of more than \<open>isize::MAX\<close> bytes and a decompressor that reports more
  than the buffer holds make Rust panic.
\<close>

function compressed_loop ::
    "decompressor \<Rightarrow> erofs \<Rightarrow> logical_cluster_index list \<Rightarrow> nat \<Rightarrow> nat \<Rightarrow> nat \<Rightarrow> bytes \<Rightarrow> bytes \<Rightarrow>
       (unit, disk_error) result \<times> bytes" where
  "compressed_loop decompress er lcis block_len file_size i buf out =
     (case lci_get lcis i of
        None \<Rightarrow> (Err Oob, out)
      | Some cur \<Rightarrow>
     (let data_begin = block_offset er (block_addr_of cur)
      in case lci_typ cur of
        Head1 \<Rightarrow>
          (case get_range data_begin (add64 data_begin block_len) (er_data er) of
             None \<Rightarrow> (Err Oob, out)
           | Some data \<Rightarrow>
          (case pcluster_len lcis i block_len file_size of
             Err e \<Rightarrow> (Err e, out)
           | Ok (next_i, decompress_len) \<Rightarrow>
          (if length buf < decompress_len \<and> 2 ^ 63 \<le> decompress_len then (Err DiskPanic, out)
           else
          (case decompress data (buf @ replicate (decompress_len - length buf) 0) decompress_len of
             None \<Rightarrow> (Err Decompress, out)
           | Some (decompressed_len, buf') \<Rightarrow>
               if length buf' < decompressed_len then (Err DiskPanic, out)
               else
                 (let out' = out @ take decompressed_len buf'
                  in case next_i of
                       None \<Rightarrow> (Ok (), out')
                     | Some j \<Rightarrow>
                         compressed_loop decompress er lcis block_len file_size j buf' out')))))
      | Plain \<Rightarrow>
          (if block_addr_of cur = 0
           then (if i + 1 = length lcis then (Ok (), out) else (Err LciMalformed, out))
           else
          (case lci_get lcis (i + 1) of
             None \<Rightarrow> (Err Oob, out)
           | Some nxt \<Rightarrow>
          (let data_len = sub64 (add64 block_len (cluster_offset nxt)) (cluster_offset cur)
           in case get_range data_begin (add64 data_begin data_len) (er_data er) of
                None \<Rightarrow> (Err Oob, out)
              | Some data \<Rightarrow>
                  compressed_loop decompress er lcis block_len file_size (i + 1) buf (out @ data))))
      | Head2 \<Rightarrow> (Err Head2NotSupported, out)
      | NonHead \<Rightarrow> (Err LciMalformed, out)))"
  by pat_completeness auto
termination
  by (relation "measure (\<lambda>(_, _, lcis, _, _, i, _, _). length lcis - i)")
    (auto simp: lci_get_def dest!: pcluster_len_progress split: if_splits)

declare compressed_loop.simps [simp del]

definition compressed_block_len :: "erofs \<Rightarrow> map_header \<Rightarrow> nat" where
  "compressed_block_len er h = shl64 1 (unat (sb_blkszbits (er_sb er) + cluster_size_bits h))"

definition get_compressed_data ::
    "bool \<Rightarrow> decompressor \<Rightarrow> erofs \<Rightarrow> inode \<Rightarrow> bytes \<Rightarrow> (unit, disk_error) result \<times> bytes" where
  "get_compressed_data lz4_feature decompress er i out =
     (case bindr (get_map_header er i) (\<lambda>h.
           bindr (compression_type_1 h) (\<lambda>t.
           bindr (get_decompressor lz4_feature decompress t) (\<lambda>d.
           bindr (get_logical_cluster_indices er i) (\<lambda>lcis. Ok (h, d, lcis))))) of
        Err e \<Rightarrow> (Err e, out)
      | Ok (h, d, lcis) \<Rightarrow>
          (if lcis = [] then (Ok (), out)
           else compressed_loop d er lcis (compressed_block_len er h) (inode_data_size i) 0 [] out))"

definition get_compressed_data_vec ::
    "bool \<Rightarrow> decompressor \<Rightarrow> erofs \<Rightarrow> inode \<Rightarrow> (bytes, disk_error) result" where
  "get_compressed_data_vec lz4_feature decompress er i =
     (case get_compressed_data lz4_feature decompress er i [] of
        (Ok _, out) \<Rightarrow> Ok out
      | (Err e, _) \<Rightarrow> Err e)"

section \<open>How much is written\<close>

text \<open>The logical address at which the cluster of an LCI starts.\<close>

definition logical_addr :: "logical_cluster_index list \<Rightarrow> nat \<Rightarrow> nat \<Rightarrow> nat" where
  "logical_addr lcis block_len i = i * block_len + cluster_offset (lcis ! i)"

text \<open>The decompressor fills exactly the size it is asked for, as the code asserts in debug builds.\<close>

definition exact_decompressor :: "decompressor \<Rightarrow> bool" where
  "exact_decompressor d \<longleftrightarrow> (\<forall>src dst n k dst'. d src dst n = Some (k, dst') \<longrightarrow> k = n)"

lemma cluster_offset_lt: "cluster_offset l < 2 ^ 16"
  using unat_lt[of "lci_cluster_offset l"] by (simp add: cluster_offset_def)

lemma pcluster_span_mod:
  "(pcluster_span block_len n cur next_head + cluster_offset cur) mod 2 ^ 64 =
     (n * block_len + cluster_offset next_head) mod 2 ^ 64"
proof -
  have "cluster_offset cur \<le> 2 ^ 64"
    using cluster_offset_lt[of cur] by simp
  then have "(pcluster_span block_len n cur next_head + cluster_offset cur) mod 2 ^ 64 =
      add64 (mul64 n block_len) (cluster_offset next_head) mod 2 ^ 64"
    unfolding pcluster_span_def by (rule sub64_add_mod)
  then show ?thesis by (simp add: add64_def mul64_def mod_simps)
qed

lemma logical_addr_step:
  assumes "k = pcluster_span block_len n (lcis ! i) (lcis ! (i + n))"
  shows "(k + logical_addr lcis block_len i) mod 2 ^ 64 = logical_addr lcis block_len (i + n) mod 2 ^ 64"
proof -
  have "(k + logical_addr lcis block_len i) mod 2 ^ 64 =
      (i * block_len + (k + cluster_offset (lcis ! i))) mod 2 ^ 64"
    by (simp add: logical_addr_def ac_simps)
  also have "\<dots> = (i * block_len + (n * block_len + cluster_offset (lcis ! (i + n)))) mod 2 ^ 64"
    unfolding assms by (rule mod_add_cong[OF refl pcluster_span_mod])
  finally show ?thesis by (simp add: logical_addr_def algebra_simps)
qed

lemma pcluster_len_addr:
  assumes "pcluster_len lcis i block_len file_size = Ok (next_i, k)"
  shows "case next_i of
      None \<Rightarrow> (k + logical_addr lcis block_len i) mod 2 ^ 64 = file_size mod 2 ^ 64
    | Some j \<Rightarrow> (k + logical_addr lcis block_len i) mod 2 ^ 64 = logical_addr lcis block_len j mod 2 ^ 64"
proof (cases next_i)
  case (Some j)
  with assms obtain n where "j = i + n" "k = pcluster_span block_len n (lcis ! i) (lcis ! (i + n))"
    by (auto simp: pcluster_len_def result_simps Let_def lci_get_def split: if_splits option.splits)
  with Some show ?thesis using logical_addr_step by simp
next
  case None
  with assms have "k + add64 (mul64 i block_len) (cluster_offset (lcis ! i)) = file_size"
    by (auto simp: pcluster_len_def result_simps Let_def lci_get_def split: if_splits option.splits)
  moreover have "add64 (mul64 i block_len) (cluster_offset (lcis ! i)) mod 2 ^ 64 =
      logical_addr lcis block_len i mod 2 ^ 64"
    by (simp add: logical_addr_def add64_def mul64_def mod_simps)
  ultimately have "(k + logical_addr lcis block_len i) mod 2 ^ 64 = file_size mod 2 ^ 64"
    using mod_add_cong[OF refl[of "k mod 2 ^ 64"]] by metis
  with None show ?thesis by simp
qed

lemma compressed_loop_length:
  assumes "exact_decompressor d"
  shows "compressed_loop d er lcis block_len file_size i buf out = (Ok (), out') \<Longrightarrow>
     \<exists>t \<in> {file_size, logical_addr lcis block_len (length lcis - 1)}.
       (length out' + logical_addr lcis block_len i) mod 2 ^ 64 = (length out + t) mod 2 ^ 64"
  using assms
proof (induction d er lcis block_len file_size i buf out rule: compressed_loop.induct)
  case (1 d er lcis block_len file_size i buf out)
  from "1.prems"(1) obtain cur where cur: "lci_get lcis i = Some cur"
    by (auto simp: compressed_loop.simps[of d er lcis block_len file_size i] split: option.splits)
  then have i: "i < length lcis" "cur = lcis ! i" by (auto simp: lci_get_def split: if_splits)
  note step = "1.prems"(1)[unfolded compressed_loop.simps[of d er lcis block_len file_size i] cur
      option.case Let_def]
  show ?case
  proof (cases "lci_typ cur")
    case Head1
    from step obtain data next_i k n buf' where
      data: "get_range (block_offset er (block_addr_of cur))
          (add64 (block_offset er (block_addr_of cur)) block_len) (er_data er) = Some data" and
      pl: "pcluster_len lcis i block_len file_size = Ok (next_i, k)" and
      cap: "\<not> (length buf < k \<and> 2 ^ 63 \<le> k)" and
      dec: "d data (buf @ replicate (k - length buf) 0) k = Some (n, buf')" and
      fits: "\<not> length buf' < n" and
      rest: "(case next_i of None \<Rightarrow> (Ok (), out @ take n buf')
         | Some j \<Rightarrow> compressed_loop d er lcis block_len file_size j buf' (out @ take n buf'))
         = (Ok (), out')"
      by (auto simp: Head1 split: option.splits result.splits if_splits prod.splits)
    have "n = k"
      using dec "1.prems"(2) unfolding exact_decompressor_def by blast
    with fits have len: "length (out @ take n buf') = length out + k" by simp
    show ?thesis
    proof (cases next_i)
      case None
      with rest len pcluster_len_addr[OF pl] show ?thesis
        by (intro bexI[of _ file_size])
          (auto simp: add.assoc intro: mod_add_cong)
    next
      case (Some j)
      with rest have "compressed_loop d er lcis block_len file_size j buf' (out @ take n buf') = (Ok (), out')"
        by simp
      from "1.IH"(2)[OF cur refl Head1 data pl refl cap dec refl fits refl Some this "1.prems"(2)]
      show ?thesis
        using pcluster_len_addr[OF pl] unfolding len Some option.case by (blast intro: addr_trans)
    qed
  next
    case Plain
    show ?thesis
    proof (cases "block_addr_of cur = 0")
      case True
      with step Plain have "out' = out" "i = length lcis - 1" by (auto split: if_splits)
      then show ?thesis by blast
    next
      case False
      with step Plain obtain nxt data where
        nxt: "lci_get lcis (i + 1) = Some nxt" and
        data: "get_range (block_offset er (block_addr_of cur))
          (add64 (block_offset er (block_addr_of cur))
             (sub64 (add64 block_len (cluster_offset nxt)) (cluster_offset cur))) (er_data er) = Some data" and
        rest: "compressed_loop d er lcis block_len file_size (i + 1) buf (out @ data) = (Ok (), out')"
        by (auto split: option.splits)
      from get_range_add64(3)[OF data block_offset_lt sub64_lt]
      have "length data = pcluster_span block_len 1 (lcis ! i) (lcis ! (i + 1))"
        using nxt i by (auto simp: pcluster_span_def lci_get_def mul64_def add64_def mod_simps split: if_splits)
      from logical_addr_step[OF this]
      show ?thesis
        using "1.IH"(1)[OF cur refl Plain False nxt refl data rest "1.prems"(2)]
        unfolding length_append by (blast intro: addr_trans)
    qed
  qed (use step in auto)
qed
end
