(* ===== verification/Btree.thy ===== *)
theory Btree
  imports Prelude
begin

text \<open>
  \<open>std::collections::BTreeMap\<close> as the list of its entries in key order, and the contract its
  clients (the directory tree and the deletion index) rely on: what a lookup returns after an
  insertion, that insertion keeps the order, and what the ordered views show.
\<close>

section \<open>Operations\<close>

type_synonym ('k, 'v) btree = "('k \<times> 'v) list"

definition bt_get :: "('k, 'v) btree \<Rightarrow> 'k \<Rightarrow> 'v option" where
  "bt_get t k = map_of t k"

fun bt_insert :: "'k::linorder \<Rightarrow> 'v \<Rightarrow> ('k, 'v) btree \<Rightarrow> ('k, 'v) btree" where
  "bt_insert k v [] = [(k, v)]"
| "bt_insert k v ((k', v') # t) =
     (if k < k' then (k, v) # (k', v') # t
      else if k = k' then (k, v) # t
      else (k', v') # bt_insert k v t)"

definition bt_inv :: "('k::linorder, 'v) btree \<Rightarrow> bool" where
  "bt_inv t \<longleftrightarrow> sorted_wrt (<) (map fst t)"

text \<open>\<open>range(..=k).next_back()\<close>: the last entry whose key is not above \<open>k\<close>.\<close>

fun bt_last_le :: "'k::linorder \<Rightarrow> ('k, 'v) btree \<Rightarrow> ('k \<times> 'v) option" where
  "bt_last_le k [] = None"
| "bt_last_le k ((k', v') # t) =
     (if k' \<le> k then (case bt_last_le k t of None \<Rightarrow> Some (k', v') | Some e \<Rightarrow> Some e) else None)"

section \<open>The contract of an ordered map\<close>

locale ordered_map =
  fixes lookup :: "'t \<Rightarrow> 'k::linorder \<Rightarrow> 'v option"
    and update :: "'k \<Rightarrow> 'v \<Rightarrow> 't \<Rightarrow> 't"
    and empty :: 't
    and entries :: "'t \<Rightarrow> ('k \<times> 'v) list"
    and inv :: "'t \<Rightarrow> bool"
  assumes inv_empty: "inv empty"
    and inv_update: "inv t \<Longrightarrow> inv (update k v t)"
    and lookup_empty: "lookup empty k = None"
    and lookup_update: "inv t \<Longrightarrow> lookup (update k v t) k' = (if k' = k then Some v else lookup t k')"
    and entries_sorted: "inv t \<Longrightarrow> sorted_wrt (<) (map fst (entries t))"
    and entries_lookup: "inv t \<Longrightarrow> (k, v) \<in> set (entries t) \<longleftrightarrow> lookup t k = Some v"
begin

lemma entries_distinct: "inv t \<Longrightarrow> distinct (map fst (entries t))"
  using entries_sorted strict_sorted_iff by blast

lemma entries_map_of: "inv t \<Longrightarrow> map_of (entries t) = lookup t"
proof
  fix k
  assume "inv t"
  then show "map_of (entries t) k = lookup t k"
    by (cases "lookup t k"; cases "map_of (entries t) k")
      (auto simp: entries_distinct entries_lookup dest: map_of_SomeD)
qed

lemma lookup_ext:
  assumes "inv t" "inv u" "lookup t = lookup u"
  shows "entries t = entries u"
proof -
  have "set (entries t) = set (entries u)"
    using assms by (auto simp: entries_lookup)
  moreover have "sorted (map fst (entries t))" "sorted (map fst (entries u))"
    using assms entries_sorted strict_sorted_iff by blast+
  moreover have "distinct (map fst (entries t))" "distinct (map fst (entries u))"
    using assms entries_distinct by blast+
  ultimately show ?thesis
    using map_sorted_distinct_set_unique[of fst "entries t" "entries u"]
    by (metis (mono_tags, lifting) entries_map_of assms(1) distinct_map inj_on_Un sup.idem)
qed

lemma update_same: "inv t \<Longrightarrow> entries (update k v (update k w t)) = entries (update k v t)"
  by (rule lookup_ext) (auto simp: inv_update lookup_update)

lemma update_swap:
  "inv t \<Longrightarrow> k \<noteq> k' \<Longrightarrow> entries (update k v (update k' w t)) = entries (update k' w (update k v t))"
  by (rule lookup_ext) (auto simp: inv_update lookup_update)

lemma keys_update: "inv t \<Longrightarrow> fst ` set (entries (update k v t)) = insert k (fst ` set (entries t))"
proof -
  assume t: "inv t"
  have "fst ` set (entries u) = {j. lookup u j \<noteq> None}" if "inv u" for u
    using that entries_lookup[OF that] by (force simp: image_iff)
  then show ?thesis
    using t by (auto simp: inv_update lookup_update)
qed

end

section \<open>Sorted association lists keep it\<close>

lemma bt_insert_keys: "set (map fst (bt_insert k v t)) = insert k (set (map fst t))"
  by (induction k v t rule: bt_insert.induct) auto

lemma bt_insert_inv: "bt_inv t \<Longrightarrow> bt_inv (bt_insert k v t)"
proof (induction k v t rule: bt_insert.induct)
  case (2 k v k' v' t)
  have "set (map fst (bt_insert k v t)) = insert k (set (map fst t))"
    by (rule bt_insert_keys)
  with 2 show ?case by (auto simp: bt_inv_def)
qed (simp add: bt_inv_def)

lemma bt_get_insert: "bt_inv t \<Longrightarrow> bt_get (bt_insert k v t) k' = (if k' = k then Some v else bt_get t k')"
  by (induction k v t rule: bt_insert.induct) (auto simp: bt_inv_def bt_get_def)

lemma bt_inv_distinct: "bt_inv t \<Longrightarrow> distinct (map fst t)"
  by (simp add: bt_inv_def strict_sorted_iff)

interpretation bt: ordered_map bt_get bt_insert "[]" "\<lambda>t. t" bt_inv
proof unfold_locales
  fix t :: "('a, 'b) btree" and k v
  assume "bt_inv t"
  then show "(k, v) \<in> set t \<longleftrightarrow> bt_get t k = Some v"
    using bt_inv_distinct[of t] by (simp add: bt_get_def)
next
  show "bt_inv []" by (simp add: bt_inv_def)
next
  show "bt_get [] k = None" for k :: 'a by (simp add: bt_get_def)
next
  show "bt_inv t \<Longrightarrow> sorted_wrt (<) (map fst t)" for t :: "('a, 'b) btree" by (simp add: bt_inv_def)
qed (rule bt_insert_inv bt_get_insert, assumption)+

lemma bt_last_le_None: "bt_last_le k t = None \<Longrightarrow> bt_inv t \<Longrightarrow> \<forall>j \<in> fst ` set t. k < j"
  by (induction k t rule: bt_last_le.induct)
    (auto simp: bt_inv_def split: if_splits option.splits)

lemma bt_last_le_Some:
  assumes "bt_inv t" and "bt_last_le k t = Some (k', v')"
  shows "(k', v') \<in> set t \<and> k' \<le> k \<and> (\<forall>j \<in> fst ` set t. j \<le> k \<longrightarrow> j \<le> k')"
  using assms
proof (induction k t arbitrary: k' v' rule: bt_last_le.induct)
  case (2 k a b t)
  then have t: "bt_inv t" "\<forall>j \<in> fst ` set t. a < j" and a: "a \<le> k"
    by (auto simp: bt_inv_def split: if_splits)
  show ?case
  proof (cases "bt_last_le k t")
    case None
    with 2(3) a have "k' = a" "v' = b" by auto
    then show ?thesis
      using a bt_last_le_None[OF None t(1)] by auto
  next
    case (Some e)
    then have "bt_last_le k t = Some (k', v')"
      using 2 a by (cases e) auto
    from "2.IH"[OF a t(1) this] t(2) a show ?thesis
      by (auto intro: less_imp_le)
  qed
qed simp

end
