(* ===== verification/Path_Ops.thy ===== *)
theory Path_Ops
  imports Paths Btree
begin

text \<open>
  The operations of \<open>std::path::Path\<close> that look at the end of a path: \<open>file_name\<close>, \<open>parent\<close>,
  \<open>push\<close> and \<open>with_file_name\<close>, and the order of components by which paths compare.
\<close>

section \<open>Operations\<close>

text \<open>The pieces between slashes behind a leading root or \<open>.\<close>, which are not part of the body.\<close>

definition has_root :: "bytes \<Rightarrow> bool" where
  "has_root p \<longleftrightarrow> p \<noteq> [] \<and> hd p = slash"

definition has_cur_dir :: "bytes \<Rightarrow> bool" where
  "has_cur_dir p \<longleftrightarrow> \<not> has_root p \<and> hd (split_slash p) = dot_name"

definition path_body :: "bytes \<Rightarrow> bytes list" where
  "path_body p = (if has_root p \<or> has_cur_dir p then tl (split_slash p) else split_slash p)"

text \<open>Empty pieces and \<open>.\<close> at the end are not components; \<open>as_path\<close> cuts them off.\<close>

definition trim_pieces :: "bytes list \<Rightarrow> bytes list" where
  "trim_pieces ws = rev (dropWhile (\<lambda>w. w = [] \<or> w = dot_name) (rev ws))"

definition path_rebuild :: "bytes \<Rightarrow> bytes list \<Rightarrow> bytes" where
  "path_rebuild p ws =
     (if has_root p then slash # join_names ws
      else if has_cur_dir p then (if ws = [] then dot_name else dot_name @ slash # join_names ws)
      else join_names ws)"

definition path_file_name :: "bytes \<Rightarrow> bytes option" where
  "path_file_name p = (case rev (path_components p) of Normal n # _ \<Rightarrow> Some n | _ \<Rightarrow> None)"

definition path_parent :: "bytes \<Rightarrow> bytes option" where
  "path_parent p =
     (let ws = trim_pieces (path_body p)
      in if ws \<noteq> [] then Some (path_rebuild p (trim_pieces (butlast ws)))
         else if has_cur_dir p then Some [] else None)"

definition path_push :: "bytes \<Rightarrow> bytes \<Rightarrow> bytes" where
  "path_push p q =
     (if has_root q then q
      else p @ (if p \<noteq> [] \<and> last p \<noteq> slash then [slash] else []) @ q)"

definition path_with_file_name :: "bytes \<Rightarrow> bytes \<Rightarrow> bytes" where
  "path_with_file_name p name =
     path_push
       (case path_file_name p of
          None \<Rightarrow> p
        | Some _ \<Rightarrow> (case path_parent p of None \<Rightarrow> p | Some parent \<Rightarrow> parent)) name"

section \<open>Proper relative paths\<close>

lemma trim_pieces_normal: "\<forall>n \<in> set ns. normal_name n \<Longrightarrow> trim_pieces ns = ns"
proof -
  assume "\<forall>n \<in> set ns. normal_name n"
  then have "dropWhile (\<lambda>w. w = [] \<or> w = dot_name) (rev ns) = rev ns"
    by (cases "rev ns") (auto simp: normal_name_def dest: arg_cong[where f = set])
  then show ?thesis by (simp add: trim_pieces_def)
qed

lemma join_names_relative:
  assumes "ns \<noteq> []" and "\<forall>n \<in> set ns. normal_name n"
  shows "\<not> has_root (join_names ns)" and "\<not> has_cur_dir (join_names ns)" and "path_body (join_names ns) = ns"
proof -
  have hd: "normal_name (hd ns)" using assms by (cases ns) auto
  then show root: "\<not> has_root (join_names ns)"
    using join_names_hd[OF assms(1)] by (metis normal_name_def hd_in_set has_root_def)
  have split: "split_slash (join_names ns) = ns"
    using assms by (intro split_slash_join) (auto simp: normal_name_def)
  then show cur: "\<not> has_cur_dir (join_names ns)" using hd by (simp add: has_cur_dir_def normal_name_def)
  show "path_body (join_names ns) = ns" using root cur split by (simp add: path_body_def)
qed

lemma join_names_snoc: "ns \<noteq> [] \<Longrightarrow> join_names (ns @ [n]) = join_names ns @ slash # n"
  by (induction ns rule: join_names.induct) auto

lemma path_parent_join:
  assumes "\<forall>n \<in> set (ns @ [n]). normal_name n"
  shows "path_parent (join_names (ns @ [n])) = Some (join_names ns)"
proof -
  have ne: "ns @ [n] \<noteq> []" by simp
  have "trim_pieces (path_body (join_names (ns @ [n]))) = ns @ [n]"
    unfolding join_names_relative(3)[OF ne assms] by (rule trim_pieces_normal[OF assms])
  moreover have "trim_pieces ns = ns" using assms by (intro trim_pieces_normal) simp
  ultimately show ?thesis
    using join_names_relative[OF ne assms] by (simp add: path_parent_def path_rebuild_def)
qed

lemma path_file_name_join:
  assumes "\<forall>n \<in> set (ns @ [n]). normal_name n"
  shows "path_file_name (join_names (ns @ [n])) = Some n"
  using path_components_join[of "ns @ [n]"] assms by (simp add: path_file_name_def)

lemma path_with_file_name_join:
  assumes "\<forall>n \<in> set (ns @ [n]). normal_name n" and "\<not> has_root m"
  shows "path_with_file_name (join_names (ns @ [n])) m = join_names (ns @ [m])"
proof (cases "ns = []")
  case True
  with assms(2) show ?thesis
    unfolding path_with_file_name_def path_file_name_join[OF assms(1)] path_parent_join[OF assms(1)]
    by (simp add: path_push_def)
next
  case False
  then have "join_names ns \<noteq> []" "last (join_names ns) \<noteq> slash"
    using join_names_no_trailing_slash[of ns] join_names_hd[of ns] assms(1)
    by (auto simp: ends_with_slash_def normal_name_def)
  with False assms(2) show ?thesis
    unfolding path_with_file_name_def path_file_name_join[OF assms(1)] path_parent_join[OF assms(1)]
    by (simp add: path_push_def join_names_snoc)
qed

section \<open>The order of components\<close>

text \<open>\<open>RootDir\<close> comes first, then \<open>.\<close>, \<open>..\<close> and the names in byte order, as the derived order has it.\<close>

fun component_rank :: "path_component \<Rightarrow> nat \<times> bytes" where
  "component_rank RootDir = (0, [])"
| "component_rank CurDir = (1, [])"
| "component_rank ParentDir = (2, [])"
| "component_rank (Normal n) = (3, n)"

instantiation path_component :: linorder
begin

definition less_path_component :: "path_component \<Rightarrow> path_component \<Rightarrow> bool" where
  "a < b \<longleftrightarrow> fst (component_rank a) < fst (component_rank b) \<or>
     fst (component_rank a) = fst (component_rank b) \<and> snd (component_rank a) < snd (component_rank b)"

definition less_eq_path_component :: "path_component \<Rightarrow> path_component \<Rightarrow> bool" where
  "(a :: path_component) \<le> b \<longleftrightarrow> a < b \<or> a = b"

instance
proof
  fix a b c :: path_component
  have inj: "component_rank a = component_rank b \<Longrightarrow> a = b" for a b
    by (cases a; cases b) simp_all
  show "a < b \<longleftrightarrow> a \<le> b \<and> \<not> b \<le> a" by (auto simp: less_path_component_def less_eq_path_component_def)
  show "a \<le> a" by (simp add: less_eq_path_component_def)
  show "a \<le> b \<Longrightarrow> b \<le> c \<Longrightarrow> a \<le> c"
    by (auto simp: less_path_component_def less_eq_path_component_def)
  show "a \<le> b \<Longrightarrow> b \<le> a \<Longrightarrow> a = b"
    by (auto simp: less_path_component_def less_eq_path_component_def)
  show "a \<le> b \<or> b \<le> a"
    using inj[of a b] linorder_less_linear[of "fst (component_rank a)" "fst (component_rank b)"]
      linorder_less_linear[of "snd (component_rank a)" "snd (component_rank b)"]
    by (auto simp: less_path_component_def less_eq_path_component_def prod_eq_iff)
qed

end

end
