(* ===== verification/Deletions.thy ===== *)
theory Deletions
  imports Path_Ops
begin

text \<open>
  The deletion index of \<open>peimage/src/squash.rs\<close>: the trait \<open>Deletions\<close> as a record of operations,
  its two implementations (\<open>DeletionsOsString\<close> over byte strings and \<open>DeletionsPathBuf\<close> over the
  components of a path) and the contract both keep. A stored state is two facts about a path:
  whether the path itself is deleted and whether what lies below it is.
\<close>

section \<open>States\<close>

datatype deletion_state = StWhiteout | StOpaque | StShadowed

datatype deletion_reason = ReWhiteout | ReWhiteoutDir | ReOpaque | ReShadowed

record 'd deletions_ops =
  push_whiteout :: "bytes \<Rightarrow> 'd \<Rightarrow> 'd"
  push_opaque :: "bytes \<Rightarrow> 'd \<Rightarrow> 'd"
  is_deleted :: "bytes \<Rightarrow> 'd \<Rightarrow> deletion_reason option"
  insert_seen :: "bytes \<Rightarrow> 'd \<Rightarrow> 'd"
  end_of_layer :: "'d \<Rightarrow> 'd"

record 'k deletions =
  del_map :: "('k, deletion_state) btree"
  whiteout_q :: "'k list"
  opaque_q :: "'k list"

type_synonym deletions_os_string = "bytes deletions"
type_synonym deletions_path_buf = "path_component list deletions"

definition deletions_default :: "'k deletions" where
  "deletions_default = \<lparr>del_map = [], whiteout_q = [], opaque_q = []\<rparr>"

fun merge_state :: "deletion_state \<Rightarrow> deletion_state \<Rightarrow> deletion_state" where
  "merge_state StWhiteout StWhiteout = StWhiteout"
| "merge_state StOpaque StOpaque = StOpaque"
| "merge_state StShadowed StShadowed = StShadowed"
| "merge_state StWhiteout StOpaque = StWhiteout"
| "merge_state StWhiteout StShadowed = StWhiteout"
| "merge_state StOpaque StWhiteout = StWhiteout"
| "merge_state StShadowed StWhiteout = StWhiteout"
| "merge_state StShadowed StOpaque = StWhiteout"
| "merge_state StOpaque StShadowed = StWhiteout"

section \<open>Byte strings\<close>

definition without_trailing_slash :: "bytes \<Rightarrow> bytes" where
  "without_trailing_slash x = (if ends_with_slash x then butlast x else x)"

definition os_str_starts_with :: "bytes \<Rightarrow> bytes \<Rightarrow> bool" where
  "os_str_starts_with x prefix \<longleftrightarrow>
     take (length prefix) x = prefix \<and> take 1 (drop (length prefix) x) = [slash]"

definition os_insert :: "bytes \<Rightarrow> deletion_state \<Rightarrow> deletions_os_string \<Rightarrow> deletions_os_string" where
  "os_insert path reason d =
     d\<lparr>del_map := bt_insert path
        (case bt_get (del_map d) path of Some old \<Rightarrow> merge_state old reason | None \<Rightarrow> reason) (del_map d)\<rparr>"

definition os_push_whiteout :: "bytes \<Rightarrow> deletions_os_string \<Rightarrow> deletions_os_string" where
  "os_push_whiteout p d = d\<lparr>whiteout_q := whiteout_q d @ [without_trailing_slash p]\<rparr>"

definition os_push_opaque :: "bytes \<Rightarrow> deletions_os_string \<Rightarrow> deletions_os_string" where
  "os_push_opaque p d = d\<lparr>opaque_q := opaque_q d @ [without_trailing_slash p]\<rparr>"

definition os_insert_seen :: "bytes \<Rightarrow> deletions_os_string \<Rightarrow> deletions_os_string" where
  "os_insert_seen p d = os_insert p StShadowed d"

definition os_is_deleted :: "bytes \<Rightarrow> deletions_os_string \<Rightarrow> deletion_reason option" where
  "os_is_deleted x d =
     (let p = without_trailing_slash x
      in case bt_last_le p (del_map d) of
           None \<Rightarrow> None
         | Some (key, state) \<Rightarrow>
             (case state of
                StShadowed \<Rightarrow> (if key = p then Some ReShadowed else None)
              | StWhiteout \<Rightarrow>
                  (if key = p then Some ReWhiteout
                   else if os_str_starts_with p key then Some ReWhiteoutDir else None)
              | StOpaque \<Rightarrow>
                  (if key \<noteq> p \<and> os_str_starts_with p key then Some ReOpaque else None)))"

definition os_end_of_layer :: "deletions_os_string \<Rightarrow> deletions_os_string" where
  "os_end_of_layer d =
     (let d1 = fold (\<lambda>x. os_insert x StWhiteout) (whiteout_q d) (d\<lparr>whiteout_q := []\<rparr>)
      in fold (\<lambda>x. os_insert x StOpaque) (opaque_q d1) (d1\<lparr>opaque_q := []\<rparr>))"

definition os_string_ops :: "deletions_os_string deletions_ops" where
  "os_string_ops =
     \<lparr>push_whiteout = os_push_whiteout, push_opaque = os_push_opaque, is_deleted = os_is_deleted,
      insert_seen = os_insert_seen, end_of_layer = os_end_of_layer\<rparr>"

section \<open>Path components\<close>

text \<open>
  The map over \<open>PathBuf\<close> keys compares, orders and prefixes paths by their components; the key is
  the list of components.
\<close>

definition path_starts_with :: "path_component list \<Rightarrow> path_component list \<Rightarrow> bool" where
  "path_starts_with p base \<longleftrightarrow> take (length base) p = base"

definition pb_insert ::
    "path_component list \<Rightarrow> deletion_state \<Rightarrow> deletions_path_buf \<Rightarrow> deletions_path_buf" where
  "pb_insert path reason d =
     (case bt_get (del_map d) path of
        Some state \<Rightarrow> d\<lparr>del_map := bt_insert path (merge_state state reason) (del_map d)\<rparr>
      | None \<Rightarrow> d\<lparr>del_map := bt_insert path reason (del_map d)\<rparr>)"

definition pb_push_whiteout :: "bytes \<Rightarrow> deletions_path_buf \<Rightarrow> deletions_path_buf" where
  "pb_push_whiteout p d = d\<lparr>whiteout_q := whiteout_q d @ [path_components p]\<rparr>"

definition pb_push_opaque :: "bytes \<Rightarrow> deletions_path_buf \<Rightarrow> deletions_path_buf" where
  "pb_push_opaque p d = d\<lparr>opaque_q := opaque_q d @ [path_components p]\<rparr>"

definition pb_insert_seen :: "bytes \<Rightarrow> deletions_path_buf \<Rightarrow> deletions_path_buf" where
  "pb_insert_seen p d = pb_insert (path_components p) StShadowed d"

definition pb_is_deleted :: "bytes \<Rightarrow> deletions_path_buf \<Rightarrow> deletion_reason option" where
  "pb_is_deleted x d =
     (let p = path_components x
      in case bt_last_le p (del_map d) of
           None \<Rightarrow> None
         | Some (key, state) \<Rightarrow>
             (case state of
                StShadowed \<Rightarrow> (if key = p then Some ReShadowed else None)
              | StWhiteout \<Rightarrow>
                  (if key = p then Some ReWhiteout
                   else if path_starts_with p key then Some ReWhiteoutDir else None)
              | StOpaque \<Rightarrow> (if key \<noteq> p \<and> path_starts_with p key then Some ReOpaque else None)))"

definition pb_end_of_layer :: "deletions_path_buf \<Rightarrow> deletions_path_buf" where
  "pb_end_of_layer d =
     (let d1 = fold (\<lambda>x. pb_insert x StWhiteout) (whiteout_q d) (d\<lparr>whiteout_q := []\<rparr>)
      in fold (\<lambda>x. pb_insert x StOpaque) (opaque_q d1) (d1\<lparr>opaque_q := []\<rparr>))"

definition path_buf_ops :: "deletions_path_buf deletions_ops" where
  "path_buf_ops =
     \<lparr>push_whiteout = pb_push_whiteout, push_opaque = pb_push_opaque, is_deleted = pb_is_deleted,
      insert_seen = pb_insert_seen, end_of_layer = pb_end_of_layer\<rparr>"

section \<open>The contract\<close>

text \<open>
  What a deletion index promises its client. \<open>exact\<close> holds the keys whose own path is deleted,
  \<open>below\<close> the keys below which everything is; \<open>under k q\<close> says that \<open>q\<close> lies below \<open>k\<close>. Whiteouts
  and opaque markers take effect at the end of their layer. A path is reported as deleted only for
  one of these reasons, and always when it is in \<open>exact\<close>.
\<close>

locale deletion_index =
  fixes ops :: "'d deletions_ops"
    and inv :: "'d \<Rightarrow> bool"
    and exact below pending_w pending_o :: "'d \<Rightarrow> 'k set"
    and key_w key_seen key_of :: "bytes \<Rightarrow> 'k"
    and under :: "'k \<Rightarrow> 'k \<Rightarrow> bool"
  assumes inv_ops:
      "inv d \<Longrightarrow> inv (push_whiteout ops p d)" "inv d \<Longrightarrow> inv (push_opaque ops p d)"
      "inv d \<Longrightarrow> inv (insert_seen ops p d)" "inv d \<Longrightarrow> inv (end_of_layer ops d)"
    and whiteout_view:
      "exact (push_whiteout ops p d) = exact d" "below (push_whiteout ops p d) = below d"
      "pending_w (push_whiteout ops p d) = insert (key_w p) (pending_w d)"
      "pending_o (push_whiteout ops p d) = pending_o d"
    and opaque_view:
      "exact (push_opaque ops p d) = exact d" "below (push_opaque ops p d) = below d"
      "pending_w (push_opaque ops p d) = pending_w d"
      "pending_o (push_opaque ops p d) = insert (key_w p) (pending_o d)"
    and seen_view: "inv d \<Longrightarrow> exact (insert_seen ops p d) = insert (key_seen p) (exact d)"
      "inv d \<Longrightarrow> below (insert_seen ops p d) = below d"
      "inv d \<Longrightarrow> pending_w (insert_seen ops p d) = pending_w d"
      "inv d \<Longrightarrow> pending_o (insert_seen ops p d) = pending_o d"
    and layer_view: "inv d \<Longrightarrow> exact (end_of_layer ops d) = exact d \<union> pending_w d"
      "inv d \<Longrightarrow> below (end_of_layer ops d) = below d \<union> pending_w d \<union> pending_o d"
      "inv d \<Longrightarrow> pending_w (end_of_layer ops d) = {}" "inv d \<Longrightarrow> pending_o (end_of_layer ops d) = {}"
    and deleted_sound: "inv d \<Longrightarrow> is_deleted ops p d \<noteq> None \<Longrightarrow>
      key_of p \<in> exact d \<or> (\<exists>k \<in> below d. under k (key_of p))"
    and deleted_exact: "inv d \<Longrightarrow> key_of p \<in> exact d \<Longrightarrow> is_deleted ops p d \<noteq> None"

section \<open>Both implementations keep it\<close>

definition exact_keys :: "('k, deletion_state) btree \<Rightarrow> 'k set" where
  "exact_keys m = {k. bt_get m k \<in> {Some StWhiteout, Some StShadowed}}"

definition below_keys :: "('k, deletion_state) btree \<Rightarrow> 'k set" where
  "below_keys m = {k. bt_get m k \<in> {Some StWhiteout, Some StOpaque}}"

lemma merge_insert_keys:
  fixes m :: "('k::linorder, deletion_state) btree" and k s
  assumes "bt_inv m"
  defines "m' \<equiv> bt_insert k (case bt_get m k of Some old \<Rightarrow> merge_state old s | None \<Rightarrow> s) m"
  shows "bt_inv m'"
    and "exact_keys m' = (if s = StOpaque then exact_keys m else insert k (exact_keys m))"
    and "below_keys m' = (if s = StShadowed then below_keys m else insert k (below_keys m))"
proof -
  show "bt_inv m'" unfolding m'_def using assms(1) by (rule bt_insert_inv)
  have get: "bt_get m' j = (if j = k then Some (case bt_get m k of Some old \<Rightarrow> merge_state old s | None \<Rightarrow> s)
      else bt_get m j)" for j
    unfolding m'_def by (rule bt_get_insert[OF assms(1)])
  have "exact_keys m' = (if s = StOpaque then exact_keys m else insert k (exact_keys m)) \<and>
      below_keys m' = (if s = StShadowed then below_keys m else insert k (below_keys m))"
  proof (cases "bt_get m k")
    case (Some a)
    show ?thesis unfolding exact_keys_def below_keys_def get Some
      by (cases s; cases a) (auto simp: Some)
  next
    case None
    show ?thesis unfolding exact_keys_def below_keys_def get None by (cases s) (auto simp: None)
  qed
  then show "exact_keys m' = (if s = StOpaque then exact_keys m else insert k (exact_keys m))"
    "below_keys m' = (if s = StShadowed then below_keys m else insert k (below_keys m))"
    by auto
qed

lemma last_le_get: "bt_inv m \<Longrightarrow> bt_last_le p m = Some (k, v) \<Longrightarrow> bt_get m k = Some v"
  using bt_last_le_Some[of m p k v] bt.entries_lookup[of m k v] by simp

lemma last_le_exact:
  assumes "bt_inv m" and "bt_get m p = Some s"
  shows "bt_last_le p m = Some (p, s)"
proof -
  have mem: "p \<in> fst ` set m" using assms bt.entries_lookup by (metis fst_conv image_eqI)
  have "bt_last_le p m \<noteq> None" using bt_last_le_None[OF _ assms(1), of p] mem by blast
  then obtain k v where kv: "bt_last_le p m = Some (k, v)" by auto
  have "k = p" using bt_last_le_Some[OF assms(1) kv] mem by (intro antisym) blast+
  with last_le_get[OF assms(1) kv] assms(2) kv show ?thesis by simp
qed

text \<open>The inserts of \<open>end_of_layer\<close>, for either kind of key.\<close>

definition del_insert :: "'k::linorder \<Rightarrow> deletion_state \<Rightarrow> 'k deletions \<Rightarrow> 'k deletions" where
  "del_insert path reason d =
     d\<lparr>del_map := bt_insert path
        (case bt_get (del_map d) path of Some old \<Rightarrow> merge_state old reason | None \<Rightarrow> reason) (del_map d)\<rparr>"

lemma insert_same: "os_insert = del_insert" "pb_insert = del_insert"
  by (auto simp: fun_eq_iff os_insert_def pb_insert_def del_insert_def split: option.splits)

lemma fold_insert_keys:
  assumes "bt_inv (del_map d)"
  shows "bt_inv (del_map (fold (\<lambda>x. del_insert x s) xs d)) \<and>
    exact_keys (del_map (fold (\<lambda>x. del_insert x s) xs d)) =
      exact_keys (del_map d) \<union> (if s = StOpaque then {} else set xs) \<and>
    below_keys (del_map (fold (\<lambda>x. del_insert x s) xs d)) =
      below_keys (del_map d) \<union> (if s = StShadowed then {} else set xs) \<and>
    whiteout_q (fold (\<lambda>x. del_insert x s) xs d) = whiteout_q d \<and>
    opaque_q (fold (\<lambda>x. del_insert x s) xs d) = opaque_q d"
  using assms
proof (induction xs arbitrary: d)
  case (Cons x xs)
  note keys = merge_insert_keys[OF Cons.prems, of x s]
  have "bt_inv (del_map (del_insert x s d))" using keys(1) by (simp add: del_insert_def)
  from Cons.IH[OF this] show ?case by (simp add: del_insert_def keys(2,3))
qed simp

definition del_end_of_layer :: "'k::linorder deletions \<Rightarrow> 'k deletions" where
  "del_end_of_layer d =
     (let d1 = fold (\<lambda>x. del_insert x StWhiteout) (whiteout_q d) (d\<lparr>whiteout_q := []\<rparr>)
      in fold (\<lambda>x. del_insert x StOpaque) (opaque_q d1) (d1\<lparr>opaque_q := []\<rparr>))"

lemma end_of_layer_same: "os_end_of_layer = del_end_of_layer" "pb_end_of_layer = del_end_of_layer"
  by (simp_all add: fun_eq_iff os_end_of_layer_def pb_end_of_layer_def del_end_of_layer_def insert_same)

lemma end_of_layer_keys:
  assumes "bt_inv (del_map d)"
  shows "bt_inv (del_map (del_end_of_layer d))"
    and "exact_keys (del_map (del_end_of_layer d)) = exact_keys (del_map d) \<union> set (whiteout_q d)"
    and "below_keys (del_map (del_end_of_layer d)) = below_keys (del_map d) \<union> set (whiteout_q d) \<union> set (opaque_q d)"
    and "whiteout_q (del_end_of_layer d) = []" and "opaque_q (del_end_of_layer d) = []"
proof -
  let ?d1 = "fold (\<lambda>x. del_insert x StWhiteout) (whiteout_q d) (d\<lparr>whiteout_q := []\<rparr>)"
  have "bt_inv (del_map (d\<lparr>whiteout_q := []\<rparr>))" using assms(1) by simp
  note w = fold_insert_keys[OF this, of StWhiteout "whiteout_q d", simplified]
  then have "bt_inv (del_map (?d1\<lparr>opaque_q := []\<rparr>))" by simp
  note o = fold_insert_keys[OF this, of StOpaque "opaque_q ?d1", simplified]
  show "bt_inv (del_map (del_end_of_layer d))"
    "exact_keys (del_map (del_end_of_layer d)) = exact_keys (del_map d) \<union> set (whiteout_q d)"
    "below_keys (del_map (del_end_of_layer d)) = below_keys (del_map d) \<union> set (whiteout_q d) \<union> set (opaque_q d)"
    "whiteout_q (del_end_of_layer d) = []" "opaque_q (del_end_of_layer d) = []"
    using w o by (simp_all add: del_end_of_layer_def Let_def)
qed

lemma del_insert_keys:
  assumes "bt_inv (del_map d)"
  shows "bt_inv (del_map (del_insert k s d))"
    and "exact_keys (del_map (del_insert k StShadowed d)) = insert k (exact_keys (del_map d))"
    and "below_keys (del_map (del_insert k StShadowed d)) = below_keys (del_map d)"
    and "whiteout_q (del_insert k s d) = whiteout_q d" and "opaque_q (del_insert k s d) = opaque_q d"
  using merge_insert_keys[OF assms, of k s] merge_insert_keys[OF assms, of k StShadowed]
  by (simp_all add: del_insert_def)

interpretation os: deletion_index os_string_ops "\<lambda>d. bt_inv (del_map d)" "\<lambda>d. exact_keys (del_map d)"
  "\<lambda>d. below_keys (del_map d)" "\<lambda>d. set (whiteout_q d)" "\<lambda>d. set (opaque_q d)" without_trailing_slash
  "\<lambda>p. p" without_trailing_slash "\<lambda>k q. os_str_starts_with q k"
proof unfold_locales
  fix d :: deletions_os_string and p
  assume inv: "bt_inv (del_map d)"
  show "is_deleted os_string_ops p d \<noteq> None \<Longrightarrow> without_trailing_slash p \<in> exact_keys (del_map d) \<or>
      (\<exists>k \<in> below_keys (del_map d). os_str_starts_with (without_trailing_slash p) k)"
    by (auto simp: os_string_ops_def os_is_deleted_def Let_def exact_keys_def below_keys_def dest!: last_le_get[OF inv]
        split: option.splits deletion_state.splits if_splits)
  show "without_trailing_slash p \<in> exact_keys (del_map d) \<Longrightarrow> is_deleted os_string_ops p d \<noteq> None"
    by (auto simp: os_string_ops_def os_is_deleted_def Let_def exact_keys_def dest!: last_le_exact[OF inv])
qed (simp_all add: os_string_ops_def os_push_whiteout_def os_push_opaque_def os_insert_seen_def
    insert_same(1) end_of_layer_same(1) end_of_layer_keys del_insert_keys)

interpretation pb: deletion_index path_buf_ops "\<lambda>d. bt_inv (del_map d)" "\<lambda>d. exact_keys (del_map d)"
  "\<lambda>d. below_keys (del_map d)" "\<lambda>d. set (whiteout_q d)" "\<lambda>d. set (opaque_q d)" path_components
  path_components path_components "\<lambda>k q. path_starts_with q k"
proof unfold_locales
  fix d :: deletions_path_buf and p
  assume inv: "bt_inv (del_map d)"
  show "is_deleted path_buf_ops p d \<noteq> None \<Longrightarrow> path_components p \<in> exact_keys (del_map d) \<or>
      (\<exists>k \<in> below_keys (del_map d). path_starts_with (path_components p) k)"
    by (auto simp: path_buf_ops_def pb_is_deleted_def Let_def exact_keys_def below_keys_def dest!: last_le_get[OF inv]
        split: option.splits deletion_state.splits if_splits)
  show "path_components p \<in> exact_keys (del_map d) \<Longrightarrow> is_deleted path_buf_ops p d \<noteq> None"
    by (auto simp: path_buf_ops_def pb_is_deleted_def Let_def exact_keys_def dest!: last_le_exact[OF inv])
qed (simp_all add: path_buf_ops_def pb_push_whiteout_def pb_push_opaque_def pb_insert_seen_def
    insert_same(2) end_of_layer_same(2) end_of_layer_keys del_insert_keys)

end
