(* ===== verification/Erofs_Tree.thy ===== *)
theory Erofs_Tree
  imports Erofs_Disk Btree Paths "HOL-Library.Sublist"
begin

text \<open>
  The in-memory directory tree of \<open>peerofs/src/build.rs\<close>: metadata, files, symbolic links and
  directories, and the operations of \<open>Root\<close> and \<open>Dir\<close>. A \<open>&mut Dir\<close> that an operation hands out
  is a continuation here: the operation walks to the directory, applies the continuation to it and
  rebuilds the tree around the result, so that what an operation changed before an error stays.
\<close>

section \<open>Errors and data\<close>

text \<open>
  \<open>BuildInodeTooBig\<close> and \<open>BuildOob\<close> are \<open>InodeTooBig\<close> and \<open>Oob\<close> of the builder's error type;
  \<open>BuildPanic\<close> is a panic.
\<close>

datatype build_error =
    FileExists | BadFilename | EmptyPath | EmptyFilename | NotADir | BlockNoTooBig
  | MetaBlockTooBig | FileBlockTooBig | BuildInodeTooBig | NoMetaBlock | AddrLessThanMetaBlock
  | AddrNotAligned | DiskIdTooBig | NoDiskId | NoRootDiskId | RootDiskIdTooBig | NoStartBlock
  | IterFail | NameOffsetTooBig | UidGidTooBig | HardlinkToDir | HardlinkNotResolved
  | HardlinkMultiNotHandled | UnhandledPrefixComponent | PathWithDotDot | WeirdPath
  | PathTrailingSlash | InsertFailed | UpsertFailed | MaxDepthExceeded | XattrKeyTooLong
  | XattrValueTooLong | TooManyXattrs | ModeShouldFitInU16 | DirDiskIdMismatch "u32 option" u32
  | MaxSizeExceeded | BuildOob | Other string | BuildIo | BuildPanic

type_synonym xattr_map = "(bytes, bytes) btree"

record meta =
  m_uid :: u32
  m_gid :: u32
  m_mtime :: u64
  m_mode :: u32
  m_xattrs :: xattr_map

definition default_meta :: meta where
  "default_meta = \<lparr>m_uid = 0, m_gid = 0, m_mtime = 0, m_mode = 0x1ed, m_xattrs = []\<rparr>"

text \<open>\<open>File\<close> and \<open>Symlink\<close> have the same fields.\<close>

record file_entry =
  f_meta :: meta
  f_start_block :: u32
  f_n_links :: u32
  f_len :: nat
  f_tail :: "bytes option"
  f_disk_id :: "u32 option"

type_synonym symlink_entry = file_entry

datatype dir = Dir
    (d_children: "(bytes \<times> dirent) list")
    (d_meta: meta)
    (d_disk_id: "u32 option")
    (d_start_block: u32)
    (d_n_dirents_per_block: "nat list")
    (d_total_size: nat)
  and dirent = File file_entry | SubDir dir | Symlink symlink_entry | Dot | DotDot

definition default_dir :: dir where
  "default_dir =
     Dir (bt_insert dotdot_name DotDot (bt_insert dot_name Dot [])) default_meta None
       EROFS_NULL_ADDR [] 0"

fun set_children :: "(bytes \<times> dirent) list \<Rightarrow> dir \<Rightarrow> dir" where
  "set_children cs (Dir _ m i b n t) = Dir cs m i b n t"

fun set_meta :: "meta \<Rightarrow> dir \<Rightarrow> dir" where
  "set_meta m (Dir cs _ i b n t) = Dir cs m i b n t"

fun set_disk_id :: "u32 option \<Rightarrow> dir \<Rightarrow> dir" where
  "set_disk_id i (Dir cs m _ b n t) = Dir cs m i b n t"

fun dirent_file_type :: "dirent \<Rightarrow> dirent_file_type" where
  "dirent_file_type (File _) = DtRegularFile"
| "dirent_file_type (Symlink _) = DtSymlink"
| "dirent_file_type Dot = DtDirectory"
| "dirent_file_type DotDot = DtDirectory"
| "dirent_file_type (SubDir _) = DtDirectory"

section \<open>Directories\<close>

type_synonym 'a dir_op = "dir \<Rightarrow> ('a, build_error) result \<times> dir"

definition insert_child :: "bytes \<Rightarrow> dirent \<Rightarrow> dir \<Rightarrow> dir" where
  "insert_child name entry d = set_children (bt_insert name entry (d_children d)) d"

definition get_or_create_dir :: "bytes \<Rightarrow> 'a dir_op \<Rightarrow> 'a dir_op" where
  "get_or_create_dir name k d =
     (case bt_get (d_children d) name of
        None \<Rightarrow> (case k default_dir of (r, d') \<Rightarrow> (r, insert_child name (SubDir d') d))
      | Some (SubDir sub) \<Rightarrow> (case k sub of (r, d') \<Rightarrow> (r, insert_child name (SubDir d') d))
      | Some _ \<Rightarrow> (Err NotADir, d))"

definition get_dir :: "bytes \<Rightarrow> 'a dir_op \<Rightarrow> 'a dir_op" where
  "get_dir name k d =
     (case bt_get (d_children d) name of
        Some (SubDir sub) \<Rightarrow> (case k sub of (r, d') \<Rightarrow> (r, insert_child name (SubDir d') d))
      | _ \<Rightarrow> (Err NotADir, d))"

section \<open>Root\<close>

text \<open>The loop of \<open>lookup_impl\<close> over the components of a path.\<close>

fun lookup_parts ::
    "bool \<Rightarrow> path_component list \<Rightarrow> (bytes option \<Rightarrow> 'a dir_op) \<Rightarrow> 'a dir_op" where
  "lookup_parts create [] k cur = k None cur"
| "lookup_parts create [part] k cur =
     (case part of
        Normal name \<Rightarrow> k (Some name) cur
      | CurDir \<Rightarrow> k None cur
      | _ \<Rightarrow> (Err WeirdPath, cur))"
| "lookup_parts create (part # parts) k cur =
     (case part of
        CurDir \<Rightarrow> lookup_parts create parts k cur
      | RootDir \<Rightarrow> lookup_parts create parts k cur
      | ParentDir \<Rightarrow> (Err PathWithDotDot, cur)
      | Normal name \<Rightarrow>
          (if create then get_or_create_dir name (lookup_parts create parts k) cur
           else get_dir name (lookup_parts create parts k) cur))"

definition lookup_impl :: "bytes \<Rightarrow> bool \<Rightarrow> (bytes option \<Rightarrow> 'a dir_op) \<Rightarrow> 'a dir_op" where
  "lookup_impl path create k root =
     (if path = [] then (Err EmptyPath, root)
      else if path \<in> {dot_name, dot_name @ [slash], [slash]} then k None root
      else lookup_parts create (path_components path) k root)"

definition lookup_create :: "bytes \<Rightarrow> (bytes option \<Rightarrow> 'a dir_op) \<Rightarrow> 'a dir_op" where
  "lookup_create path = lookup_impl path True"

definition lookup_only :: "bytes \<Rightarrow> (bytes option \<Rightarrow> 'a dir_op) \<Rightarrow> 'a dir_op" where
  "lookup_only path = lookup_impl path False"

definition root_insert :: "bytes \<Rightarrow> dirent \<Rightarrow> unit dir_op" where
  "root_insert path entry =
     lookup_create path (\<lambda>name d.
       case name of
         Some name \<Rightarrow> (Ok (), insert_child name entry d)
       | None \<Rightarrow> (Err InsertFailed, d))"

definition root_add_file :: "bytes \<Rightarrow> file_entry \<Rightarrow> unit dir_op" where
  "root_add_file path f root =
     (if ends_with_slash path then (Err PathTrailingSlash, root)
      else root_insert path (File f) root)"

definition root_add_symlink :: "bytes \<Rightarrow> symlink_entry \<Rightarrow> unit dir_op" where
  "root_add_symlink path s root =
     (if ends_with_slash path then (Err PathTrailingSlash, root)
      else root_insert path (Symlink s) root)"

definition root_upsert_dir :: "bytes \<Rightarrow> meta \<Rightarrow> unit dir_op" where
  "root_upsert_dir path m =
     lookup_create path (\<lambda>name d.
       case name of
         None \<Rightarrow> (Ok (), set_meta m d)
       | Some name \<Rightarrow> get_or_create_dir name (\<lambda>sub. (Ok (), set_meta m sub)) d)"

text \<open>
  \<open>get\<close> hands out a mutable reference to the entry; \<open>root_get_mut\<close> applies an operation on the
  entry, if there is one, and stores the changed entry.
\<close>

definition root_get_mut ::
    "bytes \<Rightarrow> (dirent \<Rightarrow> ('a, build_error) result \<times> dirent) \<Rightarrow> 'a option dir_op" where
  "root_get_mut path f =
     lookup_only path (\<lambda>name d.
       case name of
         None \<Rightarrow> (Ok None, d)
       | Some name \<Rightarrow>
           (case bt_get (d_children d) name of
              None \<Rightarrow> (Ok None, d)
            | Some entry \<Rightarrow>
                (case f entry of (r, entry') \<Rightarrow> (mapr Some r, insert_child name entry' d))))"

section \<open>Well-formed trees\<close>

text \<open>
  Every directory holds its entries in order under distinct names, \<open>.\<close> and \<open>..\<close> among them, and
  every other entry is a file, a symbolic link or a directory under a proper name.
\<close>

fun wf_dir :: "dir \<Rightarrow> bool" and wf_dirent :: "bytes \<Rightarrow> dirent \<Rightarrow> bool" where
  "wf_dir (Dir cs m i b n t) \<longleftrightarrow>
     bt_inv cs \<and> bt_get cs dot_name = Some Dot \<and> bt_get cs dotdot_name = Some DotDot \<and>
     (\<forall>(name, e) \<in> set cs. wf_dirent name e)"
| "wf_dirent name (SubDir d) \<longleftrightarrow> normal_name name \<and> wf_dir d"
| "wf_dirent name (File f) \<longleftrightarrow> normal_name name"
| "wf_dirent name (Symlink s) \<longleftrightarrow> normal_name name"
| "wf_dirent name Dot \<longleftrightarrow> name = dot_name"
| "wf_dirent name DotDot \<longleftrightarrow> name = dotdot_name"

declare wf_dir.simps [simp del]

lemma wf_dir_iff:
  "wf_dir d \<longleftrightarrow>
     bt_inv (d_children d) \<and> bt_get (d_children d) dot_name = Some Dot \<and>
     bt_get (d_children d) dotdot_name = Some DotDot \<and>
     (\<forall>name e. bt_get (d_children d) name = Some e \<longrightarrow> wf_dirent name e)"
  by (cases d) (auto simp: wf_dir.simps bt.entries_lookup)

lemma set_simps [simp]:
  "d_children (set_children cs d) = cs" "d_meta (set_children cs d) = d_meta d"
  "d_children (set_meta m d) = d_children d" "d_meta (set_meta m d) = m"
  "d_children (set_disk_id i d) = d_children d" "d_meta (set_disk_id i d) = d_meta d"
  by (cases d; simp)+

lemma insert_child_simps [simp]:
  "d_children (insert_child name e d) = bt_insert name e (d_children d)"
  "d_meta (insert_child name e d) = d_meta d"
  by (simp_all add: insert_child_def)

lemma normal_name_dot [simp]: "\<not> normal_name dot_name" "\<not> normal_name dotdot_name"
  by (simp_all add: normal_name_def)

lemma wf_default_dir: "wf_dir default_dir"
  by (auto simp: wf_dir_iff default_dir_def bt_inv_def bt_get_def dot_name_def dotdot_name_def
      split: if_splits)

lemma wf_insert_child:
  assumes "wf_dir d" and "normal_name name" and "wf_dirent name e"
  shows "wf_dir (insert_child name e d)"
  using assms by (auto simp: wf_dir_iff bt_get_insert bt_insert_inv split: if_splits)

lemma wf_set_meta [simp]: "wf_dir (set_meta m d) \<longleftrightarrow> wf_dir d"
  by (simp add: wf_dir_iff)

lemma wf_child_dir: "wf_dir d \<Longrightarrow> bt_get (d_children d) name = Some (SubDir s) \<Longrightarrow> wf_dir s \<and> normal_name name"
  by (metis wf_dir_iff wf_dirent.simps(1))

lemma wf_dots:
  "wf_dir d \<Longrightarrow> bt_get (d_children d) n = Some Dot \<Longrightarrow> \<not> normal_name n"
  "wf_dir d \<Longrightarrow> bt_get (d_children d) n = Some DotDot \<Longrightarrow> \<not> normal_name n"
  by (metis wf_dir_iff wf_dirent.simps(4) normal_name_dot(1))
    (metis wf_dir_iff wf_dirent.simps(5) normal_name_dot(2))

section \<open>The file system a tree stands for\<close>

datatype node_info = FileInfo file_entry | SymlinkInfo symlink_entry | DirInfo meta

type_synonym fs_view = "bytes list \<Rightarrow> node_info option"

fun view :: "dirent \<Rightarrow> fs_view" where
  "view (File f) [] = Some (FileInfo f)"
| "view (Symlink s) [] = Some (SymlinkInfo s)"
| "view (SubDir d) [] = Some (DirInfo (d_meta d))"
| "view (SubDir d) (n # ns) =
     (case bt_get (d_children d) n of None \<Rightarrow> None | Some e \<Rightarrow> view e ns)"
| "view _ _ = None"

abbreviation dir_view :: "dir \<Rightarrow> fs_view" where
  "dir_view d \<equiv> view (SubDir d)"

text \<open>
  What an operation at path \<open>p\<close> promises: the parents that were missing appear with default
  metadata, what was under a replaced file or directory disappears, and nothing else changes.
\<close>

definition spec_parents :: "bytes list \<Rightarrow> fs_view \<Rightarrow> fs_view" where
  "spec_parents p fs q =
     (if strict_prefix q p \<and> fs q = None then Some (DirInfo default_meta) else fs q)"

definition spec_insert :: "bytes list \<Rightarrow> node_info \<Rightarrow> fs_view \<Rightarrow> fs_view" where
  "spec_insert p x fs q =
     (if q = p then Some x else if strict_prefix p q then None else spec_parents p fs q)"

definition spec_upsert :: "bytes list \<Rightarrow> meta \<Rightarrow> fs_view \<Rightarrow> fs_view" where
  "spec_upsert p m fs q = (if q = p then Some (DirInfo m) else spec_parents p fs q)"

fun is_dir_info :: "node_info \<Rightarrow> bool" where
  "is_dir_info (DirInfo _) = True"
| "is_dir_info _ = False"

definition spec_blocked :: "bytes list \<Rightarrow> fs_view \<Rightarrow> bool" where
  "spec_blocked p fs \<longleftrightarrow>
     (\<exists>q \<in> set (prefixes p). case fs q of None \<Rightarrow> False | Some x \<Rightarrow> \<not> is_dir_info x)"

section \<open>Walking down a path\<close>

fun walk_create :: "bytes list \<Rightarrow> 'a dir_op \<Rightarrow> 'a dir_op" where
  "walk_create [] k d = k d"
| "walk_create (n # ns) k d = get_or_create_dir n (walk_create ns k) d"

fun blocked :: "dir \<Rightarrow> bytes list \<Rightarrow> bool" where
  "blocked d [] = False"
| "blocked d (n # ns) =
     (case bt_get (d_children d) n of
        None \<Rightarrow> False
      | Some (SubDir s) \<Rightarrow> blocked s ns
      | Some _ \<Rightarrow> True)"

fun dir_or_default :: "dir \<Rightarrow> bytes list \<Rightarrow> dir" where
  "dir_or_default d [] = d"
| "dir_or_default d (n # ns) =
     (case bt_get (d_children d) n of Some (SubDir s) \<Rightarrow> dir_or_default s ns | _ \<Rightarrow> default_dir)"

lemma bt_get_default_dir:
  "bt_get (d_children default_dir) n =
     (if n = dot_name then Some Dot else if n = dotdot_name then Some DotDot else None)"
  by (auto simp: default_dir_def bt_get_def dot_name_def dotdot_name_def)

lemma d_meta_default [simp]: "d_meta default_dir = default_meta"
  by (simp add: default_dir_def)

lemma view_default: "dir_view default_dir q = (if q = [] then Some (DirInfo default_meta) else None)"
  by (cases q) (auto simp: bt_get_default_dir)

lemma walk_create_blocked:
  "wf_dir d \<Longrightarrow> \<forall>n \<in> set ns. normal_name n \<Longrightarrow> blocked d ns \<Longrightarrow> walk_create ns k d = (Err NotADir, d)"
proof (induction ns arbitrary: d)
  case (Cons n ns)
  show ?case
  proof (cases "bt_get (d_children d) n")
    case (Some e)
    show ?thesis
    proof (cases e)
      case (SubDir s)
      with Some Cons have "walk_create ns k s = (Err NotADir, s)"
        using wf_child_dir by simp
      moreover have "bt_insert n (SubDir s) (d_children d) = d_children d"
        using Some SubDir Cons.prems(1)
        by (intro bt.lookup_ext) (auto simp: wf_dir_iff bt_insert_inv bt_get_insert)
      ultimately show ?thesis
        using Some SubDir by (cases d) (simp add: get_or_create_dir_def insert_child_def)
    qed (use Some Cons.prems in \<open>auto simp: get_or_create_dir_def\<close>)
  qed (use Cons.prems in auto)
qed simp

lemma blocked_default: "\<forall>n \<in> set ns. normal_name n \<Longrightarrow> \<not> blocked default_dir ns"
  by (cases ns) (auto simp: bt_get_default_dir)

lemma dir_or_default_default: "\<forall>n \<in> set ns. normal_name n \<Longrightarrow> dir_or_default default_dir ns = default_dir"
  by (cases ns) (auto simp: bt_get_default_dir)

lemma spec_parents_Cons:
  "spec_parents (n # ns) fs (m # ms) =
     (if m = n then spec_parents ns (\<lambda>q. fs (n # q)) ms else fs (m # ms))"
  by (simp add: spec_parents_def)

lemma walk_create_effect:
  assumes "wf_dir d" and "\<forall>n \<in> set ns. normal_name n" and "\<not> blocked d ns"
    and "\<And>d. wf_dir d \<Longrightarrow> k d = (Ok x, u d) \<and> wf_dir (u d)"
  shows "\<exists>d'. walk_create ns k d = (Ok x, d') \<and> wf_dir d' \<and>
     (\<forall>q. dir_view d' q =
        (if prefix ns q then dir_view (u (dir_or_default d ns)) (drop (length ns) q)
         else spec_parents ns (dir_view d) q))"
  using assms(1-3)
proof (induction ns arbitrary: d)
  case Nil
  then show ?case using assms(4) by simp
next
  case (Cons n ns)
  define s where "s = (case bt_get (d_children d) n of Some (SubDir s) \<Rightarrow> s | _ \<Rightarrow> default_dir)"
  have get: "bt_get (d_children d) n = None \<and> s = default_dir \<or> bt_get (d_children d) n = Some (SubDir s)"
    using Cons.prems(3) by (auto simp: s_def split: option.splits dirent.splits)
  have s: "wf_dir s" "\<not> blocked s ns" "dir_or_default d (n # ns) = dir_or_default s ns"
    using get Cons.prems wf_default_dir wf_child_dir blocked_default dir_or_default_default by auto
  from Cons.IH[OF s(1) _ s(2)] Cons.prems(2) obtain s' where
    s': "walk_create ns k s = (Ok x, s')" "wf_dir s'" and
    vw: "\<And>q. dir_view s' q =
        (if prefix ns q then dir_view (u (dir_or_default s ns)) (drop (length ns) q)
         else spec_parents ns (dir_view s) q)"
    by auto
  let ?d = "insert_child n (SubDir s') d"
  have eq: "walk_create (n # ns) k d = (Ok x, ?d)"
    using get s'(1) by (auto simp: get_or_create_dir_def)
  have wf: "wf_dir ?d"
    using Cons.prems s'(2) by (intro wf_insert_child) auto
  have "dir_view ?d q =
      (if prefix (n # ns) q then dir_view (u (dir_or_default d (n # ns))) (drop (length (n # ns)) q)
       else spec_parents (n # ns) (dir_view d) q)" for q
  proof (cases q)
    case Nil
    then show ?thesis by (simp add: spec_parents_def)
  next
    case (Cons m ms)
    have inv: "bt_inv (d_children d)" using \<open>wf_dir d\<close> by (simp add: wf_dir_iff)
    show ?thesis
    proof (cases "m = n \<and> \<not> prefix ns ms")
      case True
      have "spec_parents ns (dir_view s) ms = spec_parents ns (\<lambda>q. dir_view d (n # q)) ms"
        using get True by (auto simp: spec_parents_def view_default strict_prefix_def split: if_splits)
      with True Cons inv vw[of ms] show ?thesis
        by (simp add: bt_get_insert spec_parents_Cons)
    next
      case False
      with Cons inv vw[of ms] s(3) show ?thesis
        by (auto simp: bt_get_insert spec_parents_Cons)
    qed
  qed
  with eq wf show ?case by blast
qed

lemma dir_view_at:
  "dir_view d ns = Some (DirInfo m) \<Longrightarrow> \<exists>s. dir_or_default d ns = s \<and> m = d_meta s \<and>
     (\<forall>q. dir_view d (ns @ q) = dir_view s q)"
proof (induction ns arbitrary: d)
  case (Cons n ns)
  then obtain e where e: "bt_get (d_children d) n = Some e" "view e ns = Some (DirInfo m)"
    by (auto split: option.splits)
  show ?case
  proof (cases e)
    case (SubDir s)
    with e Cons.IH[of s] show ?thesis by auto
  qed (use e in \<open>cases ns; simp\<close>)+
qed simp

lemma dir_or_default_view:
  assumes "wf_dir d" and "\<forall>n \<in> set ns. normal_name n" and "\<not> blocked d ns"
  shows "dir_view (dir_or_default d ns) q =
     (if q = [] \<and> dir_view d ns = None then Some (DirInfo default_meta) else dir_view d (ns @ q))"
  using assms
proof (induction ns arbitrary: d)
  case (Cons n ns)
  then consider "bt_get (d_children d) n = None" | s where "bt_get (d_children d) n = Some (SubDir s)"
    by (auto split: option.splits dirent.splits)
  then show ?case
  proof cases
    case 1
    then show ?thesis by (simp add: view_default)
  next
    case 2
    with Cons wf_child_dir show ?thesis by simp
  qed
qed simp

lemma wf_dir_or_default: "wf_dir d \<Longrightarrow> wf_dir (dir_or_default d ns)"
  by (induction ns arbitrary: d) (auto simp: wf_default_dir split: option.splits dirent.splits dest: wf_child_dir)

lemma prefixes_Cons_image: "set (prefixes (n # ns)) = insert [] ((#) n ` set (prefixes ns))"
  by auto

lemma blocked_iff:
  assumes "wf_dir d" and "\<forall>n \<in> set ns. normal_name n"
  shows "blocked d ns \<longleftrightarrow> spec_blocked ns (dir_view d)"
  using assms
proof (induction ns arbitrary: d)
  case (Cons n ns)
  show ?case
  proof (cases "bt_get (d_children d) n")
    case None
    then show ?thesis by (simp add: spec_blocked_def)
  next
    case (Some e)
    show ?thesis
    proof (cases e)
      case (SubDir s)
      with Some Cons wf_child_dir have "blocked s ns \<longleftrightarrow> spec_blocked ns (dir_view s)" by simp
      with Some SubDir show ?thesis by (simp add: spec_blocked_def)
    qed (use Some Cons.prems wf_dots in \<open>auto simp: spec_blocked_def intro: bexI[of _ "[]"]\<close>)
  qed
qed (simp add: spec_blocked_def)

section \<open>The operations implement the file system\<close>

text \<open>The names a path leads through; paths with \<open>..\<close> are not accepted.\<close>

definition path_target :: "bytes \<Rightarrow> bytes list option" where
  "path_target p =
     (let cs = path_components p
      in if ParentDir \<in> set cs then None
         else Some (concat (map (\<lambda>c. case c of Normal n \<Rightarrow> [n] | _ \<Rightarrow> []) cs)))"

lemma body_components_cases:
  "ParentDir \<notin> set (body_components ws) \<Longrightarrow>
     body_components ws =
       map Normal (concat (map (\<lambda>c. case c of Normal n \<Rightarrow> [n] | _ \<Rightarrow> []) (body_components ws)))"
  by (induction ws) (auto simp: body_components_def split: if_splits)

lemma path_target_components:
  assumes "path_target p = Some ns"
  shows "\<exists>lead. path_components p = lead @ map Normal ns \<and> lead \<in> {[], [RootDir], [CurDir]}"
    and "\<forall>n \<in> set ns. normal_name n"
proof -
  obtain lead where lead: "path_components p = lead @ body_components (split_slash p)"
      "lead \<in> {[], [RootDir], [CurDir]}"
    by (auto simp: path_components_def Let_def)
  then have "ns = concat (map (\<lambda>c. case c of Normal n \<Rightarrow> [n] | _ \<Rightarrow> []) (body_components (split_slash p)))"
    using assms by (auto simp: path_target_def Let_def split: if_splits)
  with assms lead show *: "\<exists>lead. path_components p = lead @ map Normal ns \<and> lead \<in> {[], [RootDir], [CurDir]}"
    using body_components_cases[of "split_slash p"]
    by (auto simp: path_target_def Let_def split: if_splits)
  then show "\<forall>n \<in> set ns. normal_name n"
    using path_components_normal[of _ p] by fastforce
qed

lemma lookup_parts_names:
  "lookup_parts True (map Normal (ns @ [n])) k d = walk_create ns (k (Some n)) d"
proof (induction ns arbitrary: d)
  case (Cons m ns)
  have "map Normal ((m # ns) @ [n]) = Normal m # hd (map Normal (ns @ [n])) # tl (map Normal (ns @ [n]))"
    by (cases ns) auto
  moreover have "lookup_parts True (map Normal (ns @ [n])) k = walk_create ns (k (Some n))"
    using Cons by blast
  ultimately show ?case
    by (cases ns) simp_all
qed simp

lemma lookup_create_names:
  assumes "path_target p = Some (ns @ [n])"
  shows "lookup_create p k d = walk_create ns (k (Some n)) d"
proof -
  from path_target_components(1)[OF assms] obtain lead where
    lead: "path_components p = lead @ map Normal (ns @ [n])" "lead \<in> {[], [RootDir], [CurDir]}"
    by auto
  have "path_components [] = []" "path_components dot_name = [CurDir]"
    "path_components (dot_name @ [slash]) = [CurDir]" "path_components [slash] = [RootDir]"
    by (simp_all add: path_components_def body_components_def dot_name_def slash_def)
  with lead(1) have "p \<noteq> []" "p \<notin> {dot_name, dot_name @ [slash], [slash]}"
    by (auto simp: append_eq_Cons_conv Cons_eq_append_conv)
  then have "lookup_create p k d = lookup_parts True (lead @ map Normal (ns @ [n])) k d"
    by (simp only: lookup_create_def lookup_impl_def lead(1)) simp
  also have "\<dots> = lookup_parts True (map Normal (ns @ [n])) k d"
    using lead(2) by (cases ns) auto
  finally show ?thesis by (simp only: lookup_parts_names)
qed

fun dirent_info :: "dirent \<Rightarrow> node_info option" where
  "dirent_info (File f) = Some (FileInfo f)"
| "dirent_info (Symlink s) = Some (SymlinkInfo s)"
| "dirent_info _ = None"

lemma view_leaf: "dirent_info e = Some x \<Longrightarrow> view e q = (if q = [] then Some x else None)"
  by (cases e; cases q) auto

lemma spec_parents_snoc:
  "spec_parents (ns @ [n]) fs q = (if q = ns \<and> fs q = None then Some (DirInfo default_meta) else spec_parents ns fs q)"
proof -
  have "strict_prefix q (ns @ [n]) \<longleftrightarrow> q = ns \<or> strict_prefix q ns"
    by (auto simp: strict_prefix_def)
  then show ?thesis by (auto simp: spec_parents_def)
qed

lemma spec_insert_view:
  assumes "wf_dir d" and "\<forall>n \<in> set ns. normal_name n" and "\<not> blocked d ns" and "dirent_info e = Some x"
  shows "(if prefix ns q then dir_view (insert_child n e (dir_or_default d ns)) (drop (length ns) q)
          else spec_parents ns (dir_view d) q) = spec_insert (ns @ [n]) x (dir_view d) q"
proof (cases "prefix ns q")
  case False
  then show ?thesis
    using append_prefixD[of ns "[n]" q]
    by (auto simp: spec_insert_def spec_parents_snoc strict_prefix_def)
next
  case True
  then obtain r where q: "q = ns @ r" by (auto simp: prefix_def)
  have inv: "bt_inv (d_children (dir_or_default d ns))"
    using wf_dir_or_default[OF assms(1)] by (simp add: wf_dir_iff)
  have dod: "\<And>q. dir_view (dir_or_default d ns) q =
     (if q = [] \<and> dir_view d ns = None then Some (DirInfo default_meta) else dir_view d (ns @ q))"
    by (rule dir_or_default_view[OF assms(1-3)])
  show ?thesis
  proof (cases r)
    case Nil
    with q dod[of "[]"] show ?thesis
      by (auto simp: spec_insert_def spec_parents_snoc spec_parents_def strict_prefix_def)
  next
    case (Cons m ms)
    have "dir_view (insert_child n e (dir_or_default d ns)) (m # ms) =
        (if m = n then view e ms else dir_view d (ns @ m # ms))"
      using dod[of "m # ms"] inv by (simp add: bt_get_insert)
    with q Cons view_leaf[OF assms(4)] show ?thesis
      by (auto simp: spec_insert_def spec_parents_def strict_prefix_def prefix_def)
  qed
qed

lemma root_insert_refines:
  assumes "wf_dir root" and "path_target p = Some (ns @ [n])" and "dirent_info e = Some x"
  shows "if spec_blocked ns (dir_view root) then root_insert p e root = (Err NotADir, root)
     else \<exists>root'. root_insert p e root = (Ok (), root') \<and> wf_dir root' \<and>
            dir_view root' = spec_insert (ns @ [n]) x (dir_view root)"
proof -
  have names: "\<forall>n \<in> set ns. normal_name n" "normal_name n"
    using path_target_components(2)[OF assms(2)] by auto
  have eq: "root_insert p e root = walk_create ns (\<lambda>d. (Ok (), insert_child n e d)) root"
    by (simp add: root_insert_def lookup_create_names[OF assms(2)])
  have wf: "wf_dir d \<Longrightarrow> wf_dir (insert_child n e d)" for d
    using names(2) assms(3) by (intro wf_insert_child) (cases e; auto)+
  show ?thesis
  proof (cases "blocked root ns")
    case True
    with eq walk_create_blocked[OF assms(1) names(1)] blocked_iff[OF assms(1) names(1)]
    show ?thesis by simp
  next
    case False
    obtain root' where root': "walk_create ns (\<lambda>d. (Ok (), insert_child n e d)) root = (Ok (), root')"
        "wf_dir root'" and
      vw: "\<forall>q. dir_view root' q =
        (if prefix ns q then dir_view (insert_child n e (dir_or_default root ns)) (drop (length ns) q)
         else spec_parents ns (dir_view root) q)"
      using walk_create_effect[OF assms(1) names(1) False,
          of "\<lambda>d. (Ok (), insert_child n e d)" "()" "insert_child n e"] wf by blast
    have "dir_view root' = spec_insert (ns @ [n]) x (dir_view root)"
      by (rule ext) (simp only: vw spec_insert_view[OF assms(1) names(1) False assms(3)])
    with root' eq show ?thesis
      using blocked_iff[OF assms(1) names(1)] False by simp
  qed
qed

lemma walk_create_snoc: "walk_create ns (get_or_create_dir n k) = walk_create (ns @ [n]) k"
proof (induction ns)
  case Nil
  have "walk_create [] k = k" by (rule ext) simp
  then show ?case by (intro ext) simp
next
  case (Cons m ns)
  then show ?case by (intro ext) simp
qed

lemma root_upsert_refines:
  assumes "wf_dir root" and "path_target p = Some (ns @ [n])"
  shows "if spec_blocked (ns @ [n]) (dir_view root) then root_upsert_dir p m root = (Err NotADir, root)
     else \<exists>root'. root_upsert_dir p m root = (Ok (), root') \<and> wf_dir root' \<and>
            dir_view root' = spec_upsert (ns @ [n]) m (dir_view root)"
proof -
  let ?p = "ns @ [n]"
  have names: "\<forall>n \<in> set ?p. normal_name n"
    using path_target_components(2)[OF assms(2)] .
  have eq: "root_upsert_dir p m root = walk_create ?p (\<lambda>d. (Ok (), set_meta m d)) root"
    by (simp add: root_upsert_dir_def lookup_create_names[OF assms(2)] walk_create_snoc)
  show ?thesis
  proof (cases "blocked root ?p")
    case True
    with eq walk_create_blocked[OF assms(1) names] blocked_iff[OF assms(1) names]
    show ?thesis by simp
  next
    case False
    have vm: "dir_view (set_meta m d) q = (if q = [] then Some (DirInfo m) else dir_view d q)" for d q
      by (cases q) auto
    have spec: "(if prefix ?p q then dir_view (set_meta m (dir_or_default root ?p)) (drop (length ?p) q)
        else spec_parents ?p (dir_view root) q) = spec_upsert ?p m (dir_view root) q" for q
    proof (cases "prefix ?p q")
      case True
      then obtain r where "q = ?p @ r" by (auto simp: prefix_def)
      then show ?thesis
        by (simp only: vm dir_or_default_view[OF assms(1) names False])
          (simp add: spec_upsert_def spec_parents_def strict_prefix_def)
    qed (auto simp: spec_upsert_def)
    obtain root' where root': "walk_create ?p (\<lambda>d. (Ok (), set_meta m d)) root = (Ok (), root')"
        "wf_dir root'" and
      vw: "\<forall>q. dir_view root' q =
        (if prefix ?p q then dir_view (set_meta m (dir_or_default root ?p)) (drop (length ?p) q)
         else spec_parents ?p (dir_view root) q)"
      using walk_create_effect[OF assms(1) names False,
          of "\<lambda>d. (Ok (), set_meta m d)" "()" "set_meta m"] wf_set_meta by blast
    have "dir_view root' = spec_upsert ?p m (dir_view root)"
      by (rule ext) (simp only: vw spec)
    with root' eq show ?thesis
      using blocked_iff[OF assms(1) names] False by simp
  qed
qed

end
