(* ===== verification/State_Ops.thy ===== *)
theory State_Ops
  imports Prelude
begin

text \<open>
  Operations that change a state and may fail: the state is passed explicitly, and an operation
  returns its result and the state it leaves, also when it fails.
\<close>

section \<open>Composition\<close>

type_synonym ('a, 'e, 's) st = "'s \<Rightarrow> ('a, 'e) result \<times> 's"

definition st_ok :: "'a \<Rightarrow> ('a, 'e, 's) st" where "st_ok x s = (Ok x, s)"
definition st_err :: "'e \<Rightarrow> ('a, 'e, 's) st" where "st_err e s = (Err e, s)"
definition st_lift :: "('a, 'e) result \<Rightarrow> ('a, 'e, 's) st" where "st_lift r s = (r, s)"
definition st_modify :: "('s \<Rightarrow> 's) \<Rightarrow> (unit, 'e, 's) st" where "st_modify f s = (Ok (), f s)"
definition st_with :: "('s \<Rightarrow> ('a, 'e, 's) st) \<Rightarrow> ('a, 'e, 's) st" where "st_with f s = f s s"

definition st_bind :: "('a, 'e, 's) st \<Rightarrow> ('a \<Rightarrow> ('b, 'e, 's) st) \<Rightarrow> ('b, 'e, 's) st" where
  "st_bind m f s = (case m s of (Ok x, s') \<Rightarrow> f x s' | (Err e, s') \<Rightarrow> (Err e, s'))"

definition st_seq :: "('a, 'e, 's) st \<Rightarrow> ('b, 'e, 's) st \<Rightarrow> ('b, 'e, 's) st" where
  "st_seq m n = st_bind m (\<lambda>_. n)"

text \<open>\<open>map_err\<close> behind an operation.\<close>

definition st_map_err :: "('e \<Rightarrow> 'f) \<Rightarrow> ('a, 'e, 's) st \<Rightarrow> ('a, 'f, 's) st" where
  "st_map_err f m s = (case m s of (r, s') \<Rightarrow> (map_err f r, s'))"

named_theorems st_defs \<open>the state operations unfolded\<close>

lemmas st_basic [st_defs] = st_ok_def st_err_def st_lift_def st_modify_def st_with_def

lemma st_bind_Ok: "st_bind m f s = (Ok y, s'') \<longleftrightarrow> (\<exists>x s'. m s = (Ok x, s') \<and> f x s' = (Ok y, s''))"
  by (auto simp: st_bind_def split: prod.splits result.splits)

lemma st_seq_Ok: "st_seq m n s = (Ok y, s'') \<longleftrightarrow> (\<exists>x s'. m s = (Ok x, s') \<and> n s' = (Ok y, s''))"
  by (simp add: st_seq_def st_bind_Ok)

lemma st_map_err_Ok: "st_map_err f m s = (Ok x, s') \<longleftrightarrow> m s = (Ok x, s')"
  by (auto simp: st_map_err_def result_simps split: prod.splits)

text \<open>Operations that leave a part of the state alone.\<close>

definition preserves :: "('s \<Rightarrow> 'b) \<Rightarrow> ('a, 'e, 's) st \<Rightarrow> bool" where
  "preserves part m \<longleftrightarrow> (\<forall>s. part (snd (m s)) = part s)"

named_theorems preserves_intros \<open>what the state operations leave alone\<close>

lemma preserves_basic [preserves_intros]:
  "preserves part (st_ok x)" "preserves part (st_err e)" "preserves part (st_lift r)"
  by (simp_all add: preserves_def st_defs)

lemma preserves_modify [preserves_intros]: "(\<And>s. part (f s) = part s) \<Longrightarrow> preserves part (st_modify f)"
  by (simp add: preserves_def st_defs)

lemma preserves_with [preserves_intros]: "(\<And>s. preserves part (f s)) \<Longrightarrow> preserves part (st_with f)"
  by (simp add: preserves_def st_defs)

lemma preserves_bind [preserves_intros]:
  "preserves part m \<Longrightarrow> (\<And>x. preserves part (f x)) \<Longrightarrow> preserves part (st_bind m f)"
proof -
  assume m: "preserves part m" and f: "\<And>x. preserves part (f x)"
  have "part (snd (st_bind m f s)) = part s" for s
  proof (cases "m s")
    case (Pair r s')
    with m have "part s' = part s" by (metis preserves_def snd_conv)
    with Pair f show ?thesis by (cases r) (simp_all add: st_bind_def preserves_def)
  qed
  then show ?thesis by (simp add: preserves_def)
qed

lemma preserves_seq [preserves_intros]: "preserves part m \<Longrightarrow> preserves part n \<Longrightarrow> preserves part (st_seq m n)"
  unfolding st_seq_def by (rule preserves_bind)

lemma preserves_map_err [preserves_intros]: "preserves part m \<Longrightarrow> preserves part (st_map_err f m)"
  by (simp add: preserves_def st_map_err_def case_prod_beta)

lemma preserves_if [preserves_intros]:
  "(c \<Longrightarrow> preserves part m) \<Longrightarrow> (\<not> c \<Longrightarrow> preserves part n) \<Longrightarrow> preserves part (if c then m else n)"
  by simp

lemma preserves_case_prod [preserves_intros]:
  "(\<And>x y. preserves part (f x y)) \<Longrightarrow> preserves part (case p of (x, y) \<Rightarrow> f x y)"
  by (cases p) simp

section \<open>Invariants\<close>

text \<open>An operation keeps a property of the state whether it succeeds or fails.\<close>

definition st_keeps :: "('s \<Rightarrow> bool) \<Rightarrow> ('a, 'e, 's) st \<Rightarrow> bool" where
  "st_keeps I m \<longleftrightarrow> (\<forall>s. I s \<longrightarrow> I (snd (m s)))"

named_theorems keeps_intros \<open>what the state operations keep\<close>

lemma keeps_basic [keeps_intros]: "st_keeps I (st_ok x)" "st_keeps I (st_err e)" "st_keeps I (st_lift r)"
  by (simp_all add: st_keeps_def st_defs)

lemma keeps_modify [keeps_intros]: "(\<And>s. I s \<Longrightarrow> I (f s)) \<Longrightarrow> st_keeps I (st_modify f)"
  by (simp add: st_keeps_def st_defs)

lemma keeps_with [keeps_intros]: "(\<And>s. I s \<Longrightarrow> st_keeps I (f s)) \<Longrightarrow> st_keeps I (st_with f)"
  by (simp add: st_keeps_def st_defs)

lemma keeps_run: "st_keeps I m \<Longrightarrow> I s \<Longrightarrow> m s = (r, s') \<Longrightarrow> I s'"
  unfolding st_keeps_def by (metis snd_conv)

lemma keeps_bind [keeps_intros]: "st_keeps I m \<Longrightarrow> (\<And>x. st_keeps I (f x)) \<Longrightarrow> st_keeps I (st_bind m f)"
  unfolding st_keeps_def st_bind_def by (auto split: prod.split result.split)

lemma keeps_seq [keeps_intros]: "st_keeps I m \<Longrightarrow> st_keeps I n \<Longrightarrow> st_keeps I (st_seq m n)"
  unfolding st_seq_def by (rule keeps_bind)

lemma keeps_map_err [keeps_intros]: "st_keeps I m \<Longrightarrow> st_keeps I (st_map_err f m)"
  by (simp add: st_keeps_def st_map_err_def case_prod_beta)

lemma keeps_if [keeps_intros]:
  "(c \<Longrightarrow> st_keeps I m) \<Longrightarrow> (\<not> c \<Longrightarrow> st_keeps I n) \<Longrightarrow> st_keeps I (if c then m else n)"
  by simp

lemma keeps_case_prod [keeps_intros]: "(\<And>x y. st_keeps I (f x y)) \<Longrightarrow> st_keeps I (case p of (x, y) \<Rightarrow> f x y)"
  by (cases p) simp

lemma keeps_case_option [keeps_intros]:
  "st_keeps I m \<Longrightarrow> (\<And>x. st_keeps I (f x)) \<Longrightarrow> st_keeps I (case z of None \<Rightarrow> m | Some x \<Rightarrow> f x)"
  by (cases z) simp_all

section \<open>Running a composition\<close>

named_theorems st_run \<open>a composition is run one operation at a time\<close>

lemma st_run_basic [st_run]:
  "st_bind (st_ok x) f s = f x s" "st_bind (st_err e) f s = (Err e, s)" "st_seq (st_ok x) n s = n s"
  "st_seq (st_modify g) n s = n (g s)" "st_bind (st_lift (Ok x)) f s = f x s" "st_bind (st_lift (Err e)) f s = (Err e, s)"
  "st_with h s = h s s" "st_ok x s = (Ok x, s)" "st_err e s = (Err e, s)" "st_modify g s = (Ok (), g s)"
  "st_lift r s = (r, s)" "st_bind (st_with h) f s = st_bind (h s) f s" "st_seq (st_with h) n s = st_seq (h s) n s"
  by (simp_all add: st_bind_def st_seq_def st_defs)

lemma st_bind_step: "m s = (Ok x, s') \<Longrightarrow> st_bind m f s = f x s'"
  by (simp add: st_bind_def)

lemma st_seq_step: "m s = (Ok x, s') \<Longrightarrow> st_seq m n s = n s'"
  by (simp add: st_seq_def st_bind_step)

lemma st_seq_assoc: "st_seq (st_seq a b) c = st_seq a (st_seq b c)"
  by (rule ext) (auto simp: st_seq_def st_bind_def split: prod.splits result.splits)

end
