(* ===== verification/Erofs_Writer.thy ===== *)
theory Erofs_Writer
  imports Codec State_Ops
begin

text \<open>
  The output of the image builder: \<open>BufWriter\<close> over a seekable sink that takes every write, with
  the bytes behind the current end read as zero once something is written past them.
\<close>

section \<open>The sink\<close>

record writer =
  w_data :: bytes
  w_pos :: nat

definition overwrite :: "bytes \<Rightarrow> nat \<Rightarrow> bytes \<Rightarrow> bytes" where
  "overwrite img off bs =
     take off (img @ replicate (off - length img) 0) @ bs @ drop (off + length bs) img"

definition write_all :: "bytes \<Rightarrow> writer \<Rightarrow> writer" where
  "write_all bs w =
     (if bs = [] then w
      else w\<lparr>w_data := overwrite (w_data w) (w_pos w) bs, w_pos := w_pos w + length bs\<rparr>)"

definition seek_start :: "nat \<Rightarrow> writer \<Rightarrow> writer" where
  "seek_start off w = w\<lparr>w_pos := off\<rparr>"

lemma length_overwrite: "length (overwrite img off bs) = max (length img) (off + length bs)"
  by (simp add: overwrite_def)

lemma overwrite_stored: "stored (overwrite img off bs) off bs"
  by (simp add: stored_def overwrite_def)

lemma overwrite_nth:
  assumes "i < length (overwrite img off bs)"
  shows "overwrite img off bs ! i =
     (if off \<le> i \<and> i < off + length bs then bs ! (i - off)
      else if i < length img then img ! i else 0)"
  using assms by (auto simp: overwrite_def nth_append length_overwrite not_less min_def)

lemma stored_nth:
  "stored img off bs \<longleftrightarrow>
     off + length bs \<le> length img \<and> (\<forall>i < length bs. img ! (off + i) = bs ! i)"
  by (auto simp: stored_def list_eq_iff_nth_eq)

lemma overwrite_keeps:
  assumes "stored img off' bs'" and "off' + length bs' \<le> off \<or> off + length bs \<le> off'"
  shows "stored (overwrite img off bs) off' bs'"
proof -
  have "off' + length bs' \<le> length img" using assms(1) by (simp add: stored_nth)
  with assms show ?thesis
    by (auto simp: stored_nth length_overwrite overwrite_nth)
qed

lemma write_all_Nil [simp]: "write_all [] w = w"
  by (simp add: write_all_def)

lemma w_pos_write_all [simp]: "w_pos (write_all bs w) = w_pos w + length bs"
  by (simp add: write_all_def)

lemma w_pos_seek [simp]: "w_pos (seek_start off w) = off" "w_data (seek_start off w) = w_data w"
  by (simp_all add: seek_start_def)

lemma write_all_stored: "bs \<noteq> [] \<Longrightarrow> stored (w_data (write_all bs w)) (w_pos w) bs"
  by (simp add: write_all_def overwrite_stored)

lemma write_all_keeps:
  assumes "stored (w_data w) off' bs'" and "off' + length bs' \<le> w_pos w \<or> w_pos w + length bs \<le> off'"
  shows "stored (w_data (write_all bs w)) off' bs'"
  using assms by (auto simp: write_all_def intro: overwrite_keeps)

lemma overwrite_append:
  "bs \<noteq> [] \<Longrightarrow> cs \<noteq> [] \<Longrightarrow> overwrite (overwrite img off bs) (off + length bs) cs = overwrite img off (bs @ cs)"
  by (rule nth_equalityI) (auto simp: length_overwrite overwrite_nth nth_append)

lemma write_all_append: "write_all cs (write_all bs w) = write_all (bs @ cs) w"
  by (cases "bs = []"; cases "cs = []") (simp_all add: write_all_def overwrite_append)

end
