(* ===== verification/Erofs_Build.thy ===== *)
theory Erofs_Build
  imports Erofs_Tree Erofs_Xattr Erofs_Writer
begin

text \<open>
  The image builder of \<open>peerofs/src/build.rs\<close>: adding files, directories, symbolic links and hard
  links, the four walks over the tree that reserve directory blocks, write the inodes and write the
  directory entries, and the superblock. The builder's counters are natural numbers; the narrowing
  conversions of the code (\<open>try_into\<close>) are checks here. \<open>FileType::as_raw_mode\<close> of the crate
  \<open>rustix\<close> is the argument \<open>as_raw_mode\<close>.
\<close>

section \<open>State\<close>

record stats =
  st_files :: nat
  st_symlinks :: nat
  st_dirs :: nat
  st_tails :: nat
  st_tail_size :: nat
  st_block_end_padding :: nat

record builder_config =
  cfg_max_file_size :: "nat option"
  cfg_increment_uid_gid :: "u32 option"

record builder =
  b_root :: "dir option"
  b_increment_uid_gid :: "u32 option"
  b_writer :: writer
  b_superblock :: superblock
  b_block_size_bits :: u8
  b_cur_data_block :: nat
  b_meta_block :: "nat option"
  b_name_buf :: bytes
  b_n_dirs :: nat
  b_n_inodes :: nat
  b_links :: "(bytes \<times> bytes \<times> meta) list"
  b_inode_addr :: nat
  b_stats :: stats
  b_max_depth :: nat
  b_max_file_size :: nat
  b_cur_file_size :: nat

type_synonym 'a bst = "('a, build_error, builder) st"

datatype build_inode = BCompact inode_compact | BExtended inode_extended

definition MAX_DEPTH :: nat where "MAX_DEPTH = 32"

definition zeroed_superblock :: superblock where
  "zeroed_superblock =
     \<lparr>sb_magic = 0, sb_checksum = 0, sb_feature_compat = 0, sb_blkszbits = 0, sb_extslots = 0,
      sb_root_disk_id = 0, sb_inos = 0, sb_build_time = 0, sb_build_time_nsec = 0, sb_blocks = 0,
      sb_meta_blkaddr = 0, sb_xattr_blkaddr = 0, sb_uuid = replicate 16 0,
      sb_volume_name = replicate 16 0, sb_feature_incompat = 0,
      sb_available_compr_algs_or_lz4_max_distance = 0, sb_extra_devices = 0, sb_devt_slotoff = 0,
      sb_dirblkbits = 0, sb_xattr_prefix_count = 0, sb_xattr_prefix_start = 0, sb_packed_nid = 0,
      sb_xattr_filter_reserved = 0, sb_reserved2 = replicate 23 0\<rparr>"

definition zeroed_inode_extended :: inode_extended where
  "zeroed_inode_extended =
     \<lparr>ie_format_layout = 0, ie_xattr_count = 0, ie_mode = 0, ie_reserved = 0, ie_size = 0,
      ie_info = replicate 4 0, ie_ino = 0, ie_uid = 0, ie_gid = 0, ie_mtime = 0,
      ie_mtime_nsec = 0, ie_nlink = 0, ie_reserved2 = replicate 16 0\<rparr>"

definition zeroed_xattr_header :: xattr_header where
  "zeroed_xattr_header = \<lparr>xh_name_filter = 0, xh_shared_count = 0, xh_reserved = replicate 7 0\<rparr>"

definition zero_stats :: stats where
  "zero_stats = \<lparr>st_files = 0, st_symlinks = 0, st_dirs = 0, st_tails = 0, st_tail_size = 0,
     st_block_end_padding = 0\<rparr>"

definition block_size :: "builder \<Rightarrow> nat" where
  "block_size b = shl64 1 (unat (b_block_size_bits b))"

definition block_no :: "builder \<Rightarrow> nat \<Rightarrow> nat" where
  "block_no b addr = addr div block_size b"

definition block_addr :: "builder \<Rightarrow> nat \<Rightarrow> nat" where
  "block_addr b block = block * block_size b"

definition builder_new :: "writer \<Rightarrow> builder_config \<Rightarrow> builder" where
  "builder_new w config =
     (let b = \<lparr>b_root = Some default_dir, b_increment_uid_gid = cfg_increment_uid_gid config,
          b_writer = w, b_superblock = zeroed_superblock, b_block_size_bits = 12,
          b_cur_data_block = 1, b_meta_block = None, b_name_buf = [], b_n_dirs = 0, b_n_inodes = 0,
          b_links = [], b_inode_addr = 0, b_stats = zero_stats, b_max_depth = MAX_DEPTH,
          b_max_file_size = (case cfg_max_file_size config of None \<Rightarrow> 2 ^ 64 - 1 | Some n \<Rightarrow> n),
          b_cur_file_size = 0\<rparr>
      in b\<lparr>b_writer := seek_start (block_addr b (b_cur_data_block b)) w\<rparr>)"

section \<open>Writing\<close>

definition bwrite :: "bytes \<Rightarrow> unit bst" where
  "bwrite bs = st_modify (\<lambda>b. b\<lparr>b_writer := write_all bs (b_writer b)\<rparr>)"

definition bseek :: "nat \<Rightarrow> unit bst" where
  "bseek off = st_modify (\<lambda>b. b\<lparr>b_writer := seek_start off (b_writer b)\<rparr>)"

definition seek_block :: "nat \<Rightarrow> unit bst" where
  "seek_block block = st_with (\<lambda>b.
     if b_cur_data_block b \<noteq> block
     then st_seq (bseek (block_addr b block)) (st_modify (\<lambda>b. b\<lparr>b_cur_data_block := block\<rparr>))
     else st_ok ())"

definition zero_fill :: "nat \<Rightarrow> nat \<Rightarrow> nat bst" where
  "zero_fill written alignment =
     (let rem = written mod alignment
      in if rem \<noteq> 0
         then (let n = alignment - rem
               in st_seq (st_modify (\<lambda>b. b\<lparr>b_stats := (b_stats b)
                      \<lparr>st_block_end_padding := st_block_end_padding (b_stats b) + n\<rparr>\<rparr>))
                  (st_seq (bwrite (replicate n 0)) (st_ok n)))
         else st_ok 0)"

definition zero_fill_block :: "nat \<Rightarrow> nat bst" where
  "zero_fill_block written = st_with (\<lambda>b. zero_fill written (block_size b))"

definition addr_to_disk_id :: "builder \<Rightarrow> nat \<Rightarrow> (u32, build_error) result" where
  "addr_to_disk_id b addr =
     bindr (ok_or NoMetaBlock (b_meta_block b)) (\<lambda>meta_block.
       (let meta_addr = block_addr b meta_block
        in if addr < meta_addr then Err AddrLessThanMetaBlock
           else (let offset = addr - meta_addr
                 in if offset mod INODE_ALIGNMENT \<noteq> 0 then Err AddrNotAligned
                    else if offset div INODE_ALIGNMENT < 2 ^ 32
                    then Ok (of_nat (offset div INODE_ALIGNMENT))
                    else Err DiskIdTooBig)))"

section \<open>Adding entries\<close>

definition size_tail_len :: "nat \<Rightarrow> u8 \<Rightarrow> nat \<times> nat \<times> nat" where
  "size_tail_len len block_size_bits =
     (let bs = shl64 1 (unat block_size_bits);
          n_blocks = len div bs;
          tail_len = len mod bs
      in if bs div 2 < tail_len then (n_blocks + 1, len, 0)
         else (n_blocks, n_blocks * bs, tail_len))"

definition make_mode :: "(file_type \<Rightarrow> u32) \<Rightarrow> file_type \<Rightarrow> u32 \<Rightarrow> (u16, build_error) result" where
  "make_mode as_raw_mode t mode =
     (let r = as_raw_mode t OR mode
      in if 0xffff < r then Err ModeShouldFitInU16 else Ok (ucast r))"

definition checked_add_u32 :: "u32 \<Rightarrow> u32 \<Rightarrow> u32 option" where
  "checked_add_u32 a b = (if unat a + unat b < 2 ^ 32 then Some (a + b) else None)"

definition hook_meta :: "builder \<Rightarrow> meta \<Rightarrow> (meta, build_error) result" where
  "hook_meta b m =
     (case b_increment_uid_gid b of
        None \<Rightarrow> Ok m
      | Some inc \<Rightarrow>
          bindr (ok_or UidGidTooBig (checked_add_u32 (m_uid m) inc)) (\<lambda>uid.
          bindr (ok_or UidGidTooBig (checked_add_u32 (m_gid m) inc)) (\<lambda>gid.
            Ok (m\<lparr>m_uid := uid, m_gid := gid\<rparr>))))"

text \<open>\<open>self.root.as_mut().expect("not none")\<close> followed by an operation on the tree.\<close>

definition on_root :: "'a dir_op \<Rightarrow> 'a bst" where
  "on_root f b =
     (case b_root b of
        None \<Rightarrow> (Err BuildPanic, b)
      | Some root \<Rightarrow> (case f root of (r, root') \<Rightarrow> (r, b\<lparr>b_root := Some root'\<rparr>)))"

definition start_block_of :: "nat \<Rightarrow> u32 bst" where
  "start_block_of block_len = st_with (\<lambda>b.
     if 0 < block_len
     then (if b_cur_data_block b < 2 ^ 32 then st_ok (of_nat (b_cur_data_block b))
           else st_err BlockNoTooBig)
     else st_ok EROFS_NULL_ADDR)"

definition new_file :: "meta \<Rightarrow> u32 \<Rightarrow> nat \<Rightarrow> bytes option \<Rightarrow> u32 \<Rightarrow> file_entry" where
  "new_file m start_block len tail n_links =
     \<lparr>f_meta = m, f_start_block = start_block, f_n_links = n_links, f_len = len, f_tail = tail,
      f_disk_id = None\<rparr>"

text \<open>
  \<open>contents\<close> is what the reader still yields: \<open>io::copy\<close> of \<open>take(block_len)\<close> copies what there
  is, and \<open>read_exact\<close> fails when the tail is cut short.
\<close>

definition add_file :: "bytes \<Rightarrow> meta \<Rightarrow> nat \<Rightarrow> bytes \<Rightarrow> unit bst" where
  "add_file path m len contents = st_with (\<lambda>b.
     if b_max_file_size b \<le> min (b_cur_file_size b + len) (2 ^ 64 - 1) then st_err MaxSizeExceeded
     else (case size_tail_len len (b_block_size_bits b) of
       (n_blocks, block_len, tail_len) \<Rightarrow>
         st_bind (start_block_of block_len) (\<lambda>start_block.
         st_seq
           (if 0 < block_len
            then st_seq (bwrite (take block_len contents))
                (st_seq (st_modify (\<lambda>b. b\<lparr>b_cur_data_block := b_cur_data_block b + n_blocks\<rparr>))
                (st_seq (zero_fill_block block_len) (st_ok ())))
            else st_ok ())
         (st_bind
           (let rest = (if 0 < block_len then drop block_len contents else contents)
            in if 0 < tail_len
               then (if length rest < tail_len then st_err BuildIo
                     else st_ok (Some (take tail_len rest)))
               else st_ok None) (\<lambda>tail.
          st_bind (st_with (\<lambda>b. st_lift (hook_meta b m))) (\<lambda>m'.
            on_root (root_add_file path (new_file m' start_block len tail 1))))))))"

definition upsert_dir :: "bytes \<Rightarrow> meta \<Rightarrow> unit bst" where
  "upsert_dir path m =
     st_bind (st_with (\<lambda>b. st_lift (hook_meta b m))) (\<lambda>m'. on_root (root_upsert_dir path m'))"

definition add_symlink :: "bytes \<Rightarrow> bytes \<Rightarrow> meta \<Rightarrow> unit bst" where
  "add_symlink path link m = st_with (\<lambda>b.
     let len = length link
     in case size_tail_len len (b_block_size_bits b) of
       (n_blocks, block_len, tail_len) \<Rightarrow>
         st_bind (start_block_of block_len) (\<lambda>start_block.
         st_seq
           (if 0 < block_len
            then st_seq (bwrite (take block_len link))
                (st_seq (zero_fill_block block_len)
                 (st_modify (\<lambda>b. b\<lparr>b_cur_data_block := b_cur_data_block b + n_blocks\<rparr>)))
            else st_ok ())
         (let tail = (if 0 < tail_len then Some (drop block_len link) else None)
          in st_bind (st_with (\<lambda>b. st_lift (hook_meta b m))) (\<lambda>m'.
               on_root (root_add_symlink path (new_file m' start_block len tail 1))))))"

definition add_link :: "bytes \<Rightarrow> bytes \<Rightarrow> meta \<Rightarrow> unit bst" where
  "add_link path target m =
     st_modify (\<lambda>b. b\<lparr>b_links := b_links b @ [(path, target, m)]\<rparr>)"

section \<open>Inodes\<close>

definition make_inode ::
    "(file_type \<Rightarrow> u32) \<Rightarrow> file_type \<Rightarrow> nat \<Rightarrow> u32 \<Rightarrow> meta \<Rightarrow> bytes option \<Rightarrow> u32 \<Rightarrow>
       (inode_extended, build_error) result" where
  "make_inode as_raw_mode t sz start_block m tail n_links =
     (let l = (if tail \<noteq> None then FlatInline else FlatPlain)
      in mapr (\<lambda>mode. zeroed_inode_extended
             \<lparr>ie_format_layout := format_layout InodeExtendedT l, ie_mode := mode,
              ie_uid := m_uid m, ie_gid := m_gid m, ie_mtime := m_mtime m, ie_nlink := n_links,
              ie_info := new_raw_blkaddr start_block, ie_size := of_nat sz\<rparr>)
           (make_mode as_raw_mode t (m_mode m)))"

definition make_xattr_entry :: "bytes \<times> bytes \<Rightarrow> (nat \<times> xattr_entry, build_error) result" where
  "make_xattr_entry kv =
     (case kv of (key, val) \<Rightarrow>
       (case (case xattr_builtin_prefix key of
                Some x \<Rightarrow> (xp_id x, unat (xp_len x)) | None \<Rightarrow> (0, 0)) of
          (prefix_id, prefix_len) \<Rightarrow>
            if length key < prefix_len then Err BuildPanic
            else if 255 < length key - prefix_len then Err XattrKeyTooLong
            else if 65535 < length val then Err XattrValueTooLong
            else Ok (prefix_len,
                   \<lparr>xe_name_len = of_nat (length key - prefix_len), xe_name_index = prefix_id,
                    xe_value_size = of_nat (length val)\<rparr>)))"

fun make_xattr_entries :: "xattr_map \<Rightarrow> ((nat \<times> xattr_entry) list, build_error) result" where
  "make_xattr_entries [] = Ok []"
| "make_xattr_entries (kv # xs) =
     bindr (make_xattr_entry kv) (\<lambda>e. mapr (Cons e) (make_xattr_entries xs))"

fun inode_set_xattr_count :: "u16 \<Rightarrow> build_inode \<Rightarrow> build_inode" where
  "inode_set_xattr_count c (BCompact x) = BCompact (x\<lparr>ic_xattr_count := c\<rparr>)"
| "inode_set_xattr_count c (BExtended x) = BExtended (x\<lparr>ie_xattr_count := c\<rparr>)"

fun build_inode_bytes :: "build_inode \<Rightarrow> bytes" where
  "build_inode_bytes (BCompact x) = enc_inode_compact x"
| "build_inode_bytes (BExtended x) = enc_inode_extended x"

fun write_xattr_entries :: "(nat \<times> xattr_entry) list \<Rightarrow> xattr_map \<Rightarrow> unit bst" where
  "write_xattr_entries ((prefix_len, entry) # es) ((key, val) # kvs) =
     st_seq (bwrite (enc_xattr_entry entry))
       (st_bind (st_lift (ok_or BuildOob (get_from prefix_len key))) (\<lambda>name.
        st_seq (bwrite name) (st_seq (bwrite val) (write_xattr_entries es kvs))))"
| "write_xattr_entries _ _ = st_ok ()"

text \<open>Advance to the next block when the inode with its attributes and tail would not fit.\<close>

definition place_inode :: "nat \<Rightarrow> unit bst" where
  "place_inode total_len = st_with (\<lambda>b.
     let block_no1 = block_no b (b_inode_addr b);
         block_no2 = block_no b (b_inode_addr b + total_len)
     in if block_no1 \<noteq> block_no2
        then st_seq (zero_fill_block (b_inode_addr b))
               (st_modify (\<lambda>b. b\<lparr>b_inode_addr := block_addr b block_no2\<rparr>))
        else st_ok ())"

definition write_xattrs :: "(nat \<times> xattr_entry) list \<Rightarrow> nat \<Rightarrow> xattr_map \<Rightarrow> unit bst" where
  "write_xattrs entries padding xattrs =
     (if xattrs = [] then st_ok ()
      else st_seq (bwrite (enc_xattr_header zeroed_xattr_header))
          (st_seq (write_xattr_entries entries xattrs) (bwrite (replicate padding 0))))"

definition write_tail :: "bytes option \<Rightarrow> unit bst" where
  "write_tail tail =
     (case tail of
        None \<Rightarrow> st_ok ()
      | Some t \<Rightarrow>
          st_seq (st_modify (\<lambda>b. b\<lparr>b_stats := (b_stats b)
              \<lparr>st_tails := st_tails (b_stats b) + 1,
               st_tail_size := st_tail_size (b_stats b) + length t\<rparr>\<rparr>)) (bwrite t))"

definition write_inode :: "build_inode \<Rightarrow> bytes option \<Rightarrow> xattr_map \<Rightarrow> u32 bst" where
  "write_inode inode0 tail xattrs =
     st_seq (st_modify (\<lambda>b. b\<lparr>b_n_inodes := b_n_inodes b + 1\<rparr>))
     (st_bind (st_lift (make_xattr_entries xattrs)) (\<lambda>entries.
      (let xc = xattr_count (map snd entries)
       in if 65535 < xc_xattr_count xc then st_err TooManyXattrs
          else
            (let count = of_nat (xc_xattr_count xc);
                 xattr_len = xattr_count_to_len count;
                 data = build_inode_bytes (inode_set_xattr_count count inode0);
                 total_len = length data + xattr_len + (case tail of None \<Rightarrow> 0 | Some t \<Rightarrow> length t)
             in st_with (\<lambda>b0.
                  if block_size b0 < total_len then st_err BuildInodeTooBig
                  else
                    st_seq (place_inode total_len)
                    (st_bind (st_with (\<lambda>b. st_lift (addr_to_disk_id b (b_inode_addr b)))) (\<lambda>disk_id.
                     st_seq (bwrite data)
                    (st_seq (write_xattrs entries (xc_padding xc) xattrs)
                    (st_seq (write_tail tail)
                    (st_bind (zero_fill total_len INODE_ALIGNMENT) (\<lambda>padding.
                     st_seq (st_modify (\<lambda>b. b\<lparr>b_inode_addr := b_inode_addr b + (total_len + padding)\<rparr>))
                       (st_ok disk_id))))))))))))"

section \<open>Directory blocks\<close>

text \<open>
  The loop of \<open>prepare_dirent_data\<close> over the names: \<open>len\<close> bytes and \<open>count\<close> entries are in the
  block being filled, \<open>acc\<close> holds the counts of the finished blocks.
\<close>

fun prepare_names :: "nat \<Rightarrow> bytes list \<Rightarrow> nat \<Rightarrow> nat \<Rightarrow> nat list \<Rightarrow> nat \<times> nat \<times> nat list" where
  "prepare_names bs [] len count acc = (len, count, acc)"
| "prepare_names bs (name # names) len count acc =
     (let name_start = len + 12;
          additional_len = 12 + length name;
          next_len = len + additional_len
      in if bs < next_len \<or> 65535 < name_start
         then prepare_names bs names additional_len 1 (acc @ [count])
         else prepare_names bs names next_len ((count + 1) mod 2 ^ 16) acc)"

definition prepare_dirent_data ::
    "nat \<Rightarrow> nat \<Rightarrow> dir \<Rightarrow> (nat, build_error) result \<times> dir" where
  "prepare_dirent_data bs start_block d =
     (case d of Dir children m disk_id _ n_per_block _ \<Rightarrow>
       if 2 ^ 32 \<le> start_block then (Err BlockNoTooBig, d)
       else
         (case prepare_names bs (map fst children) 0 0 n_per_block of
            (len, count, counts) \<Rightarrow>
              (let (counts', total_size) =
                     (if count \<noteq> 0 then (counts @ [count], bs * length counts + len)
                      else (counts, bs * length counts));
                   d' = Dir children m disk_id (of_nat start_block) counts' total_size
               in if length children \<noteq> sum_list counts' then (Err BuildPanic, d')
                  else (Ok (length counts'), d'))))"

fun entry_disk_id :: "u32 option \<Rightarrow> u32 list \<Rightarrow> dirent \<Rightarrow> u32 option" where
  "entry_disk_id own parents (File f) = f_disk_id f"
| "entry_disk_id own parents (SubDir d) = d_disk_id d"
| "entry_disk_id own parents (Symlink s) = f_disk_id s"
| "entry_disk_id own parents Dot = own"
| "entry_disk_id own parents DotDot = (if parents = [] then own else Some (last parents))"

text \<open>
  The inner loop of the directory writer: \<open>n\<close> entries starting with the next child, their names
  collected in the name buffer. It returns the children that are left and the bytes written.
\<close>

fun write_dirent_entries ::
    "nat \<Rightarrow> u32 option \<Rightarrow> u32 list \<Rightarrow> (bytes \<times> dirent) list \<Rightarrow> nat \<Rightarrow> nat \<Rightarrow>
       ((bytes \<times> dirent) list \<times> nat) bst" where
  "write_dirent_entries 0 own parents children name_offset written = st_ok (children, written)"
| "write_dirent_entries (Suc n) own parents children name_offset written =
     (case children of
        [] \<Rightarrow> st_err BuildPanic
      | (name, child) # children' \<Rightarrow>
          st_bind (st_lift (ok_or NoDiskId (entry_disk_id own parents child))) (\<lambda>disk_id.
            if 65535 < name_offset then st_err NameOffsetTooBig
            else
              (let dirent = \<lparr>dd_disk_id = ucast disk_id, dd_name_offset = of_nat name_offset,
                     dd_file_type = u8_of_dirent_file_type (dirent_file_type child),
                     dd_reserved = 0\<rparr>
               in st_seq (bwrite (enc_disk_dirent dirent))
                 (st_seq (st_modify (\<lambda>b. b\<lparr>b_name_buf := b_name_buf b @ name\<rparr>))
                    (write_dirent_entries n own parents children' (name_offset + length name)
                       (written + 12))))))"

fun write_dirent_blocks ::
    "nat list \<Rightarrow> u32 option \<Rightarrow> u32 list \<Rightarrow> (bytes \<times> dirent) list \<Rightarrow> unit bst" where
  "write_dirent_blocks [] own parents children = st_ok ()"
| "write_dirent_blocks (count # counts) own parents children =
     st_bind (write_dirent_entries count own parents children (count * 12) 0) (\<lambda>(rest, written).
       st_with (\<lambda>b. st_seq (bwrite (b_name_buf b))
         (st_seq (zero_fill_block (written + length (b_name_buf b)))
         (st_seq (st_modify (\<lambda>b. b\<lparr>b_cur_data_block := b_cur_data_block b + 1, b_name_buf := []\<rparr>))
            (write_dirent_blocks counts own parents rest)))))"

section \<open>Walking the tree\<close>

text \<open>
  The trait \<open>TreeVisitor\<close>: each method gets the node and the visitor's state and returns its
  result with both as it leaves them. \<open>default_visitor\<close> has the trait's default methods.
\<close>

record 's tree_visitor =
  on_file :: "file_entry \<Rightarrow> 's \<Rightarrow> (unit, build_error) result \<times> file_entry \<times> 's"
  on_symlink :: "symlink_entry \<Rightarrow> 's \<Rightarrow> (unit, build_error) result \<times> symlink_entry \<times> 's"
  on_dir_exit :: "dir \<Rightarrow> 's \<Rightarrow> (unit, build_error) result \<times> dir \<times> 's"
  on_dir_enter :: "dir \<Rightarrow> 's \<Rightarrow> (unit, build_error) result \<times> dir \<times> 's"

definition default_visitor :: "'s tree_visitor" where
  "default_visitor =
     \<lparr>on_file = \<lambda>f s. (Ok (), f, s), on_symlink = \<lambda>l s. (Ok (), l, s),
      on_dir_exit = \<lambda>d s. (Ok (), d, s), on_dir_enter = \<lambda>d s. (Ok (), d, s)\<rparr>"

definition visit_child ::
    "'s tree_visitor \<Rightarrow> (dir \<Rightarrow> 's \<Rightarrow> (unit, build_error) result \<times> dir \<times> 's) \<Rightarrow>
       dirent \<Rightarrow> 's \<Rightarrow> (unit, build_error) result \<times> dirent \<times> 's" where
  "visit_child v recur child s =
     (case child of
        File f \<Rightarrow> (case on_file v f s of (r, f', s') \<Rightarrow> (r, File f', s'))
      | Symlink l \<Rightarrow> (case on_symlink v l s of (r, l', s') \<Rightarrow> (r, Symlink l', s'))
      | SubDir d \<Rightarrow> (case recur d s of (r, d', s') \<Rightarrow> (r, SubDir d', s'))
      | _ \<Rightarrow> (Ok (), child, s))"

fun visit_children ::
    "'s tree_visitor \<Rightarrow> (dir \<Rightarrow> 's \<Rightarrow> (unit, build_error) result \<times> dir \<times> 's) \<Rightarrow>
       (bytes \<times> dirent) list \<Rightarrow> 's \<Rightarrow> (unit, build_error) result \<times> (bytes \<times> dirent) list \<times> 's" where
  "visit_children v recur [] s = (Ok (), [], s)"
| "visit_children v recur ((name, child) # cs) s =
     (case visit_child v recur child s of
        (Err e, child', s') \<Rightarrow> (Err e, (name, child') # cs, s')
      | (Ok _, child', s') \<Rightarrow>
          (case visit_children v recur cs s' of (r, cs', s'') \<Rightarrow> (r, (name, child') # cs', s'')))"

text \<open>\<open>recur\<close> of \<open>walk_tree\<close>; the argument is the depth that is left, \<open>max_depth - depth\<close>.\<close>

primrec walk_recur ::
    "nat \<Rightarrow> 's tree_visitor \<Rightarrow> dir \<Rightarrow> 's \<Rightarrow> (unit, build_error) result \<times> dir \<times> 's" where
  "walk_recur 0 v d s = (Err MaxDepthExceeded, d, s)"
| "walk_recur (Suc n) v d s =
     (case on_dir_enter v d s of
        (Err e, d1, s1) \<Rightarrow> (Err e, d1, s1)
      | (Ok _, d1, s1) \<Rightarrow>
          (case visit_children v (walk_recur n v) (d_children d1) s1 of
             (r, cs, s2) \<Rightarrow>
               (let d2 = set_children cs d1
                in case r of Err e \<Rightarrow> (Err e, d2, s2) | Ok _ \<Rightarrow> on_dir_exit v d2 s2)))"

definition walk_tree ::
    "dir \<Rightarrow> 's tree_visitor \<Rightarrow> nat \<Rightarrow> 's \<Rightarrow> (unit, build_error) result \<times> dir \<times> 's" where
  "walk_tree d v max_depth s = walk_recur max_depth v d s"

section \<open>The four visitors\<close>

definition prepare_dirents_enter ::
    "dir \<Rightarrow> builder \<Rightarrow> (unit, build_error) result \<times> dir \<times> builder" where
  "prepare_dirents_enter d b =
     (case prepare_dirent_data (block_size b) (b_cur_data_block b) d of
        (Err e, d') \<Rightarrow> (Err e, d', b)
      | (Ok n_blocks, d') \<Rightarrow>
          (Ok (), d', b\<lparr>b_n_dirs := b_n_dirs b + 1,
             b_stats := (b_stats b)\<lparr>st_dirs := st_dirs (b_stats b) + 1\<rparr>,
             b_cur_data_block := b_cur_data_block b + n_blocks\<rparr>))"

definition visitor_prepare_dirents :: "builder tree_visitor" where
  "visitor_prepare_dirents = default_visitor\<lparr>on_dir_enter := prepare_dirents_enter\<rparr>"

definition write_dir_inode ::
    "(file_type \<Rightarrow> u32) \<Rightarrow> dir \<Rightarrow> builder \<Rightarrow> (unit, build_error) result \<times> dir \<times> builder" where
  "write_dir_inode as_raw_mode d b =
     (case st_bind
             (st_lift (make_inode as_raw_mode FtDirectory (d_total_size d) (d_start_block d)
                (d_meta d) None 1))
             (\<lambda>i. write_inode (BExtended i) None (m_xattrs (d_meta d))) b of
        (Err e, b') \<Rightarrow> (Err e, d, b')
      | (Ok disk_id, b') \<Rightarrow>
          (if d_disk_id d \<noteq> None then (Err BuildPanic, set_disk_id (Some disk_id) d, b')
           else (Ok (), set_disk_id (Some disk_id) d, b')))"

definition visitor_write_dir_inodes :: "(file_type \<Rightarrow> u32) \<Rightarrow> builder tree_visitor" where
  "visitor_write_dir_inodes as_raw_mode =
     default_visitor\<lparr>on_dir_enter := write_dir_inode as_raw_mode\<rparr>"

text \<open>\<open>on_file\<close> and \<open>on_symlink\<close> differ in the type bits and in the counter they advance.\<close>

definition write_file_inode ::
    "(file_type \<Rightarrow> u32) \<Rightarrow> file_type \<Rightarrow> (stats \<Rightarrow> stats) \<Rightarrow> file_entry \<Rightarrow> builder \<Rightarrow>
       (unit, build_error) result \<times> file_entry \<times> builder" where
  "write_file_inode as_raw_mode t count f b =
     (case st_bind
             (st_lift (make_inode as_raw_mode t (f_len f) (f_start_block f) (f_meta f) (f_tail f)
                (f_n_links f)))
             (\<lambda>i. write_inode (BExtended i) (f_tail f) (m_xattrs (f_meta f)))
             (b\<lparr>b_stats := count (b_stats b)\<rparr>) of
        (Err e, b') \<Rightarrow> (Err e, f, b')
      | (Ok disk_id, b') \<Rightarrow>
          (if f_disk_id f \<noteq> None then (Err BuildPanic, f\<lparr>f_disk_id := Some disk_id\<rparr>, b')
           else (Ok (), f\<lparr>f_disk_id := Some disk_id\<rparr>, b')))"

definition visitor_write_inodes :: "(file_type \<Rightarrow> u32) \<Rightarrow> builder tree_visitor" where
  "visitor_write_inodes as_raw_mode =
     default_visitor
       \<lparr>on_file := write_file_inode as_raw_mode FtRegularFile (\<lambda>s. s\<lparr>st_files := st_files s + 1\<rparr>),
        on_symlink := write_file_inode as_raw_mode FtSymlink
          (\<lambda>s. s\<lparr>st_symlinks := st_symlinks s + 1\<rparr>)\<rparr>"

definition write_dirents_enter ::
    "dir \<Rightarrow> builder \<times> u32 list \<Rightarrow> (unit, build_error) result \<times> dir \<times> (builder \<times> u32 list)" where
  "write_dirents_enter d s =
     (case s of (b, parents) \<Rightarrow>
       (case st_seq (seek_block (unat (d_start_block d)))
               (write_dirent_blocks (d_n_dirents_per_block d) (d_disk_id d) parents (d_children d))
               b of
          (Err e, b') \<Rightarrow> (Err e, d, (b', parents))
        | (Ok _, b') \<Rightarrow>
            (case d_disk_id d of
               None \<Rightarrow> (Err NoDiskId, d, (b', parents))
             | Some i \<Rightarrow> (Ok (), d, (b', parents @ [i])))))"

definition visitor_write_dirents :: "(builder \<times> u32 list) tree_visitor" where
  "visitor_write_dirents =
     default_visitor\<lparr>on_dir_enter := write_dirents_enter,
       on_dir_exit := (\<lambda>d (b, parents). (Ok (), d, (b, butlast parents)))\<rparr>"

section \<open>Finishing\<close>

text \<open>One pass over the tree; a failed pass drops the tree, as the code does not put it back.\<close>

definition write_inodes :: "(file_type \<Rightarrow> u32) \<Rightarrow> unit bst" where
  "write_inodes as_raw_mode b0 =
     (case b_root b0 of
        None \<Rightarrow> (Err BuildPanic, b0)
      | Some root0 \<Rightarrow>
     (case walk_tree root0 visitor_prepare_dirents (b_max_depth b0) (b0\<lparr>b_root := None\<rparr>) of
        (Err e, _, b1) \<Rightarrow> (Err e, b1)
      | (Ok _, root1, b1) \<Rightarrow>
     (let meta_block = b_cur_data_block b1;
          b2 = b1\<lparr>b_meta_block := Some meta_block, b_inode_addr := block_addr b1 meta_block,
                  b_writer := seek_start (block_addr b1 meta_block) (b_writer b1)\<rparr>
      in case walk_tree root1 (visitor_write_dir_inodes as_raw_mode) (b_max_depth b0) b2 of
        (Err e, _, b3) \<Rightarrow> (Err e, b3)
      | (Ok _, root2, b3) \<Rightarrow>
     (case walk_tree root2 (visitor_write_inodes as_raw_mode) (b_max_depth b0) b3 of
        (Err e, _, b4) \<Rightarrow> (Err e, b4)
      | (Ok _, root3, b4) \<Rightarrow>
     (case walk_tree root3 visitor_write_dirents (b_max_depth b0) (b4, []) of
        (Err e, _, (b5, _)) \<Rightarrow> (Err e, b5)
      | (Ok _, root4, (b5, _)) \<Rightarrow> (Ok (), b5\<lparr>b_root := Some root4\<rparr>))))))"

fun link_target :: "dirent \<Rightarrow> (u32 \<times> nat \<times> bytes option, build_error) result \<times> dirent" where
  "link_target (File f) =
     (Ok (f_start_block f, f_len f, f_tail f), File (f\<lparr>f_n_links := f_n_links f + 1\<rparr>))"
| "link_target (Symlink s) =
     (Ok (f_start_block s, f_len s, f_tail s), Symlink (s\<lparr>f_n_links := f_n_links s + 1\<rparr>))"
| "link_target e = (Err HardlinkToDir, e)"

fun resolve_each :: "(bytes \<times> bytes \<times> meta) list \<Rightarrow> unit bst" where
  "resolve_each [] = st_ok ()"
| "resolve_each ((path, target, m) # links) =
     st_bind (on_root (root_get_mut target link_target)) (\<lambda>r.
     st_bind (st_lift (ok_or HardlinkNotResolved r)) (\<lambda>(start_block, len, tail).
     st_seq (on_root (root_add_file path (new_file m start_block len tail 2)))
       (resolve_each links)))"

definition resolve_links :: "unit bst" where
  "resolve_links = st_with (\<lambda>b.
     if b_root b = None then st_err BuildPanic
     else st_seq (st_modify (\<lambda>b. b\<lparr>b_links := []\<rparr>)) (resolve_each (b_links b)))"

definition set_sb :: "(superblock \<Rightarrow> superblock) \<Rightarrow> unit bst" where
  "set_sb f = st_modify (\<lambda>b. b\<lparr>b_superblock := f (b_superblock b)\<rparr>)"

definition root_disk_id_u16 :: "builder \<Rightarrow> (u16, build_error) result" where
  "root_disk_id_u16 b =
     bindr (ok_or BuildPanic (b_root b)) (\<lambda>root.
     bindr (ok_or NoRootDiskId (d_disk_id root)) (\<lambda>i.
       if unat i < 2 ^ 16 then Ok (ucast i) else Err RootDiskIdTooBig))"

definition write_superblock :: "unit bst" where
  "write_superblock =
     st_seq (st_with (\<lambda>b. set_sb (\<lambda>sb. sb\<lparr>sb_magic := EROFS_SUPER_MAGIG_V1,
         sb_blkszbits := b_block_size_bits b\<rparr>)))
     (st_bind (st_with (\<lambda>b. st_lift (bindr (ok_or NoMetaBlock (b_meta_block b)) (\<lambda>n.
         if n < 2 ^ 32 then Ok n else Err MetaBlockTooBig)))) (\<lambda>n.
      st_seq (set_sb (\<lambda>sb. sb\<lparr>sb_meta_blkaddr := of_nat n\<rparr>))
     (st_bind (st_with (\<lambda>b. st_lift (root_disk_id_u16 b))) (\<lambda>i.
      st_seq (st_with (\<lambda>b. set_sb (\<lambda>sb. sb\<lparr>sb_root_disk_id := i, sb_inos := of_nat (b_n_inodes b)\<rparr>)))
     (st_seq (bseek EROFS_SUPER_OFFSET)
        (st_with (\<lambda>b. bwrite (enc_superblock (b_superblock b)))))))))"

definition finalize :: "(file_type \<Rightarrow> u32) \<Rightarrow> unit bst" where
  "finalize as_raw_mode = st_seq resolve_links (st_seq (write_inodes as_raw_mode) write_superblock)"

definition into_inner ::
    "(file_type \<Rightarrow> u32) \<Rightarrow> builder \<Rightarrow> (stats \<times> writer, build_error) result" where
  "into_inner as_raw_mode b =
     (case finalize as_raw_mode b of
        (Err e, _) \<Rightarrow> Err e
      | (Ok _, b') \<Rightarrow> Ok (b_stats b', b_writer b'))"

section \<open>Running the operations\<close>

lemma bwrite_run:
  "st_seq (bwrite bs) m b = m (b\<lparr>b_writer := write_all bs (b_writer b)\<rparr>)"
  "bwrite bs b = (Ok (), b\<lparr>b_writer := write_all bs (b_writer b)\<rparr>)"
  by (simp_all add: st_bind_def st_seq_def st_defs bwrite_def)

declare st_run [simp] bwrite_run [simp]

text \<open>Updates of different fields in a fixed order, so that equal states look equal.\<close>

lemma builder_norm [simp]:
  "b\<lparr>b_cur_data_block := x0, b_writer := y0\<rparr> = b\<lparr>b_writer := y0, b_cur_data_block := x0\<rparr>"
  "b\<lparr>b_name_buf := x1, b_writer := y1\<rparr> = b\<lparr>b_writer := y1, b_name_buf := x1\<rparr>"
  "b\<lparr>b_n_inodes := x2, b_writer := y2\<rparr> = b\<lparr>b_writer := y2, b_n_inodes := x2\<rparr>"
  "b\<lparr>b_inode_addr := x3, b_writer := y3\<rparr> = b\<lparr>b_writer := y3, b_inode_addr := x3\<rparr>"
  "b\<lparr>b_stats := x4, b_writer := y4\<rparr> = b\<lparr>b_writer := y4, b_stats := x4\<rparr>"
  "b\<lparr>b_name_buf := x5, b_cur_data_block := y5\<rparr> = b\<lparr>b_cur_data_block := y5, b_name_buf := x5\<rparr>"
  "b\<lparr>b_n_inodes := x6, b_cur_data_block := y6\<rparr> = b\<lparr>b_cur_data_block := y6, b_n_inodes := x6\<rparr>"
  "b\<lparr>b_inode_addr := x7, b_cur_data_block := y7\<rparr> = b\<lparr>b_cur_data_block := y7, b_inode_addr := x7\<rparr>"
  "b\<lparr>b_stats := x8, b_cur_data_block := y8\<rparr> = b\<lparr>b_cur_data_block := y8, b_stats := x8\<rparr>"
  "b\<lparr>b_n_inodes := x9, b_name_buf := y9\<rparr> = b\<lparr>b_name_buf := y9, b_n_inodes := x9\<rparr>"
  "b\<lparr>b_inode_addr := x10, b_name_buf := y10\<rparr> = b\<lparr>b_name_buf := y10, b_inode_addr := x10\<rparr>"
  "b\<lparr>b_stats := x11, b_name_buf := y11\<rparr> = b\<lparr>b_name_buf := y11, b_stats := x11\<rparr>"
  "b\<lparr>b_inode_addr := x12, b_n_inodes := y12\<rparr> = b\<lparr>b_n_inodes := y12, b_inode_addr := x12\<rparr>"
  "b\<lparr>b_stats := x13, b_n_inodes := y13\<rparr> = b\<lparr>b_n_inodes := y13, b_stats := x13\<rparr>"
  "b\<lparr>b_stats := x14, b_inode_addr := y14\<rparr> = b\<lparr>b_inode_addr := y14, b_stats := x14\<rparr>"
  by simp_all

end
