(* ===== verification/Squash.thy ===== *)
theory Squash
  imports Deletions Erofs_Build
begin

text \<open>
  Squashing the layers of an image, \<open>peimage/src/squash.rs\<close>: recognising whiteouts, the walk over
  the layers from the top one down, and the callbacks that write the surviving entries to an
  archive or to an image. An archive of the crate \<open>tar\<close> is what its iterator yields, and an entry is
  what the calls on it return; opening a layer through a decompressor is an argument.
\<close>

section \<open>Archives\<close>

datatype entry_type = EtRegular | EtLink | EtSymlink | EtDirectory | EtOther u8

datatype squash_error =
    SqIo | OpaqueWhiteoutNoParent | HardlinkNoLink | XattrKeyUtf8Error | UidTooBig | GidTooBig
  | UnhandledEntryType entry_type | SqErofs build_error

record pax_extension =
  px_key :: bytes
  px_key_utf8 :: bool
  px_value :: bytes

record tar_entry =
  te_path :: "(bytes, squash_error) result"
  te_type :: entry_type
  te_link_name :: "(bytes option, squash_error) result"
  te_pax :: "((pax_extension, squash_error) result list option, squash_error) result"
  te_uid :: "(u64, squash_error) result"
  te_gid :: "(u64, squash_error) result"
  te_mtime :: "(u64, squash_error) result"
  te_mode :: "(u32, squash_error) result"
  te_size :: "(u64, squash_error) result"
  te_data :: bytes

type_synonym archive = "((tar_entry, squash_error) result list, squash_error) result"

type_synonym 'c entry_callback = "tar_entry \<Rightarrow> 'c \<Rightarrow> (unit, squash_error) result \<times> 'c"

section \<open>Whiteouts\<close>

datatype whiteout_kind = WhWhiteout bytes | WhOpaque bytes

definition whiteout :: "tar_entry \<Rightarrow> (whiteout_kind option, squash_error) result" where
  "whiteout entry =
     bindr (te_path entry) (\<lambda>path.
       case path_file_name path of
         None \<Rightarrow> Ok None
       | Some name \<Rightarrow>
           if starts_with name (ascii ''.wh..wh..opq'')
           then (case path_parent path of
                   Some parent \<Rightarrow> Ok (Some (WhOpaque parent))
                 | None \<Rightarrow> Err OpaqueWhiteoutNoParent)
           else if starts_with name (ascii ''.wh.'')
           then Ok (Some (WhWhiteout (path_with_file_name path (drop 4 name))))
           else Ok None)"

section \<open>Layers\<close>

record squash_stats =
  sq_deletions :: nat
  sq_deletion_dirs :: nat
  sq_opaques :: nat
  sq_shadowed :: nat
  sq_deletions_map_size :: nat

definition squash_stats_default :: squash_stats where
  "squash_stats_default =
     \<lparr>sq_deletions = 0, sq_deletion_dirs = 0, sq_opaques = 0, sq_shadowed = 0, sq_deletions_map_size = 0\<rparr>"

fun count_deletion :: "deletion_reason \<Rightarrow> squash_stats \<Rightarrow> squash_stats" where
  "count_deletion ReWhiteout s = s\<lparr>sq_deletions := sq_deletions s + 1\<rparr>"
| "count_deletion ReWhiteoutDir s = s\<lparr>sq_deletion_dirs := sq_deletion_dirs s + 1\<rparr>"
| "count_deletion ReOpaque s = s\<lparr>sq_opaques := sq_opaques s + 1\<rparr>"
| "count_deletion ReShadowed s = s\<lparr>sq_shadowed := sq_shadowed s + 1\<rparr>"

type_synonym ('d, 'c) squash_state = "squash_stats \<times> 'd \<times> 'c"

fun squash_entries ::
    "'d deletions_ops \<Rightarrow> 'c entry_callback \<Rightarrow> nat \<Rightarrow> (tar_entry, squash_error) result list \<Rightarrow>
       ('d, 'c) squash_state \<Rightarrow> (unit, squash_error) result \<times> ('d, 'c) squash_state" where
  "squash_entries ops cb i [] s = (Ok (), s)"
| "squash_entries ops cb i (Err e # es) s = (Err e, s)"
| "squash_entries ops cb i (Ok entry # es) (st, d, c) =
     (case whiteout entry of
        Err e \<Rightarrow> (Err e, (st, d, c))
      | Ok (Some (WhWhiteout path)) \<Rightarrow>
          squash_entries ops cb i es (st, if i \<noteq> 0 then push_whiteout ops path d else d, c)
      | Ok (Some (WhOpaque path)) \<Rightarrow>
          squash_entries ops cb i es (st, if i \<noteq> 0 then push_opaque ops path d else d, c)
      | Ok None \<Rightarrow>
          (case te_path entry of
             Err e \<Rightarrow> (Err e, (st, d, c))
           | Ok path \<Rightarrow>
               (case is_deleted ops path d of
                  Some reason \<Rightarrow> squash_entries ops cb i es (count_deletion reason st, d, c)
                | None \<Rightarrow>
                    (case cb entry c of
                       (Err e, c') \<Rightarrow> (Err e, (st, d, c'))
                     | (Ok _, c') \<Rightarrow>
                         squash_entries ops cb i es
                           (st, if i \<noteq> 0 then insert_seen ops path d else d, c')))))"

definition squash_layer ::
    "'d deletions_ops \<Rightarrow> 'c entry_callback \<Rightarrow> nat \<Rightarrow> archive \<Rightarrow>
       ('d, 'c) squash_state \<Rightarrow> (unit, squash_error) result \<times> ('d, 'c) squash_state" where
  "squash_layer ops cb i layer s =
     (case layer of
        Err e \<Rightarrow> (Err e, s)
      | Ok entries \<Rightarrow>
          (case squash_entries ops cb i entries s of
             (Err e, s') \<Rightarrow> (Err e, s')
           | (Ok _, (st, d, c)) \<Rightarrow> (Ok (), (st, if i \<noteq> 0 then end_of_layer ops d else d, c))))"

text \<open>The loop over the layers in the order they are processed, with the index of each.\<close>

fun squash_layers ::
    "'d deletions_ops \<Rightarrow> 'c entry_callback \<Rightarrow> (nat \<times> archive) list \<Rightarrow>
       ('d, 'c) squash_state \<Rightarrow> (unit, squash_error) result \<times> ('d, 'c) squash_state" where
  "squash_layers ops cb [] s = (Ok (), s)"
| "squash_layers ops cb ((i, layer) # layers) s =
     (case squash_layer ops cb i layer s of
        (Err e, s') \<Rightarrow> (Err e, s')
      | (Ok _, s') \<Rightarrow> squash_layers ops cb layers s')"

datatype compression = CompNone | CompGzip | CompZstd

text \<open>\<open>open_layer\<close> puts a reader behind the decompressor of its compression and opens the archive.\<close>

definition squash_cb ::
    "(compression \<Rightarrow> 'r \<Rightarrow> archive) \<Rightarrow> (compression \<times> 'r) list \<Rightarrow> 'c entry_callback \<Rightarrow> 'c \<Rightarrow>
       (squash_stats, squash_error) result \<times> 'c" where
  "squash_cb open_layer readers cb c =
     (case squash_layers os_string_ops cb
             (rev (map (\<lambda>(i, comp, r). (i, open_layer comp r)) (List.enumerate 0 readers)))
             (squash_stats_default, deletions_default, c) of
        (Err e, (_, _, c')) \<Rightarrow> (Err e, c')
      | (Ok _, (st, d, c')) \<Rightarrow> (Ok (st\<lparr>sq_deletions_map_size := length (del_map d)\<rparr>), c'))"

section \<open>To an archive\<close>

text \<open>The archive writer of the crate \<open>tar\<close>.\<close>

record 'w archive_builder =
  ab_append_pax :: "(bytes \<times> bytes) list \<Rightarrow> 'w \<Rightarrow> (unit, squash_error) result \<times> 'w"
  ab_append_link :: "tar_entry \<Rightarrow> bytes \<Rightarrow> bytes \<Rightarrow> 'w \<Rightarrow> (unit, squash_error) result \<times> 'w"
  ab_append_data :: "tar_entry \<Rightarrow> bytes \<Rightarrow> 'w \<Rightarrow> (unit, squash_error) result \<times> 'w"
  ab_finish :: "'w \<Rightarrow> (unit, squash_error) result \<times> 'w"

fun collect_pax ::
    "(pax_extension, squash_error) result list \<Rightarrow> ((bytes \<times> bytes) list, squash_error) result" where
  "collect_pax [] = Ok []"
| "collect_pax (Err e # xs) = Err e"
| "collect_pax (Ok x # xs) =
     (if px_key_utf8 x then mapr (Cons (px_key x, px_value x)) (collect_pax xs)
      else Err XattrKeyUtf8Error)"

definition on_entry_tar :: "'w archive_builder \<Rightarrow> 'w entry_callback" where
  "on_entry_tar ab entry =
     st_bind (st_lift (te_pax entry)) (\<lambda>pax.
     st_seq
       (case pax of
          None \<Rightarrow> st_ok ()
        | Some extensions \<Rightarrow> st_bind (st_lift (collect_pax extensions)) (\<lambda>acc. ab_append_pax ab acc))
       (if te_type entry \<in> {EtLink, EtSymlink}
        then st_bind (st_lift (te_path entry)) (\<lambda>path.
             st_bind (st_lift (bindr (te_link_name entry) (ok_or HardlinkNoLink))) (\<lambda>link.
               ab_append_link ab entry path link))
        else st_bind (st_lift (te_path entry)) (\<lambda>path. ab_append_data ab entry path)))"

definition squash_to_tar ::
    "'w archive_builder \<Rightarrow> (compression \<Rightarrow> 'r \<Rightarrow> archive) \<Rightarrow> (compression \<times> 'r) list \<Rightarrow> 'w \<Rightarrow>
       (squash_stats, squash_error) result \<times> 'w" where
  "squash_to_tar ab open_layer readers w =
     (case squash_cb open_layer readers (on_entry_tar ab) w of
        (Err e, w') \<Rightarrow> (Err e, w')
      | (Ok st, w') \<Rightarrow> (case ab_finish ab w' of (r, w'') \<Rightarrow> (mapr (\<lambda>_. st) r, w'')))"

section \<open>To an image\<close>

definition to_u32 :: "squash_error \<Rightarrow> u64 \<Rightarrow> (u32, squash_error) result" where
  "to_u32 e x = (if unat x < 2 ^ 32 then Ok (ucast x) else Err e)"

text \<open>\<open>Mode::from_raw_mode\<close> belongs to the crate \<open>rustix\<close>.\<close>

definition header_to_meta :: "(u32 \<Rightarrow> u32) \<Rightarrow> tar_entry \<Rightarrow> xattr_map \<Rightarrow> (meta, squash_error) result" where
  "header_to_meta mode_from_raw h xattrs =
     bindr (bindr (te_uid h) (to_u32 UidTooBig)) (\<lambda>uid.
     bindr (bindr (te_gid h) (to_u32 GidTooBig)) (\<lambda>gid.
     bindr (te_mtime h) (\<lambda>mtime.
     bindr (te_mode h) (\<lambda>mode.
       Ok \<lparr>m_uid = uid, m_gid = gid, m_mtime = mtime, m_mode = mode_from_raw mode, m_xattrs = xattrs\<rparr>))))"

fun collect_xattrs ::
    "(pax_extension, squash_error) result list \<Rightarrow> xattr_map \<Rightarrow> (xattr_map, squash_error) result" where
  "collect_xattrs [] m = Ok m"
| "collect_xattrs (Err e # xs) m = Err e"
| "collect_xattrs (Ok x # xs) m = collect_xattrs xs (bt_insert (px_key x) (px_value x) m)"

definition on_builder :: "unit bst \<Rightarrow> builder \<Rightarrow> (unit, squash_error) result \<times> builder" where
  "on_builder op b = (case op b of (r, b') \<Rightarrow> (map_err SqErofs r, b'))"

definition on_entry_erofs :: "(u32 \<Rightarrow> u32) \<Rightarrow> builder entry_callback" where
  "on_entry_erofs mode_from_raw entry =
     st_bind (st_lift (te_pax entry)) (\<lambda>pax.
     st_bind (st_lift (case pax of None \<Rightarrow> Ok [] | Some extensions \<Rightarrow> collect_xattrs extensions [])) (\<lambda>xattrs.
     st_bind (st_lift (header_to_meta mode_from_raw entry xattrs)) (\<lambda>m.
       case te_type entry of
         EtRegular \<Rightarrow>
           st_bind (st_lift (te_path entry)) (\<lambda>path.
           st_bind (st_lift (te_size entry)) (\<lambda>sz.
             on_builder (add_file path m (unat sz) (te_data entry))))
       | EtDirectory \<Rightarrow>
           st_bind (st_lift (te_path entry)) (\<lambda>path. on_builder (upsert_dir path m))
       | EtSymlink \<Rightarrow>
           st_bind (st_lift (te_path entry)) (\<lambda>path.
           st_bind (st_lift (bindr (te_link_name entry) (ok_or HardlinkNoLink))) (\<lambda>link.
             on_builder (add_symlink path link m)))
       | EtLink \<Rightarrow>
           st_bind (st_lift (te_path entry)) (\<lambda>path.
           st_bind (st_lift (bindr (te_link_name entry) (ok_or HardlinkNoLink))) (\<lambda>link.
             on_builder (add_link path link m)))
       | t \<Rightarrow> st_err (UnhandledEntryType t))))"

definition squash_to_erofs ::
    "(u32 \<Rightarrow> u32) \<Rightarrow> (file_type \<Rightarrow> u32) \<Rightarrow> (compression \<Rightarrow> 'r \<Rightarrow> archive) \<Rightarrow> (compression \<times> 'r) list \<Rightarrow> builder \<Rightarrow>
       (squash_stats \<times> stats, squash_error) result" where
  "squash_to_erofs mode_from_raw as_raw_mode open_layer readers b =
     (case squash_cb open_layer readers (on_entry_erofs mode_from_raw) b of
        (Err e, _) \<Rightarrow> Err e
      | (Ok st, b') \<Rightarrow>
          mapr (\<lambda>(erofs_stats, _). (st, erofs_stats)) (map_err SqErofs (into_inner as_raw_mode b')))"

end
