(* ===== verification/Squash_Props.thy ===== *)
theory Squash_Props
  imports Squash
begin

text \<open>
  What squashing promises, proved once from the contract of a deletion index and carried over to
  both implementations: no visible entry is lost, a path that a higher layer already provided is
  not emitted again, and the cases in which the index misses a deletion.
\<close>

section \<open>Collecting the survivors\<close>

text \<open>A callback that accepts every entry and records it.\<close>

definition collect :: "tar_entry list entry_callback" where
  "collect entry acc = (Ok (), acc @ [entry])"

lemma collect_app: "collect e acc = (Ok (), acc @ [e])"
  by (simp add: collect_def)

definition ordinary :: "tar_entry \<Rightarrow> bytes \<Rightarrow> bool" where
  "ordinary e p \<longleftrightarrow> whiteout e = Ok None \<and> te_path e = Ok p"

definition seen_paths :: "tar_entry list \<Rightarrow> bytes set" where
  "seen_paths es = {p. \<exists>e \<in> set es. ordinary e p}"

definition whiteout_paths :: "tar_entry list \<Rightarrow> bytes set" where
  "whiteout_paths es = {p. \<exists>e \<in> set es. whiteout e = Ok (Some (WhWhiteout p))}"

definition opaque_paths :: "tar_entry list \<Rightarrow> bytes set" where
  "opaque_paths es = {p. \<exists>e \<in> set es. whiteout e = Ok (Some (WhOpaque p))}"

lemma path_sets_Cons:
  "seen_paths (e # es) = {p. ordinary e p} \<union> seen_paths es"
  "whiteout_paths (e # es) = {p. whiteout e = Ok (Some (WhWhiteout p))} \<union> whiteout_paths es"
  "opaque_paths (e # es) = {p. whiteout e = Ok (Some (WhOpaque p))} \<union> opaque_paths es"
  by (auto simp: seen_paths_def whiteout_paths_def opaque_paths_def)

lemma path_sets_Nil [simp]: "seen_paths [] = {}" "whiteout_paths [] = {}" "opaque_paths [] = {}"
  by (simp_all add: seen_paths_def whiteout_paths_def opaque_paths_def)

context deletion_index
begin

text \<open>What one layer does to the index, and which of its entries survive.\<close>

definition after_entries :: "nat \<Rightarrow> tar_entry list \<Rightarrow> 'd \<Rightarrow> 'd \<Rightarrow> tar_entry list \<Rightarrow> bool" where
  "after_entries i es d d' out \<longleftrightarrow>
     inv d' \<and> exact d \<subseteq> exact d' \<and> exact d' \<subseteq> exact d \<union> key_seen ` seen_paths es \<and> below d' = below d \<and>
     pending_w d' \<subseteq> pending_w d \<union> key_w ` whiteout_paths es \<and>
     pending_o d' \<subseteq> pending_o d \<union> key_w ` opaque_paths es \<and>
     (i = 0 \<longrightarrow> pending_w d' = pending_w d \<and> pending_o d' = pending_o d) \<and> set out \<subseteq> set es \<and>
     (\<forall>e \<in> set out. \<exists>p. ordinary e p \<and> key_of p \<notin> exact d) \<and>
     (i \<noteq> 0 \<longrightarrow> key_seen ` seen_paths out \<subseteq> exact d') \<and>
     (\<forall>pre e post p. es = pre @ e # post \<and> ordinary e p \<and> key_of p \<notin> exact d \<union> key_seen ` seen_paths pre \<and>
        \<not> (\<exists>k \<in> below d. under k (key_of p)) \<longrightarrow> e \<in> set out)"

lemma after_entries_step:
  assumes rest: "after_entries i es d1 d' out"
    and d1: "exact d \<subseteq> exact d1" "exact d1 \<subseteq> exact d \<union> key_seen ` {p. ordinary e p}" "below d1 = below d"
      "pending_w d1 \<subseteq> pending_w d \<union> key_w ` {p. whiteout e = Ok (Some (WhWhiteout p))}"
      "pending_o d1 \<subseteq> pending_o d \<union> key_w ` {p. whiteout e = Ok (Some (WhOpaque p))}"
      "i = 0 \<Longrightarrow> pending_w d1 = pending_w d \<and> pending_o d1 = pending_o d"
    and new: "set new \<subseteq> {e}" "\<And>x. x \<in> set new \<Longrightarrow> \<exists>p. ordinary x p \<and> key_of p \<notin> exact d"
      "i \<noteq> 0 \<Longrightarrow> key_seen ` seen_paths new \<subseteq> exact d1"
      "\<And>p. ordinary e p \<Longrightarrow> key_of p \<notin> exact d \<Longrightarrow> \<not> (\<exists>k \<in> below d. under k (key_of p)) \<Longrightarrow> e \<in> set new"
  shows "after_entries i (e # es) d d' (new @ out)"
proof -
  have r: "i \<noteq> 0 \<Longrightarrow> key_seen ` seen_paths out \<subseteq> exact d'" "exact d1 \<subseteq> exact d'"
      "exact d' \<subseteq> exact d1 \<union> key_seen ` seen_paths es" "pending_w d' \<subseteq> pending_w d1 \<union> key_w ` whiteout_paths es"
      "pending_o d' \<subseteq> pending_o d1 \<union> key_w ` opaque_paths es"
    using rest by (simp_all add: after_entries_def)
  have seen: "seen_paths (new @ out) = seen_paths new \<union> seen_paths out" by (auto simp: seen_paths_def)
  have keep: "x \<in> set (new @ out)"
    if "e # es = pre @ x # post" "ordinary x p" "key_of p \<notin> exact d \<union> key_seen ` seen_paths pre"
      "\<not> (\<exists>k \<in> below d. under k (key_of p))" for pre x post p
  proof (cases pre)
    case Nil
    with that new(4)[of p] show ?thesis by auto
  next
    case (Cons y pre')
    with that have "es = pre' @ x # post" "key_of p \<notin> exact d1 \<union> key_seen ` seen_paths pre'"
        "\<not> (\<exists>k \<in> below d1. under k (key_of p))"
      using d1 by (auto simp: path_sets_Cons)
    with rest that(2) have "x \<in> set out" unfolding after_entries_def by blast
    then show ?thesis by simp
  qed
  show ?thesis
    unfolding after_entries_def
  proof (intro conjI)
    show "\<forall>x \<in> set (new @ out). \<exists>p. ordinary x p \<and> key_of p \<notin> exact d"
      using new(2) rest d1(1) by (fastforce simp: after_entries_def)
    show "\<forall>pre x post p. e # es = pre @ x # post \<and> ordinary x p \<and>
        key_of p \<notin> exact d \<union> key_seen ` seen_paths pre \<and> \<not> (\<exists>k \<in> below d. under k (key_of p)) \<longrightarrow> x \<in> set (new @ out)"
      using keep by blast
    show "i \<noteq> 0 \<longrightarrow> key_seen ` seen_paths (new @ out) \<subseteq> exact d'"
      using new(3) r(1,2) unfolding seen by blast
    show "exact d' \<subseteq> exact d \<union> key_seen ` seen_paths (e # es)"
      using r(3) d1(2) unfolding path_sets_Cons by blast
    show "pending_w d' \<subseteq> pending_w d \<union> key_w ` whiteout_paths (e # es)"
      using r(4) d1(4) unfolding path_sets_Cons by blast
    show "pending_o d' \<subseteq> pending_o d \<union> key_w ` opaque_paths (e # es)"
      using r(5) d1(5) unfolding path_sets_Cons by blast
    show "i = 0 \<longrightarrow> pending_w d' = pending_w d \<and> pending_o d' = pending_o d"
      using rest d1(6) by (simp add: after_entries_def)
    show "set (new @ out) \<subseteq> set (e # es)" using rest new(1) by (auto simp: after_entries_def)
  qed (use rest d1(1,3) in \<open>auto simp: after_entries_def\<close>)
qed

lemma entries_survive:
  "inv d \<Longrightarrow> squash_entries ops collect i (map Ok es) (st, d, acc) = (Ok (), (st', d', acc')) \<Longrightarrow>
     \<exists>out. acc' = acc @ out \<and> after_entries i es d d' out"
proof (induction es arbitrary: st d acc)
  case Nil
  then show ?case by (auto simp: after_entries_def)
next
  case (Cons e es)
  note run = Cons.prems(2)
  show ?case
  proof (cases "whiteout e")
    case (Ok w)
    note w = this
    show ?thesis
    proof (cases w)
      case (Some kind)
      have no: "\<not> ordinary e p" for p using w Some by (simp add: ordinary_def)
      show ?thesis
      proof (cases kind)
        case (WhWhiteout p)
        let ?d1 = "if i \<noteq> 0 then push_whiteout ops p d else d"
        have "inv ?d1" using Cons.prems(1) inv_ops(1) by simp
        moreover have "squash_entries ops collect i (map Ok es) (st, ?d1, acc) = (Ok (), (st', d', acc'))"
          using run w Some WhWhiteout by simp
        ultimately obtain out where out: "acc' = acc @ out" "after_entries i es ?d1 d' out"
          using Cons.IH by blast
        have "after_entries i (e # es) d d' ([] @ out)"
          by (rule after_entries_step[OF out(2)]) (use w Some WhWhiteout no in \<open>auto simp: whiteout_view\<close>)
        with out(1) show ?thesis by auto
      next
        case (WhOpaque p)
        let ?d1 = "if i \<noteq> 0 then push_opaque ops p d else d"
        have "inv ?d1" using Cons.prems(1) inv_ops(2) by simp
        moreover have "squash_entries ops collect i (map Ok es) (st, ?d1, acc) = (Ok (), (st', d', acc'))"
          using run w Some WhOpaque by simp
        ultimately obtain out where out: "acc' = acc @ out" "after_entries i es ?d1 d' out"
          using Cons.IH by blast
        have "after_entries i (e # es) d d' ([] @ out)"
          by (rule after_entries_step[OF out(2)]) (use w Some WhOpaque no in \<open>auto simp: opaque_view\<close>)
        with out(1) show ?thesis by auto
      qed
    next
      case None
      with run w obtain p where p: "te_path e = Ok p" by (auto split: result.splits)
      have ord: "ordinary e q \<longleftrightarrow> q = p" for q using w None p by (auto simp: ordinary_def)
      show ?thesis
      proof (cases "is_deleted ops p d")
        case (Some reason)
        with run w None p have "squash_entries ops collect i (map Ok es) (count_deletion reason st, d, acc) =
            (Ok (), (st', d', acc'))" by simp
        from Cons.IH[OF Cons.prems(1) this] obtain out where out: "acc' = acc @ out" "after_entries i es d d' out"
          by blast
        have "after_entries i (e # es) d d' ([] @ out)"
          by (rule after_entries_step[OF out(2)])
            (use deleted_sound[OF Cons.prems(1), of p] Some ord w None in \<open>auto\<close>)
        with out(1) show ?thesis by auto
      next
        case alive: None
        let ?d1 = "if i \<noteq> 0 then insert_seen ops p d else d"
        have "inv ?d1" using Cons.prems(1) inv_ops(3) by simp
        moreover have "squash_entries ops collect i (map Ok es) (st, ?d1, acc @ [e]) = (Ok (), (st', d', acc'))"
          using run w None p alive by (simp add: collect_app[of e acc])
        ultimately obtain out where out: "acc' = acc @ [e] @ out" "after_entries i es ?d1 d' out"
          using Cons.IH by fastforce
        have "key_of p \<notin> exact d" using alive deleted_exact[OF Cons.prems(1), of p] by auto
        have "after_entries i (e # es) d d' ([e] @ out)"
          by (rule after_entries_step[OF out(2)])
            (use \<open>key_of p \<notin> exact d\<close> ord w None Cons.prems(1) in \<open>auto simp: seen_view path_sets_Cons\<close>)
        with out(1) show ?thesis by auto
      qed
    qed
  qed (use run in auto)
qed

definition layer_exact :: "(nat \<times> tar_entry list) list \<Rightarrow> 'k set" where
  "layer_exact ls = (\<Union>l \<in> set ls. key_seen ` seen_paths (snd l) \<union> key_w ` whiteout_paths (snd l))"

definition layer_below :: "(nat \<times> tar_entry list) list \<Rightarrow> 'k set" where
  "layer_below ls = (\<Union>l \<in> set ls. key_w ` whiteout_paths (snd l) \<union> key_w ` opaque_paths (snd l))"

definition after_layers :: "(nat \<times> tar_entry list) list \<Rightarrow> 'd \<Rightarrow> 'd \<Rightarrow> tar_entry list \<Rightarrow> bool" where
  "after_layers ls d d' out \<longleftrightarrow>
     inv d' \<and> set out \<subseteq> (\<Union>l \<in> set ls. set (snd l)) \<and> pending_w d' = {} \<and> pending_o d' = {} \<and> exact d \<subseteq> exact d' \<and>
     (\<forall>e \<in> set out. \<exists>p. ordinary e p \<and> key_of p \<notin> exact d) \<and>
     ((\<forall>l \<in> set ls. fst l \<noteq> 0) \<longrightarrow> key_seen ` seen_paths out \<subseteq> exact d') \<and>
     (\<forall>up i pre e post down p. ls = up @ (i, pre @ e # post) # down \<and> ordinary e p \<and>
        key_of p \<notin> exact d \<union> layer_exact up \<union> key_seen ` seen_paths pre \<and>
        \<not> (\<exists>k \<in> below d \<union> layer_below up. under k (key_of p)) \<longrightarrow> e \<in> set out)"

definition after_layer :: "nat \<Rightarrow> tar_entry list \<Rightarrow> 'd \<Rightarrow> 'd \<Rightarrow> tar_entry list \<Rightarrow> bool" where
  "after_layer i es d d' out \<longleftrightarrow>
     inv d' \<and> set out \<subseteq> set es \<and> pending_w d' = {} \<and> pending_o d' = {} \<and> exact d \<subseteq> exact d' \<and>
     exact d' \<subseteq> exact d \<union> layer_exact [(i, es)] \<and> below d' \<subseteq> below d \<union> layer_below [(i, es)] \<and>
     (\<forall>e \<in> set out. \<exists>p. ordinary e p \<and> key_of p \<notin> exact d) \<and>
     (i \<noteq> 0 \<longrightarrow> key_seen ` seen_paths out \<subseteq> exact d') \<and>
     (\<forall>pre e post p. es = pre @ e # post \<and> ordinary e p \<and> key_of p \<notin> exact d \<union> key_seen ` seen_paths pre \<and>
        \<not> (\<exists>k \<in> below d. under k (key_of p)) \<longrightarrow> e \<in> set out)"

lemma layer_effect:
  assumes "inv d" and "pending_w d = {}" and "pending_o d = {}"
    and "squash_layer ops collect i (Ok (map Ok es)) (st, d, acc) = (Ok (), (st', d', acc'))"
  shows "\<exists>out. acc' = acc @ out \<and> after_layer i es d d' out"
proof -
  from assms(4) obtain st1 d1 where
    run: "squash_entries ops collect i (map Ok es) (st, d, acc) = (Ok (), (st1, d1, acc'))" and
    d': "d' = (if i \<noteq> 0 then end_of_layer ops d1 else d1)"
    by (auto simp: squash_layer_def split: prod.splits result.splits)
  from entries_survive[OF assms(1) run] obtain out where out: "acc' = acc @ out" "after_entries i es d d1 out"
    by blast
  then have d1: "inv d1" "exact d \<subseteq> exact d1" "exact d1 \<subseteq> exact d \<union> key_seen ` seen_paths es" "below d1 = below d"
      "pending_w d1 \<subseteq> key_w ` whiteout_paths es" "pending_o d1 \<subseteq> key_w ` opaque_paths es"
      "i = 0 \<Longrightarrow> pending_w d1 = {} \<and> pending_o d1 = {}"
    and sub: "set out \<subseteq> set es"
    and keep: "\<forall>e \<in> set out. \<exists>p. ordinary e p \<and> key_of p \<notin> exact d"
      "i \<noteq> 0 \<longrightarrow> key_seen ` seen_paths out \<subseteq> exact d1"
      "\<forall>pre e post p. es = pre @ e # post \<and> ordinary e p \<and> key_of p \<notin> exact d \<union> key_seen ` seen_paths pre \<and>
        \<not> (\<exists>k \<in> below d. under k (key_of p)) \<longrightarrow> e \<in> set out"
    using assms(2,3) by (simp_all add: after_entries_def)
  have d2: "inv d'" "pending_w d' = {}" "pending_o d' = {}" "exact d1 \<subseteq> exact d'"
      "exact d' \<subseteq> exact d1 \<union> pending_w d1" "below d' \<subseteq> below d1 \<union> pending_w d1 \<union> pending_o d1"
    using d1(1,7) inv_ops(4)[OF d1(1)] layer_view[OF d1(1)] by (auto simp: d')
  have "exact d \<subseteq> exact d'" "exact d' \<subseteq> exact d \<union> layer_exact [(i, es)]" "below d' \<subseteq> below d \<union> layer_below [(i, es)]"
    "i \<noteq> 0 \<longrightarrow> key_seen ` seen_paths out \<subseteq> exact d'"
    using d1(2-6) d2(4-6) keep(2) by (auto simp: layer_exact_def layer_below_def)
  with sub d2(1-3) keep(1,3) have "after_layer i es d d' out" by (simp add: after_layer_def)
  with out(1) show ?thesis by blast
qed

lemma layers_survive:
  "inv d \<Longrightarrow> pending_w d = {} \<Longrightarrow> pending_o d = {} \<Longrightarrow>
     squash_layers ops collect (map (\<lambda>(i, es). (i, Ok (map Ok es))) ls) (st, d, acc) = (Ok (), (st', d', acc')) \<Longrightarrow>
     \<exists>out. acc' = acc @ out \<and> after_layers ls d d' out"
proof (induction ls arbitrary: st d acc)
  case Nil
  then show ?case by (auto simp: after_layers_def)
next
  case (Cons l ls)
  obtain i es where l: "l = (i, es)" by fastforce
  from Cons.prems(4) obtain st1 d1 acc1 where
    layer: "squash_layer ops collect i (Ok (map Ok es)) (st, d, acc) = (Ok (), (st1, d1, acc1))" and
    rest: "squash_layers ops collect (map (\<lambda>(i, es). (i, Ok (map Ok es))) ls) (st1, d1, acc1) = (Ok (), (st', d', acc'))"
    by (auto simp: l split: prod.splits result.splits)
  from layer_effect[OF Cons.prems(1-3) layer] obtain out1 where o1: "acc1 = acc @ out1" "after_layer i es d d1 out1"
    by blast
  then have sub1: "set out1 \<subseteq> set es" and d1: "inv d1" "pending_w d1 = {}" "pending_o d1 = {}" "exact d \<subseteq> exact d1"
      "exact d1 \<subseteq> exact d \<union> layer_exact [(i, es)]" "below d1 \<subseteq> below d \<union> layer_below [(i, es)]" and
    k1: "\<forall>e \<in> set out1. \<exists>p. ordinary e p \<and> key_of p \<notin> exact d" "i \<noteq> 0 \<longrightarrow> key_seen ` seen_paths out1 \<subseteq> exact d1"
      "\<forall>pre e post p. es = pre @ e # post \<and> ordinary e p \<and> key_of p \<notin> exact d \<union> key_seen ` seen_paths pre \<and>
        \<not> (\<exists>k \<in> below d. under k (key_of p)) \<longrightarrow> e \<in> set out1"
    by (simp_all add: after_layer_def)
  from Cons.IH[OF d1(1-3) rest] obtain out2 where o2: "acc' = acc1 @ out2" "after_layers ls d1 d' out2" by blast
  then have sub2: "set out2 \<subseteq> (\<Union>l \<in> set ls. set (snd l))" and
    d2: "inv d'" "pending_w d' = {}" "pending_o d' = {}" "exact d1 \<subseteq> exact d'" and
    k2: "\<forall>e \<in> set out2. \<exists>p. ordinary e p \<and> key_of p \<notin> exact d1"
      "(\<forall>l \<in> set ls. fst l \<noteq> 0) \<longrightarrow> key_seen ` seen_paths out2 \<subseteq> exact d'" and
    k3: "\<forall>up i pre e post down p. ls = up @ (i, pre @ e # post) # down \<and> ordinary e p \<and>
        key_of p \<notin> exact d1 \<union> layer_exact up \<union> key_seen ` seen_paths pre \<and>
        \<not> (\<exists>k \<in> below d1 \<union> layer_below up. under k (key_of p)) \<longrightarrow> e \<in> set out2"
    by (simp_all add: after_layers_def)
  have app: "seen_paths (out1 @ out2) = seen_paths out1 \<union> seen_paths out2" by (auto simp: seen_paths_def)
  have keep: "e \<in> set (out1 @ out2)" if "l # ls = up @ (j, pre @ e # post) # down" "ordinary e p"
      "key_of p \<notin> exact d \<union> layer_exact up \<union> key_seen ` seen_paths pre"
      "\<not> (\<exists>k \<in> below d \<union> layer_below up. under k (key_of p))" for up j pre e post down p
  proof (cases up)
    case Nil
    with that k1(3) l show ?thesis by (auto simp: layer_exact_def layer_below_def)
  next
    case (Cons u up')
    then have ls: "ls = up' @ (j, pre @ e # post) # down" and u: "u = (i, es)" using that(1) l by auto
    have "layer_exact up = layer_exact [(i, es)] \<union> layer_exact up'" "layer_below up = layer_below [(i, es)] \<union> layer_below up'"
      by (simp_all add: Cons u layer_exact_def layer_below_def)
    with that(3,4) d1(5,6) have "key_of p \<notin> exact d1 \<union> layer_exact up' \<union> key_seen ` seen_paths pre"
        "\<not> (\<exists>k \<in> below d1 \<union> layer_below up'. under k (key_of p))" by blast+
    with k3 ls that(2) have "e \<in> set out2" by blast
    then show ?thesis by simp
  qed
  have "after_layers (l # ls) d d' (out1 @ out2)"
    unfolding after_layers_def
  proof (intro conjI)
    show "(\<forall>m \<in> set (l # ls). fst m \<noteq> 0) \<longrightarrow> key_seen ` seen_paths (out1 @ out2) \<subseteq> exact d'"
      using k1(2) k2(2) d2(4) unfolding app l by auto
    show "\<forall>e \<in> set (out1 @ out2). \<exists>p. ordinary e p \<and> key_of p \<notin> exact d"
      using k1(1) k2(1) d1(4) by fastforce
    show "\<forall>up i pre e post down p. l # ls = up @ (i, pre @ e # post) # down \<and> ordinary e p \<and>
        key_of p \<notin> exact d \<union> layer_exact up \<union> key_seen ` seen_paths pre \<and>
        \<not> (\<exists>k \<in> below d \<union> layer_below up. under k (key_of p)) \<longrightarrow> e \<in> set (out1 @ out2)"
      by (intro allI impI, elim conjE) (rule keep)
  qed (use d2 d1(4) sub1 sub2 l in auto)
  with o1(1) o2(1) show ?case by auto
qed

lemma layers_append:
  "squash_layers ops cb (xs @ ys) s =
     (case squash_layers ops cb xs s of (Err e, s') \<Rightarrow> (Err e, s') | (Ok _, s') \<Rightarrow> squash_layers ops cb ys s')"
  by (induction xs arbitrary: s) (auto split: prod.splits result.splits)

end

section \<open>Squashing returns\<close>

lemma file_name_has_parent:
  assumes "path_file_name p = Some n"
  shows "path_parent p \<noteq> None"
proof -
  have n: "Normal n \<in> set (path_components p)"
    using assms by (auto simp: path_file_name_def split: list.splits path_component.splits dest: arg_cong[where f = set])
  then have proper: "n \<noteq> []" "n \<noteq> dot_name" and "n \<in> set (split_slash p)"
    using path_components_normal[OF n]
    by (auto simp: normal_name_def path_components_def body_components_def Let_def split: if_splits)
  moreover have "has_root p \<Longrightarrow> hd (split_slash p) = []" by (cases p) (auto simp: has_root_def)
  ultimately have "n \<in> set (path_body p)"
    by (cases "split_slash p") (auto simp: path_body_def has_cur_dir_def)
  with proper have "trim_pieces (path_body p) \<noteq> []" by (auto simp: trim_pieces_def dropWhile_eq_Nil_conv)
  then show ?thesis by (simp add: path_parent_def Let_def)
qed

lemma whiteout_error:
  assumes "whiteout e = Err x"
  shows "te_path e = Err x"
proof (cases "te_path e")
  case (Ok p)
  with assms obtain n where "path_file_name p = Some n" "path_parent p = None"
    by (auto simp: whiteout_def result_simps split: option.splits if_splits)
  then show ?thesis using file_name_has_parent by simp
qed (use assms in \<open>simp add: whiteout_def result_simps\<close>)

lemma entries_return:
  "\<forall>e \<in> set es. is_ok (te_path e) \<Longrightarrow> \<exists>s'. squash_entries ops collect i (map Ok es) s = (Ok (), s')"
proof (induction es arbitrary: s)
  case Nil
  then show ?case by (cases s) simp
next
  case (Cons e es)
  obtain st d acc where s: "s = (st, d, acc)" by (cases s)
  obtain p where p: "te_path e = Ok p" using Cons.prems by (auto simp: is_ok_iff)
  then obtain w where w: "whiteout e = Ok w" using whiteout_error[of e] by (cases "whiteout e") auto
  have "\<exists>s'. squash_entries ops collect i (map Ok es) t = (Ok (), s')" for t using Cons by simp
  then show ?case
    using p w by (auto simp: s collect_app[of e acc] split: option.split whiteout_kind.split)
qed

lemma layers_return:
  "\<forall>l \<in> set ls. \<forall>e \<in> set (snd l). is_ok (te_path e) \<Longrightarrow>
     \<exists>s'. squash_layers ops collect (map (\<lambda>(i, es). (i, Ok (map Ok es))) ls) s = (Ok (), s')"
proof (induction ls arbitrary: s)
  case Nil
  then show ?case by (cases s) simp
next
  case (Cons l ls)
  obtain i es where l: "l = (i, es)" by fastforce
  obtain s1 where "squash_entries ops collect i (map Ok es) s = (Ok (), s1)"
    using entries_return[of es ops i s] Cons.prems l by auto
  then have "\<exists>s2. squash_layer ops collect i (Ok (map Ok es)) s = (Ok (), s2)"
    by (cases s1) (simp add: squash_layer_def)
  with Cons l show ?case by auto
qed

text \<open>All layers open and every header of them is readable.\<close>

definition readable_layers ::
    "(compression \<Rightarrow> 'r \<Rightarrow> archive) \<Rightarrow> (compression \<times> 'r) list \<Rightarrow> tar_entry list list \<Rightarrow> bool" where
  "readable_layers open_layer readers layers \<longleftrightarrow>
     map (\<lambda>(comp, r). open_layer comp r) readers = map (\<lambda>es. Ok (map Ok es)) layers \<and>
     list_all (list_all (\<lambda>e. is_ok (te_path e))) layers"

abbreviation archives :: "(nat \<times> tar_entry list) list \<Rightarrow> (nat \<times> archive) list" where
  "archives ls \<equiv> map (\<lambda>(i, es). (i, Ok (map Ok es))) ls"

lemma opened_layers:
  "map (\<lambda>(comp, r). open_layer comp r) readers = map (\<lambda>es. Ok (map Ok es)) layers \<Longrightarrow>
     rev (map (\<lambda>(i, comp, r). (i, open_layer comp r)) (List.enumerate n readers)) =
       archives (rev (List.enumerate n layers))"
proof (induction readers arbitrary: layers n)
  case (Cons x readers)
  then obtain l ls where "layers = l # ls" by (cases layers) auto
  with Cons show ?case by (cases x) (auto simp: rev_map)
qed simp

lemma squash_cb_returns:
  assumes "readable_layers open_layer readers layers"
  obtains st d out st' where
    "squash_layers os_string_ops collect (archives (rev (List.enumerate 0 layers)))
       (squash_stats_default, deletions_default, []) = (Ok (), (st, d, out))"
    "squash_cb open_layer readers collect [] = (Ok st', out)"
proof -
  have "\<forall>l \<in> set (rev (List.enumerate 0 layers)). \<forall>e \<in> set (snd l). is_ok (te_path e)"
    using assms by (auto simp: readable_layers_def list_all_iff in_set_enumerate_eq)
  from layers_return[OF this] obtain st d out where
    run: "squash_layers os_string_ops collect (archives (rev (List.enumerate 0 layers)))
       (squash_stats_default, deletions_default, []) = (Ok (), (st, d, out))"
    by (metis prod_cases3)
  moreover have "squash_cb open_layer readers collect [] = (Ok (st\<lparr>sq_deletions_map_size := length (del_map d)\<rparr>), out)"
    using opened_layers[of open_layer readers layers 0] assms run
    by (simp add: squash_cb_def readable_layers_def)
  ultimately show ?thesis using that by blast
qed

lemma deletions_default_empty:
  "bt_inv (del_map deletions_default)" "exact_keys (del_map deletions_default) = {}"
  "below_keys (del_map deletions_default) = {}" "whiteout_q deletions_default = []" "opaque_q deletions_default = []"
  by (simp_all add: deletions_default_def exact_keys_def below_keys_def bt_inv_def bt_get_def)

lemma in_enumerate: "l \<in> set (List.enumerate n xs) \<Longrightarrow> snd l \<in> set xs \<and> n \<le> fst l"
  by (induction xs arbitrary: n) (auto dest: Suc_leD)


text \<open>A layer hides a path of the layers below it.\<close>

definition hidden_by :: "tar_entry list \<Rightarrow> bytes \<Rightarrow> bool" where
  "hidden_by es p \<longleftrightarrow>
     (let q = without_trailing_slash p
      in q \<in> seen_paths es \<or>
         (\<exists>w \<in> whiteout_paths es. q = without_trailing_slash w \<or> os_str_starts_with q (without_trailing_slash w)) \<or>
         (\<exists>w \<in> opaque_paths es. os_str_starts_with q (without_trailing_slash w)))"

text \<open>
  (C5) Squashing readable layers succeeds and loses no visible entry: an entry that is not itself a
  whiteout, whose path no higher layer contains, whites out or lies below a whiteout or an opaque
  marker of, and which does not repeat an entry of its own layer, reaches the callback.
\<close>

theorem squash_keeps_visible:
  assumes "readable_layers open_layer readers (lowers @ (pre @ e # post) # uppers)"
    and "ordinary e p"
    and "\<forall>es \<in> set uppers. \<not> hidden_by es p"
    and "without_trailing_slash p \<notin> seen_paths pre"
  shows "\<exists>st out. squash_cb open_layer readers collect [] = (Ok st, out) \<and> e \<in> set out"
proof -
  let ?up = "rev (List.enumerate (Suc (length lowers)) uppers)" and ?k = "without_trailing_slash p"
  have ls: "rev (List.enumerate 0 (lowers @ (pre @ e # post) # uppers)) =
      ?up @ (length lowers, pre @ e # post) # rev (List.enumerate 0 lowers)"
    by (simp add: enumerate_append_eq)
  from squash_cb_returns[OF assms(1)] obtain st d out st' where
    run: "squash_layers os_string_ops collect (archives (rev (List.enumerate 0 (lowers @ (pre @ e # post) # uppers))))
       (squash_stats_default, deletions_default, []) = (Ok (), (st, d, out))"
    and cb: "squash_cb open_layer readers collect [] = (Ok st', out)" .
  have after: "os.after_layers (?up @ (length lowers, pre @ e # post) # rev (List.enumerate 0 lowers)) deletions_default d out"
    using os.layers_survive[OF _ _ _ run] by (simp add: deletions_default_empty ls)
  have in_above: "snd l \<in> set uppers" if "l \<in> set ?up" for l using that in_enumerate[of l] by simp
  have "?k \<notin> os.layer_exact ?up" "\<not> (\<exists>k \<in> os.layer_below ?up. os_str_starts_with ?k k)"
    using assms(3) in_above by (fastforce simp: os.layer_exact_def os.layer_below_def hidden_by_def Let_def)+
  then have "e \<in> set out"
    using after assms(2,4) unfolding os.after_layers_def deletions_default_empty by fastforce
  with cb show ?thesis by blast
qed


section \<open>Markers and single questions to the index\<close>

lemma ascii_normal_prefix: "normal_name n \<Longrightarrow> normal_name (ascii ''.wh.'' @ n)"
  by (auto simp: normal_name_def ascii_def dot_name_def dotdot_name_def slash_def)

lemma opaque_is_whiteout_name: "starts_with n (ascii ''.wh..wh..opq'') \<Longrightarrow> starts_with n (ascii ''.wh.'')"
  unfolding starts_with_def by (drule arg_cong[where f = "take 4"]) (simp add: ascii_def min_def numeral_eq_Suc)

text \<open>
  Markers on relative paths: a name with the prefix \<open>.wh.\<close> whites out the sibling it names, the
  opaque marker speaks about its directory, and every other name is an ordinary entry.
\<close>

lemma whiteout_recognised:
  assumes "\<forall>x \<in> set (ns @ [n]). normal_name x"
  shows "(\<not> starts_with n (ascii ''.wh.'') \<longrightarrow> whiteout (e\<lparr>te_path := Ok (join_names (ns @ [n]))\<rparr>) = Ok None) \<and>
    (\<not> starts_with n (ascii ''.wh..opq'') \<longrightarrow>
       whiteout (e\<lparr>te_path := Ok (join_names (ns @ [ascii ''.wh.'' @ n]))\<rparr>) = Ok (Some (WhWhiteout (join_names (ns @ [n]))))) \<and>
    whiteout (e\<lparr>te_path := Ok (join_names (ns @ [ascii ''.wh..wh..opq'']))\<rparr>) = Ok (Some (WhOpaque (join_names ns)))"
proof (intro conjI impI)
  show "whiteout (e\<lparr>te_path := Ok (join_names (ns @ [n]))\<rparr>) = Ok None" if "\<not> starts_with n (ascii ''.wh.'')"
    using that path_file_name_join[OF assms] opaque_is_whiteout_name[of n] by (auto simp: whiteout_def result_simps)
  have nn: "\<forall>x \<in> set (ns @ [ascii ''.wh.'' @ n]). normal_name x" using assms ascii_normal_prefix by auto
  have "\<not> has_root n" using assms by (cases n) (auto simp: has_root_def normal_name_def)
  from path_with_file_name_join[OF nn this] path_file_name_join[OF nn]
  show "whiteout (e\<lparr>te_path := Ok (join_names (ns @ [ascii ''.wh.'' @ n]))\<rparr>) = Ok (Some (WhWhiteout (join_names (ns @ [n]))))"
    if "\<not> starts_with n (ascii ''.wh..opq'')"
    using that by (simp add: whiteout_def result_simps starts_with_def ascii_def)
  have no: "\<forall>x \<in> set (ns @ [ascii ''.wh..wh..opq'']). normal_name x"
    using assms by (auto simp: normal_name_def ascii_def dot_name_def dotdot_name_def slash_def)
  show "whiteout (e\<lparr>te_path := Ok (join_names (ns @ [ascii ''.wh..wh..opq'']))\<rparr>) = Ok (Some (WhOpaque (join_names ns)))"
    using path_parent_join[OF no] path_file_name_join[OF no]
    by (simp add: whiteout_def result_simps starts_with_def ascii_def)
qed

lemma last_le_nearest:
  assumes "bt_inv m" and "bt_get m k = Some v" and "k \<le> p"
    and "\<forall>k' \<in> set (map fst m). \<not> (k < k' \<and> k' \<le> p)"
  shows "bt_last_le p m = Some (k, v)"
proof -
  have mem: "(k, v) \<in> set m" using assms(1,2) bt.entries_lookup[of m k v] by simp
  then have "k \<in> fst ` set m" by force
  then have "bt_last_le p m \<noteq> None" using bt_last_le_None[OF _ assms(1), of p] assms(3) by fastforce
  then obtain j u where ju: "bt_last_le p m = Some (j, u)" by auto
  note last = bt_last_le_Some[OF assms(1) ju]
  then have "j = k" using assms(3,4) \<open>k \<in> fst ` set m\<close> by force
  with last_le_get[OF assms(1) ju] assms(2) ju show ?thesis by simp
qed

text \<open>
  (C35) A path below a whiteout or an opaque marker is reported as deleted when no key of the index
  lies between the marker and the path in byte order; the lookup inspects one predecessor only.
\<close>

theorem deletion_found:
  assumes "bt_inv (del_map d)" and "k \<in> below_keys (del_map d)" and "os_str_starts_with (without_trailing_slash p) k"
    and "\<forall>k' \<in> set (map fst (del_map d)). \<not> (k < k' \<and> k' \<le> without_trailing_slash p)"
  shows "os_is_deleted p d \<noteq> None"
proof -
  obtain v where v: "bt_get (del_map d) k = Some v" "v = StWhiteout \<or> v = StOpaque"
    using assms(2) by (auto simp: below_keys_def)
  have "prefix k (without_trailing_slash p)" "k \<noteq> without_trailing_slash p"
    using assms(3) unfolding os_str_starts_with_def prefix_def by (metis append_take_drop_id, auto)
  then have "k \<le> without_trailing_slash p" by (auto simp: prefix_def list_le_def list_less_def neq_Nil_conv intro!: lexord_append_rightI)
  from last_le_nearest[OF assms(1) v(1) this assms(4)] v(2) assms(3) \<open>k \<noteq> without_trailing_slash p\<close>
  show ?thesis by (auto simp: os_is_deleted_def Let_def)
qed

definition file_entry :: "bytes \<Rightarrow> tar_entry" where
  "file_entry p = \<lparr>te_path = Ok p, te_type = EtRegular, te_link_name = Ok None, te_pax = Ok None, te_uid = Ok 0, te_gid = Ok 0,
     te_mtime = Ok 0, te_mode = Ok 420, te_size = Ok 0, te_data = []\<rparr>"

definition layer_of :: "string list \<Rightarrow> compression \<times> tar_entry list" where
  "layer_of ps = (CompNone, map (\<lambda>p. file_entry (ascii p)) ps)"

definition open_plain :: "compression \<Rightarrow> tar_entry list \<Rightarrow> archive" where
  "open_plain c es = Ok (map Ok es)"

lemmas squash_eval = squash_cb_def squash_layer_def open_plain_def layer_of_def file_entry_def whiteout_def result_simps
  path_file_name_def path_parent_def path_with_file_name_def path_push_def path_components_def body_components_def
  path_body_def path_rebuild_def trim_pieces_def has_root_def has_cur_dir_def
  starts_with_def ascii_def slash_def dot_name_def dotdot_name_def collect_def
  os_string_ops_def os_is_deleted_def os_insert_seen_def os_insert_def os_push_whiteout_def os_push_opaque_def
  os_end_of_layer_def os_str_starts_with_def without_trailing_slash_def ends_with_slash_def deletions_default_def
  bt_get_def squash_stats_default_def Let_def


text \<open>
  The two deletion indexes are not interchangeable: with \<open>x\<close> whited out and \<open>x-y\<close> seen, the one
  over byte strings keeps \<open>x/f\<close> and the one over path components deletes it.
\<close>

lemma variants_differ:
  "os_is_deleted (ascii ''x/f'') (os_end_of_layer (os_push_whiteout (ascii ''x'') (os_insert_seen (ascii ''x-y'') deletions_default))) = None \<and>
   pb_is_deleted (ascii ''x/f'') (pb_end_of_layer (pb_push_whiteout (ascii ''x'') (pb_insert_seen (ascii ''x-y'') deletions_default))) =
     Some ReWhiteoutDir"
  by (simp add: squash_eval pb_is_deleted_def pb_end_of_layer_def pb_push_whiteout_def pb_insert_seen_def pb_insert_def path_starts_with_def
     less_eq_path_component_def less_path_component_def)

lemma directory_path:
  assumes "normal_name n"
  shows "path_components (n @ [slash]) = [Normal n]"
  using assms split_slash_append[of n "[]"]
  by (cases n) (auto simp: path_components_def body_components_def normal_name_def)

text \<open>
  A directory entry with a trailing slash is never shadowed: when two layers contain the same
  directory, both entries reach the image builder, upper one first, and the metadata of the lower
  layer is what the tree ends up with.
\<close>

lemma lower_directory_wins:
  assumes "normal_name n" and "b_root b = Some root" and "wf_dir root" and "\<not> spec_blocked [n] (dir_view root)"
    and "te_path upper = Ok (n @ [slash])" and "te_type upper = EtDirectory" and "te_pax upper = Ok None"
    and "te_path lower = Ok (n @ [slash])" and "te_type lower = EtDirectory" and "te_pax lower = Ok None"
    and "header_to_meta mode_from_raw upper [] = Ok m1" and "header_to_meta mode_from_raw lower [] = Ok m2"
    and "hook_meta b m1 = Ok m1'" and "hook_meta b m2 = Ok m2'"
    and "\<not> starts_with n (ascii ''.wh.'')"
  shows "\<exists>st b' root'. squash_cb open_plain [(CompNone, [lower]), (CompNone, [upper])] (on_entry_erofs mode_from_raw) b =
    (Ok st, b') \<and> b_root b' = Some root' \<and> dir_view root' [n] = Some (DirInfo m2')"
proof -
  have t: "path_target (n @ [slash]) = Some [n]" by (simp add: path_target_def directory_path[OF assms(1)])
  have wh: "whiteout upper = Ok None" "whiteout lower = Ok None"
    using assms(5,8,15) opaque_is_whiteout_name[of n]
    by (auto simp: whiteout_def result_simps path_file_name_def directory_path[OF assms(1)])
  from root_upsert_refines[OF assms(3), of "n @ [slash]" "[]" n m1'] t assms(4) obtain r1 where
    r1: "root_upsert_dir (n @ [slash]) m1' root = (Ok (), r1)" "wf_dir r1" "dir_view r1 = spec_upsert [n] m1' (dir_view root)" by auto
  then have "\<not> spec_blocked [n] (dir_view r1)" using assms(4)
    by (auto simp: spec_blocked_def spec_upsert_def spec_parents_def split: if_splits option.splits)
  with root_upsert_refines[OF r1(2), of "n @ [slash]" "[]" n m2'] t obtain r2 where
    r2: "root_upsert_dir (n @ [slash]) m2' r1 = (Ok (), r2)" "dir_view r2 = spec_upsert [n] m2' (dir_view r1)" by auto
  have up: "on_entry_erofs mode_from_raw upper b = (Ok (), b\<lparr>b_root := Some r1\<rparr>)"
    using assms(2,5-7,11,13) r1(1)
    by (simp add: on_entry_erofs_def on_builder_def upsert_dir_def on_root_def)
  have low: "on_entry_erofs mode_from_raw lower (b\<lparr>b_root := Some r1\<rparr>) = (Ok (), b\<lparr>b_root := Some r2\<rparr>)"
    using assms(8-10,12,14) r2(1)
    by (simp add: on_entry_erofs_def on_builder_def upsert_dir_def on_root_def hook_meta_def)
  have idx: "os_is_deleted (n @ [slash]) (os_end_of_layer (os_insert_seen (n @ [slash]) deletions_default)) = None"
      "os_is_deleted (n @ [slash]) deletions_default = None"
    by (simp_all add: os_is_deleted_def os_insert_seen_def os_insert_def deletions_default_def without_trailing_slash_def
        ends_with_slash_def bt_get_def os_end_of_layer_def Let_def)
  have view: "dir_view r2 [n] = Some (DirInfo m2')" unfolding r2(2) by (simp add: spec_upsert_def)
  show ?thesis
    using up low idx wh assms(5,8) view
    by (simp add: squash_cb_def squash_layer_def open_plain_def os_string_ops_def)
qed

end
