(* ===== verification/Erofs_Dirblock.thy ===== *)
theory Erofs_Dirblock
  imports Erofs_Build Erofs_Reader
begin

text \<open>
  Directory blocks: how \<open>prepare_dirent_data\<close> distributes the names over blocks, what the directory
  writer puts into them, and that the reader's iterator returns exactly the entries that were
  written, over any number of blocks.
\<close>

section \<open>How names are distributed over blocks\<close>

fun chunks :: "nat list \<Rightarrow> 'a list \<Rightarrow> 'a list list" where
  "chunks [] xs = []"
| "chunks (c # cs) xs = take c xs # chunks cs (drop c xs)"

definition block_bytes :: "bytes list \<Rightarrow> nat" where
  "block_bytes names = sum_list (map (\<lambda>n. 12 + length n) names)"

lemma block_bytes_simps [simp]:
  "block_bytes [] = 0" "block_bytes (n # ns) = 12 + length n + block_bytes ns"
  "block_bytes (ns @ ms) = block_bytes ns + block_bytes ms"
  by (simp_all add: block_bytes_def)

lemma block_bytes_ge: "12 * length ns \<le> block_bytes ns"
  by (induction ns) auto

lemma concat_chunks: "sum_list cs = length xs \<Longrightarrow> concat (chunks cs xs) = xs"
  by (induction cs xs rule: chunks.induct) auto

lemma length_chunks [simp]: "length (chunks cs xs) = length cs"
  by (induction cs xs rule: chunks.induct) auto

lemma map_length_chunks: "sum_list cs = length xs \<Longrightarrow> map length (chunks cs xs) = cs"
  by (induction cs xs rule: chunks.induct) auto

lemma prepare_names_chunks:
  assumes "bs \<le> 65536" and "\<forall>n \<in> set names. 0 < length n \<and> 12 + length n \<le> bs"
    and "block_bytes cur \<le> bs" and "cur = [] \<longrightarrow> names \<noteq> []"
  shows "\<exists>new count. prepare_names bs names (block_bytes cur) (length cur) acc =
       (block_bytes (last (chunks (new @ [count]) (cur @ names))), count, acc @ new) \<and>
     0 < count \<and> (\<forall>c \<in> set new. 0 < c) \<and> sum_list (new @ [count]) = length (cur @ names) \<and>
     (\<forall>g \<in> set (chunks (new @ [count]) (cur @ names)). block_bytes g \<le> bs)"
  using assms(2-)
proof (induction names arbitrary: cur acc)
  case Nil
  then show ?case
    by (intro exI[of _ "[]"] exI[of _ "length cur"]) auto
next
  case (Cons name names)
  let ?over = "bs < block_bytes cur + (12 + length name) \<or> 65535 < block_bytes cur + 12"
  show ?case
  proof (cases ?over)
    case True
    have full: "bs < block_bytes cur + (12 + length name)"
      using True assms(1) Cons.prems(1) by (cases name) auto
    then have ne: "cur \<noteq> []" using Cons.prems(1) by auto
    have "block_bytes [name] \<le> bs" using Cons.prems(1) by simp
    with Cons.IH[of "[name]" "acc @ [length cur]"] Cons.prems(1) obtain new count where
      IH: "prepare_names bs names (block_bytes [name]) (length [name]) (acc @ [length cur]) =
         (block_bytes (last (chunks (new @ [count]) ([name] @ names))), count, (acc @ [length cur]) @ new)"
        "0 < count" "\<forall>c \<in> set new. 0 < c" "sum_list (new @ [count]) = length ([name] @ names)"
        "\<forall>g \<in> set (chunks (new @ [count]) ([name] @ names)). block_bytes g \<le> bs"
      by auto
    have "chunks (new @ [count]) ([name] @ names) \<noteq> []" by (cases new) auto
    then show ?thesis
      using IH True ne Cons.prems
      by (intro exI[of _ "length cur # new"] exI[of _ count]) (auto simp: Let_def)
  next
    case False
    then have fit: "block_bytes (cur @ [name]) \<le> bs" by simp
    have "12 * length (cur @ [name]) \<le> bs"
      using fit block_bytes_ge[of "cur @ [name]"] by linarith
    then have "(length cur + 1) mod 2 ^ 16 = length (cur @ [name])"
      using assms(1) by simp
    with Cons.IH[of "cur @ [name]" acc] Cons.prems fit False show ?thesis
      by (auto simp: Let_def add.assoc)
  qed
qed


lemma prepare_dirent_data_ok:
  assumes "bs \<le> 65536" and "\<forall>n \<in> fst ` set (d_children d). 0 < length n \<and> 12 + length n \<le> bs"
    and "d_children d \<noteq> []" and "d_n_dirents_per_block d = []" and "start_block < 2 ^ 32"
  shows "\<exists>d'. prepare_dirent_data bs start_block d = (Ok (length (d_n_dirents_per_block d')), d') \<and>
     d_children d' = d_children d \<and> d_meta d' = d_meta d \<and> d_disk_id d' = d_disk_id d \<and>
     unat (d_start_block d') = start_block \<and>
     (let gs = chunks (d_n_dirents_per_block d') (map fst (d_children d))
      in gs \<noteq> [] \<and> concat gs = map fst (d_children d) \<and> (\<forall>g \<in> set gs. g \<noteq> [] \<and> block_bytes g \<le> bs) \<and>
         d_total_size d' = bs * (length gs - 1) + block_bytes (last gs))"
proof -
  obtain children m i sb t where d: "d = Dir children m i sb [] t"
    using assms(4) by (cases d) auto
  let ?names = "map fst children"
  from prepare_names_chunks[OF assms(1), of ?names "[]" "[]"] assms d obtain new count where
    pn: "prepare_names bs ?names 0 0 [] = (block_bytes (last (chunks (new @ [count]) ?names)), count, new)" and
    pos: "0 < count" "\<forall>c \<in> set new. 0 < c" and
    sum: "sum_list (new @ [count]) = length ?names" and
    fit: "\<forall>g \<in> set (chunks (new @ [count]) ?names). block_bytes g \<le> bs"
    by auto
  let ?gs = "chunks (new @ [count]) ?names"
  have "\<forall>c \<in> set (map length ?gs). 0 < c"
    using map_length_chunks[OF sum] pos by auto
  then have "\<forall>g \<in> set ?gs. g \<noteq> []" by auto
  moreover have "?gs \<noteq> []" by (cases new) auto
  moreover have "concat ?gs = ?names" using sum by (rule concat_chunks)
  moreover have "unat (of_nat start_block :: u32) = start_block"
    using assms(5) by (simp add: unat_of_nat)
  ultimately show ?thesis
    using pn pos sum fit assms(5) d by (auto simp: prepare_dirent_data_def Let_def)
qed

section \<open>A block of directory entries\<close>

type_synonym dir_out = "u32 \<times> dirent_file_type \<times> bytes"

abbreviation out_name :: "dir_out \<Rightarrow> bytes" where "out_name e \<equiv> snd (snd e)"

definition out_dirent :: "nat \<Rightarrow> dir_out \<Rightarrow> disk_dirent" where
  "out_dirent off e =
     \<lparr>dd_disk_id = ucast (fst e), dd_name_offset = of_nat off,
      dd_file_type = u8_of_dirent_file_type (fst (snd e)), dd_reserved = 0\<rparr>"

fun block_headers :: "nat \<Rightarrow> dir_out list \<Rightarrow> bytes" where
  "block_headers off [] = []"
| "block_headers off (e # es) =
     enc_disk_dirent (out_dirent off e) @ block_headers (off + length (out_name e)) es"

definition block_names :: "dir_out list \<Rightarrow> bytes" where
  "block_names es = concat (map out_name es)"

definition dirent_block :: "dir_out list \<Rightarrow> bytes" where
  "dirent_block es = block_headers (length es * 12) es @ block_names es"

definition pad_block :: "nat \<Rightarrow> bytes \<Rightarrow> bytes" where
  "pad_block bs x = x @ replicate (bs - length x) 0"

fun dir_data :: "nat \<Rightarrow> dir_out list list \<Rightarrow> bytes" where
  "dir_data bs [] = []"
| "dir_data bs [g] = dirent_block g"
| "dir_data bs (g # gs) = pad_block bs (dirent_block g) @ dir_data bs gs"

lemma length_block_headers [simp]: "length (block_headers off es) = length es * 12"
  by (induction es arbitrary: off) (simp_all add: dd_codec.enc_length valid_disk_dirent_def)

lemma length_dirent_block: "length (dirent_block es) = block_bytes (map out_name es)"
proof -
  have "length es * 12 + length (block_names es) = block_bytes (map out_name es)"
    by (induction es) (auto simp: block_names_def)
  then show ?thesis by (simp add: dirent_block_def)
qed

lemma block_headers_split:
  assumes "j < length es"
  shows "\<exists>pre post. block_headers off es =
      pre @ enc_disk_dirent (out_dirent (off + length (block_names (take j es))) (es ! j)) @ post \<and>
      length pre = j * 12"
  using assms
proof (induction es arbitrary: off j)
  case (Cons e es)
  show ?case
  proof (cases j)
    case 0
    then have "block_headers off (e # es) = [] @
        enc_disk_dirent (out_dirent (off + length (block_names (take j (e # es)))) ((e # es) ! j)) @
        block_headers (off + length (out_name e)) es"
      by (simp add: block_names_def)
    with 0 show ?thesis by (metis list.size(3) mult_0)
  next
    case (Suc k)
    then have k: "k < length es" using Cons.prems by simp
    obtain pre post where
      "block_headers (off + length (out_name e)) es = pre @
         enc_disk_dirent (out_dirent (off + length (out_name e) + length (block_names (take k es))) (es ! k)) @ post"
      "length pre = k * 12"
      using Cons.IH[OF k, of "off + length (out_name e)"] by blast
    with Suc show ?thesis
      by (intro exI[of _ "enc_disk_dirent (out_dirent off e) @ pre"] exI[of _ post])
        (auto simp: block_names_def dd_codec.enc_length valid_disk_dirent_def add.assoc)
  qed
qed simp

text \<open>Where the name of entry \<open>j\<close> starts in its block.\<close>

definition name_off :: "dir_out list \<Rightarrow> nat \<Rightarrow> nat" where
  "name_off es j = length es * 12 + length (block_names (take j es))"

lemma name_off_Suc: "j < length es \<Longrightarrow> name_off es (Suc j) = name_off es j + length (out_name (es ! j))"
  by (simp add: name_off_def block_names_def take_Suc_conv_app_nth)

lemma name_off_le: "j \<le> length es \<Longrightarrow> name_off es j \<le> length (dirent_block es)"
proof -
  have "length (block_names (take j es)) \<le> length (block_names es)"
    by (metis append_take_drop_id block_names_def concat_append le_add1 length_append map_append)
  then show ?thesis by (simp add: name_off_def dirent_block_def)
qed

lemma name_split:
  assumes "j < length es"
  shows "\<exists>pre post. dirent_block es = pre @ out_name (es ! j) @ post \<and> length pre = name_off es j \<and>
     (Suc j = length es \<longrightarrow> post = [])"
proof -
  have "block_names es = block_names (take j es) @ out_name (es ! j) @ block_names (drop (Suc j) es)"
    using assms by (metis (no_types, lifting) block_names_def concat_append concat.simps(2)
        id_take_nth_drop list.simps(9) map_append)
  then show ?thesis
    by (intro exI[of _ "block_headers (length es * 12) es @ block_names (take j es)"]
        exI[of _ "block_names (drop (Suc j) es)"])
      (auto simp: dirent_block_def name_off_def block_names_def)
qed

section \<open>Reading a block\<close>

definition mk_it :: "bytes \<Rightarrow> bytes option \<Rightarrow> nat \<Rightarrow> nat \<Rightarrow> nat \<Rightarrow> dirents_iterator" where
  "mk_it d r i c bs = \<lparr>it_data = d, it_remaining = r, it_i = i, it_count = c, it_block_size = bs\<rparr>"

definition out_item :: "dir_out \<Rightarrow> dirent_item" where
  "out_item e = \<lparr>di_disk_id = ucast (fst e), di_file_type = fst (snd e), di_name = out_name e\<rparr>"

lemma it_get_block:
  assumes "j < length es"
  shows "it_get (mk_it (dirent_block es @ x) r i c bs) j = Ok (out_dirent (name_off es j) (es ! j))"
proof -
  obtain pre post where split: "block_headers (length es * 12) es =
      pre @ enc_disk_dirent (out_dirent (name_off es j) (es ! j)) @ post" "length pre = j * 12"
    using block_headers_split[OF assms, of "length es * 12"] by (auto simp: name_off_def)
  then have "get_from (j * 12) (dirent_block es @ x) =
      Some (enc_disk_dirent (out_dirent (name_off es j) (es ! j)) @ post @ block_names es @ x)"
    by (simp add: dirent_block_def get_from_def)
  then show ?thesis
    by (simp add: it_get_def mk_it_def dd_codec.dec_enc valid_disk_dirent_def)
qed

lemma out_dirent_offset: "off < 2 ^ 16 \<Longrightarrow> unat (dd_name_offset (out_dirent off e)) = off"
  by (simp add: out_dirent_def unat_of_nat)

lemma reset_count_block:
  assumes "es \<noteq> []" and "length es * 12 < 2 ^ 16"
  shows "reset_count (mk_it (dirent_block es @ x) r i c bs) =
      (Ok (), mk_it (dirent_block es @ x) r 0 (length es) bs)"
proof -
  have "dirent_block es @ x \<noteq> []"
    using assms(1) length_dirent_block[of es] block_bytes_ge[of "map out_name es"] by auto
  moreover have "dec_disk_dirent (dirent_block es @ x) = Some (out_dirent (length es * 12) (hd es))"
    using assms(1) by (cases es) (auto simp: dirent_block_def dd_codec.dec_enc valid_disk_dirent_def)
  moreover have "unat (dd_name_offset (out_dirent (length es * 12) (hd es))) = length es * 12"
    using assms(2) by (rule out_dirent_offset)
  ultimately show ?thesis
    by (simp add: reset_count_def mk_it_def div_mod_u16_def Let_def del: append_is_Nil_conv)
qed

lemma reset_count_end:
  "r \<in> {None, Some []} \<Longrightarrow> reset_count (mk_it [] r i c bs) = (Ok (), mk_it [] None 0 0 bs)"
  by (auto simp: reset_count_def mk_it_def)

lemma until_nul_zeros: "0 \<notin> set xs \<Longrightarrow> until_nul (xs @ replicate n 0) = xs"
proof (induction xs)
  case Nil
  show ?case by (cases n) auto
qed auto

text \<open>
  A block at the front of the iterator's data: \<open>z\<close> zero bytes fill it up, and it either spans the
  block size or is the last one.
\<close>

definition front_block :: "nat \<Rightarrow> dir_out list \<Rightarrow> nat \<Rightarrow> bytes \<Rightarrow> bool" where
  "front_block bs es z rest \<longleftrightarrow>
     es \<noteq> [] \<and> bs \<le> 65536 \<and> (\<forall>e \<in> set es. out_name e \<noteq> [] \<and> 0 \<notin> set (out_name e)) \<and>
     (if rest = [] then length (dirent_block es) + z \<le> bs else length (dirent_block es) + z = bs)"

lemma front_block_bounds:
  assumes "front_block bs es z rest"
  shows "length es * 12 < 2 ^ 16" and "j < length es \<Longrightarrow> name_off es j < 2 ^ 16"
proof -
  have *: "name_off es j < 2 ^ 16" if "j < length es" for j
  proof -
    have "out_name (es ! j) \<noteq> []" using assms that by (auto simp: front_block_def)
    then have "name_off es j < name_off es (Suc j)" using name_off_Suc[OF that] by simp
    also have "\<dots> \<le> length (dirent_block es)" using that by (intro name_off_le) simp
    also have "\<dots> \<le> 2 ^ 16" using assms by (auto simp: front_block_def split: if_splits)
    finally show ?thesis .
  qed
  then show "j < length es \<Longrightarrow> name_off es j < 2 ^ 16" .
  have "0 < length es" using assms by (simp add: front_block_def)
  with *[of 0] show "length es * 12 < 2 ^ 16" by (simp add: name_off_def block_names_def)
qed

lemma next_inner:
  assumes "front_block bs es z rest" and "Suc j < length es"
  shows "it_next (mk_it (dirent_block es @ x) r j (length es) bs) =
     (Some (Ok (out_item (es ! j))), mk_it (dirent_block es @ x) r (Suc j) (length es) bs)"
proof -
  let ?it = "mk_it (dirent_block es @ x) r j (length es) bs"
  have j: "j < length es" using assms(2) by simp
  note off = out_dirent_offset[OF front_block_bounds(2)[OF assms(1) j]]
    out_dirent_offset[OF front_block_bounds(2)[OF assms(1) assms(2)]]
  have len: "name_off es (Suc j) = name_off es j + length (out_name (es ! j))"
    by (rule name_off_Suc[OF j])
  have "name_off es (Suc j) < 2 ^ 16" by (rule front_block_bounds(2)[OF assms])
  then have "sub64 (name_off es (Suc j)) (name_off es j) = length (out_name (es ! j))"
      "add64 (name_off es j) (length (out_name (es ! j))) = name_off es (Suc j)"
    using len by (simp_all add: sub64_small add64_small)
  moreover have "get_range (name_off es j) (name_off es (Suc j)) (dirent_block es @ x) = Some (out_name (es ! j))"
  proof -
    obtain pre post where "dirent_block es = pre @ out_name (es ! j) @ post" "length pre = name_off es j"
      using name_split[OF j] by blast
    then have "stored (dirent_block es @ x) (name_off es j) (out_name (es ! j))"
      by (auto simp: stored_iff)
    from stored_get_range[OF this] show ?thesis by (simp add: len)
  qed
  ultimately have "next_impl ?it = (Ok (out_item (es ! j)), mk_it (dirent_block es @ x) r (Suc j) (length es) bs)"
    using it_get_block[OF j, of x r j "length es" bs] it_get_block[OF assms(2), of x r j "length es" bs]
      assms(2) off
    by (simp add: next_impl_def mk_it_def out_item_def Let_def) (simp add: out_dirent_def)
  with j show ?thesis by (simp add: it_next_def mk_it_def)
qed

lemma next_impl_last:
  assumes "it_get it (it_i it) = Ok dd" and "dirent_file_type_of_u8 (dd_file_type dd) = Ok t"
    and "\<not> it_i it + 1 < it_count it" and "min (length (it_data it)) (it_block_size it) = stop"
    and "get_range (unat (dd_name_offset dd)) stop (it_data it) = Some name"
    and "reset_count (it\<lparr>it_data := drop stop (it_data it)\<rparr>) = (Ok u, it')"
  shows "next_impl it = (Ok \<lparr>di_disk_id = dd_disk_id dd, di_file_type = t, di_name = until_nul name\<rparr>, it')"
  using assms by (simp add: next_impl_def Let_def)

lemma next_last:
  assumes "front_block bs es z rest" and "Suc j = length es"
    and "reset_count (mk_it rest r j (length es) bs) = (Ok (), it')"
  shows "it_next (mk_it (dirent_block es @ replicate z 0 @ rest) r j (length es) bs) =
     (Some (Ok (out_item (es ! j))), it')"
proof -
  let ?d = "dirent_block es @ replicate z 0 @ rest"
  have j: "j < length es" using assms(2) by simp
  note off = out_dirent_offset[OF front_block_bounds(2)[OF assms(1) j]]
  have stop: "min (length ?d) bs = length (dirent_block es) + z"
  proof (cases "rest = []")
    case True
    with assms(1) have "length (dirent_block es) + z \<le> bs" by (simp add: front_block_def)
    with True show ?thesis by simp
  next
    case False
    with assms(1) have "length (dirent_block es) + z = bs" by (simp add: front_block_def)
    then show ?thesis by simp
  qed
  obtain pre where split: "dirent_block es = pre @ out_name (es ! j)" "length pre = name_off es j"
    using name_split[OF j] assms(2) by auto
  then have "stored ?d (name_off es j) (out_name (es ! j) @ replicate z 0)"
    unfolding stored_iff by (intro exI[of _ pre] exI[of _ rest]) simp
  from stored_get_range[OF this]
  have "get_range (name_off es j) (length (dirent_block es) + z) ?d =
      Some (out_name (es ! j) @ replicate z 0)"
    by (simp add: split add.assoc)
  then have name: "get_range (unat (dd_name_offset (out_dirent (name_off es j) (es ! j))))
      (length (dirent_block es) + z) (it_data (mk_it ?d r j (length es) bs)) =
      Some (out_name (es ! j) @ replicate z 0)"
    by (simp only: off) (simp add: mk_it_def)
  have nul: "until_nul (out_name (es ! j) @ replicate z 0) = out_name (es ! j)"
    using assms(1) j by (intro until_nul_zeros) (auto simp: front_block_def)
  have "next_impl (mk_it ?d r j (length es) bs) =
      (Ok \<lparr>di_disk_id = dd_disk_id (out_dirent (name_off es j) (es ! j)), di_file_type = fst (snd (es ! j)),
           di_name = until_nul (out_name (es ! j) @ replicate z 0)\<rparr>, it')"
  proof (rule next_impl_last[OF _ _ _ _ name])
    show "it_get (mk_it ?d r j (length es) bs) (it_i (mk_it ?d r j (length es) bs)) =
        Ok (out_dirent (name_off es j) (es ! j))"
      using it_get_block[OF j, of "replicate z 0 @ rest" r j "length es" bs] by (simp add: mk_it_def)
    show "dirent_file_type_of_u8 (dd_file_type (out_dirent (name_off es j) (es ! j))) = Ok (fst (snd (es ! j)))"
      by (simp add: out_dirent_def)
    show "\<not> it_i (mk_it ?d r j (length es) bs) + 1 < it_count (mk_it ?d r j (length es) bs)"
      by (simp add: mk_it_def assms(2))
    show "min (length (it_data (mk_it ?d r j (length es) bs))) (it_block_size (mk_it ?d r j (length es) bs)) =
        length (dirent_block es) + z"
      using stop by (simp only: mk_it_def dirents_iterator.simps)
    have "drop (length (dirent_block es) + z) ?d = rest" by simp
    then show "reset_count ((mk_it ?d r j (length es) bs)
        \<lparr>it_data := drop (length (dirent_block es) + z) (it_data (mk_it ?d r j (length es) bs))\<rparr>) = (Ok (), it')"
      using assms(3) by (simp only: mk_it_def dirents_iterator.simps)
  qed
  then have "next_impl (mk_it ?d r j (length es) bs) = (Ok (out_item (es ! j)), it')"
    by (simp only: nul) (simp add: out_item_def out_dirent_def)
  with j show ?thesis by (simp add: it_next_def mk_it_def)
qed

lemma items_block:
  assumes "front_block bs es z rest" and "j < length es"
    and "reset_count (mk_it rest r (length es - 1) (length es) bs) = (Ok (), it')"
    and "it_items it' = Some (Ok items)"
  shows "it_items (mk_it (dirent_block es @ replicate z 0 @ rest) r j (length es) bs) =
     Some (Ok (map out_item (drop j es) @ items))"
  using assms(2)
proof (induction "length es - j" arbitrary: j)
  case (Suc k)
  show ?case
  proof (cases "Suc j < length es")
    case True
    then have "it_items (mk_it (dirent_block es @ replicate z 0 @ rest) r (Suc j) (length es) bs) =
        Some (Ok (map out_item (drop (Suc j) es) @ items))"
      using Suc by auto
    then show ?thesis
      using Suc.prems
      by (simp only: it_items.simps[of "mk_it _ r j _ _"] next_inner[OF assms(1) True])
        (simp add: Cons_nth_drop_Suc[symmetric])
  next
    case False
    then have j: "Suc j = length es" using Suc.prems by simp
    then have "reset_count (mk_it rest r j (length es) bs) = (Ok (), it')"
      using assms(3) by (metis diff_Suc_1)
    note step = next_last[OF assms(1) j this]
    show ?thesis
      using Suc.prems j assms(4)
      by (simp only: it_items.simps[of "mk_it _ r j _ _"] step)
        (simp add: Cons_nth_drop_Suc[symmetric])
  qed
qed simp

definition ok_group :: "nat \<Rightarrow> dir_out list \<Rightarrow> bool" where
  "ok_group bs g \<longleftrightarrow>
     g \<noteq> [] \<and> block_bytes (map out_name g) \<le> bs \<and>
     (\<forall>e \<in> set g. out_name e \<noteq> [] \<and> 0 \<notin> set (out_name e))"

lemma dir_data_Cons:
  "dir_data bs (g # gs) =
     dirent_block g @ replicate (if gs = [] then 0 else bs - length (dirent_block g)) 0 @ dir_data bs gs"
  by (cases gs) (simp_all add: pad_block_def)

lemma front_block_group:
  assumes "ok_group bs g" and "bs \<le> 65536"
  shows "front_block bs g (if gs = [] then 0 else bs - length (dirent_block g)) (dir_data bs gs)"
proof -
  have "length (dirent_block g) \<le> bs"
    using assms(1) by (simp add: ok_group_def length_dirent_block)
  moreover have "dir_data bs [] = []" by simp
  ultimately show ?thesis
    using assms by (auto simp: front_block_def ok_group_def)
qed

lemma it_items_end: "it_items (mk_it [] None 0 0 bs) = Some (Ok [])"
  by (simp add: it_items.simps[of "mk_it [] None 0 0 bs"] it_next_def) (simp add: mk_it_def)

lemma items_dir_data:
  assumes "bs \<le> 65536" and "\<forall>g \<in> set (g0 # gs). ok_group bs g" and "r \<in> {None, Some []}"
  shows "reset_count (mk_it (dir_data bs (g0 # gs)) r i c bs) =
        (Ok (), mk_it (dir_data bs (g0 # gs)) r 0 (length g0) bs) \<and>
     it_items (mk_it (dir_data bs (g0 # gs)) r 0 (length g0) bs) =
        Some (Ok (map out_item (concat (g0 # gs))))"
  using assms(2)
proof (induction gs arbitrary: g0 i c)
  case Nil
  then have g: "ok_group bs g0" by simp
  note fb = front_block_group[OF g assms(1), of "[]"]
  have "0 < length g0" using g by (simp add: ok_group_def)
  moreover have "reset_count (mk_it (dir_data bs []) r (length g0 - 1) (length g0) bs) =
      (Ok (), mk_it [] None 0 0 bs)"
    using reset_count_end[OF assms(3)] by simp
  ultimately show ?case
    using items_block[OF fb _ _ it_items_end, of 0 r]
      reset_count_block[OF _ front_block_bounds(1)[OF fb], of "[]" r i c bs]
    by (auto simp: dir_data_Cons)
next
  case (Cons g1 gs)
  then have g: "ok_group bs g0" by simp
  note fb = front_block_group[OF g assms(1), of "g1 # gs"]
  have g0: "g0 \<noteq> []" using g by (simp add: ok_group_def)
  from Cons.IH[of g1] Cons.prems have IH:
    "\<And>i c. reset_count (mk_it (dir_data bs (g1 # gs)) r i c bs) =
       (Ok (), mk_it (dir_data bs (g1 # gs)) r 0 (length g1) bs)"
    "it_items (mk_it (dir_data bs (g1 # gs)) r 0 (length g1) bs) =
       Some (Ok (map out_item (concat (g1 # gs))))"
    by auto
  from items_block[OF fb _ IH(1) IH(2), of 0] g0
    reset_count_block[OF g0 front_block_bounds(1)[OF fb]]
  show ?case
    unfolding dir_data_Cons[of bs g0] by simp
qed

lemma dirents_roundtrip:
  assumes "bs \<le> 65536" and "gs \<noteq> []" and "\<forall>g \<in> set gs. ok_group bs g"
  shows "\<exists>it. dirents_iterator_new (dir_data bs gs, []) bs = Ok it \<and>
     it_items it = Some (Ok (map out_item (concat gs)))"
proof -
  obtain g0 gs' where gs: "gs = g0 # gs'" using assms(2) by (cases gs) auto
  from items_dir_data[OF assms(1), of g0 gs' "Some []" 0 0] assms(3) gs show ?thesis
    by (auto simp: dirents_iterator_new_def mk_it_def)
qed

section \<open>Writing the blocks\<close>

definition child_out :: "u32 option \<Rightarrow> u32 list \<Rightarrow> bytes \<times> dirent \<Rightarrow> dir_out option" where
  "child_out own parents c =
     map_option (\<lambda>i. (i, dirent_file_type (snd c), fst c)) (entry_disk_id own parents (snd c))"

lemma write_dirent_entries_effect:
  assumes "list_all2 (\<lambda>c e. child_out own parents c = Some e) (take n cs) es" and "n \<le> length cs"
    and "\<forall>c \<in> set cs. fst c \<noteq> []" and "off + length (block_names es) \<le> 65536"
  shows "write_dirent_entries n own parents cs off w b =
     (Ok (drop n cs, w + n * 12),
      b\<lparr>b_writer := write_all (block_headers off es) (b_writer b),
        b_name_buf := b_name_buf b @ block_names es\<rparr>)"
  using assms
proof (induction n arbitrary: cs es off w b)
  case 0
  then show ?case by (simp add: block_names_def)
next
  case (Suc n)
  then obtain name child cs' where cs: "cs = (name, child) # cs'" by (cases cs) auto
  with Suc.prems(1) obtain e es' where
    e: "es = e # es'" "child_out own parents (name, child) = Some e"
       "list_all2 (\<lambda>c e. child_out own parents c = Some e) (take n cs') es'"
    by (auto simp: list_all2_Cons1)
  obtain i where i: "entry_disk_id own parents child = Some i" "e = (i, dirent_file_type child, name)"
    using e(2) by (auto simp: child_out_def)
  have "off < 65536" "off + length name + length (block_names es') \<le> 65536"
    using Suc.prems(3,4) cs e(1) i(2) by (auto simp: block_names_def) (cases name; simp)+
  moreover from this Suc.IH[OF e(3), of "off + length name"] Suc.prems cs
  have "write_dirent_entries n own parents cs' (off + length name) (w + 12) b' =
     (Ok (drop n cs', w + 12 + n * 12),
      b'\<lparr>b_writer := write_all (block_headers (off + length name) es') (b_writer b'),
        b_name_buf := b_name_buf b' @ block_names es'\<rparr>)" for b'
    by simp
  ultimately show ?case
    using i cs e(1)
    by (simp add: Let_def write_all_append out_dirent_def block_names_def)
qed

lemma zero_fill_effect:
  "0 < align \<Longrightarrow> \<exists>st. zero_fill n align b =
     (Ok ((align - n mod align) mod align),
      b\<lparr>b_writer := write_all (replicate ((align - n mod align) mod align) 0) (b_writer b), b_stats := st\<rparr>)"
proof (cases "n mod align = 0")
  case True
  then show ?thesis
    by (intro exI[of _ "b_stats b"]) (simp add: zero_fill_def)
next
  case False
  assume "0 < align"
  with False have "(align - n mod align) mod align = align - n mod align" by simp
  with False show ?thesis
    by (intro exI[of _ "(b_stats b)\<lparr>st_block_end_padding := st_block_end_padding (b_stats b) +
        (align - n mod align)\<rparr>"]) (simp add: zero_fill_def Let_def)
qed

lemma fill_to_block: "n \<le> bs \<Longrightarrow> 0 < n \<Longrightarrow> (bs - n mod bs) mod bs = bs - (n :: nat)"
  by (cases "n = bs") auto

lemma write_dirent_blocks_effect:
  assumes "list_all2 (\<lambda>c e. child_out own parents c = Some e) cs es"
    and "sum_list counts = length cs" and "\<forall>c \<in> set cs. fst c \<noteq> []"
    and "block_size b = bs" and "bs \<le> 65536" and "b_name_buf b = []"
    and "\<forall>g \<in> set (chunks counts es). g \<noteq> [] \<and> block_bytes (map out_name g) \<le> bs"
  shows "\<exists>st. write_dirent_blocks counts own parents cs b =
     (Ok (), b\<lparr>b_writer := write_all (concat (map (\<lambda>g. pad_block bs (dirent_block g)) (chunks counts es))) (b_writer b),
        b_cur_data_block := b_cur_data_block b + length counts, b_name_buf := [], b_stats := st\<rparr>)"
  using assms
proof (induction counts arbitrary: cs es b)
  case Nil
  then show ?case by (intro exI[of _ "b_stats b"]) (cases b; simp)
next
  case (Cons n counts)
  let ?g = "take n es"
  have g: "?g \<noteq> []" "block_bytes (map out_name ?g) \<le> bs"
    using Cons.prems(7) by auto
  have len: "length es = length cs" "n \<le> length cs"
    using Cons.prems(1,2) by (auto dest: list_all2_lengthD)
  then have lg: "length ?g = n" by simp
  have "length (dirent_block ?g) \<le> bs" using g(2) by (simp add: length_dirent_block)
  then have fits: "n * 12 + length (block_names ?g) \<le> bs" using lg by (simp add: dirent_block_def)
  have "list_all2 (\<lambda>c e. child_out own parents c = Some e) (take n cs) ?g"
    using Cons.prems(1) by (rule list_all2_takeI)
  from write_dirent_entries_effect[OF this len(2) Cons.prems(3), of "n * 12" 0 b]
  have entries: "write_dirent_entries n own parents cs (n * 12) 0 b =
      (Ok (drop n cs, n * 12),
       b\<lparr>b_writer := write_all (block_headers (n * 12) ?g) (b_writer b), b_name_buf := block_names ?g\<rparr>)"
    using fits Cons.prems(5,6) by simp
  let ?len = "n * 12 + length (block_names ?g)"
  have "0 < ?len" using g(1) lg by (cases n) auto
  let ?b1 = "b\<lparr>b_writer := write_all (dirent_block ?g) (b_writer b), b_name_buf := block_names ?g\<rparr>"
  have bs: "block_size ?b1 = bs" "0 < bs"
    using Cons.prems(4) le_trans[OF Suc_leI[OF \<open>0 < ?len\<close>] fits] by (simp_all add: block_size_def)
  obtain st where "zero_fill ?len bs ?b1 = (Ok ((bs - ?len mod bs) mod bs),
      ?b1\<lparr>b_writer := write_all (replicate ((bs - ?len mod bs) mod bs) 0) (b_writer ?b1), b_stats := st\<rparr>)"
    using zero_fill_effect[OF bs(2), of ?len ?b1] by blast
  then have fill: "zero_fill ?len bs ?b1 = (Ok (bs - ?len),
       b\<lparr>b_writer := write_all (pad_block bs (dirent_block ?g)) (b_writer b), b_name_buf := block_names ?g,
         b_stats := st\<rparr>)"
    unfolding fill_to_block[OF fits \<open>0 < ?len\<close>]
    using lg by (simp add: pad_block_def write_all_append dirent_block_def)
  let ?b2 = "b\<lparr>b_writer := write_all (pad_block bs (dirent_block ?g)) (b_writer b), b_name_buf := [],
         b_stats := st, b_cur_data_block := b_cur_data_block b + 1\<rparr>"
  have "zero_fill_block ?len ?b1 = zero_fill ?len bs ?b1"
    using bs by (simp add: zero_fill_block_def)
  note zfb = st_seq_step[of "zero_fill_block ?len" ?b1, OF trans[OF this fill]]
  have step: "write_dirent_blocks (n # counts) own parents cs b =
      write_dirent_blocks counts own parents (drop n cs) ?b2"
    using lg
    by (simp add: st_bind_step[of "write_dirent_entries n own parents cs (n * 12) 0", OF entries]
        zfb[unfolded dirent_block_def lg] write_all_append dirent_block_def)
  have bs2: "block_size ?b2 = bs" using Cons.prems(4) by (simp add: block_size_def)
  have "list_all2 (\<lambda>c e. child_out own parents c = Some e) (drop n cs) (drop n es)"
    using Cons.prems(1) by (rule list_all2_dropI)
  moreover have "sum_list counts = length (drop n cs)"
    using Cons.prems(2) by simp
  moreover have "\<forall>c \<in> set (drop n cs). fst c \<noteq> []"
    using Cons.prems(3) by (auto dest: in_set_dropD)
  moreover have "b_name_buf ?b2 = []" by simp
  moreover have "\<forall>g \<in> set (chunks counts (drop n es)). g \<noteq> [] \<and> block_bytes (map out_name g) \<le> bs"
    using Cons.prems(7) by simp
  ultimately obtain st' where rest:
    "write_dirent_blocks counts own parents (drop n cs) ?b2 =
     (Ok (), ?b2\<lparr>b_writer := write_all (concat (map (\<lambda>g. pad_block bs (dirent_block g)) (chunks counts (drop n es)))) (b_writer ?b2),
        b_cur_data_block := b_cur_data_block ?b2 + length counts, b_name_buf := [], b_stats := st'\<rparr>)"
    using Cons.IH bs2 Cons.prems(5) by blast
  show ?case
    unfolding step rest by (intro exI[of _ st']) (simp add: write_all_append)
qed

section \<open>A directory written and read back\<close>

lemma padded_blocks:
  assumes "gs \<noteq> []"
  shows "\<exists>z. concat (map (\<lambda>g. pad_block bs (dirent_block g)) gs) = dir_data bs gs @ replicate z 0"
  using assms
proof (induction bs gs rule: dir_data.induct)
  case (2 bs g)
  show ?case by (simp add: pad_block_def)
next
  case (3 bs g g' gs)
  then obtain z where "concat (map (\<lambda>g. pad_block bs (dirent_block g)) (g' # gs)) =
      dir_data bs (g' # gs) @ replicate z 0" by blast
  then show ?case by (intro exI[of _ z]) simp
qed simp

lemma length_dir_data:
  assumes "gs \<noteq> []" and "\<forall>g \<in> set gs. block_bytes (map out_name g) \<le> bs"
  shows "length (dir_data bs gs) = bs * (length gs - 1) + block_bytes (map out_name (last gs))"
  using assms
proof (induction bs gs rule: dir_data.induct)
  case (3 bs g g' gs)
  then have "length (pad_block bs (dirent_block g)) = bs"
    by (simp add: pad_block_def length_dirent_block)
  with 3 show ?case by simp
qed (simp_all add: length_dirent_block)

lemma chunks_map: "chunks cs (map f xs) = map (map f) (chunks cs xs)"
  by (induction cs xs rule: chunks.induct) (auto simp: take_map drop_map)

lemma block_size_12: "b_block_size_bits b = 12 \<Longrightarrow> block_size b = 4096"
  by (simp add: block_size_def shl64_def)

lemma child_out_name: "child_out own parents c = Some e \<Longrightarrow> out_name e = fst c"
  by (auto simp: child_out_def)

lemma outs_names:
  "list_all2 (\<lambda>c e. child_out own parents c = Some e) cs es \<Longrightarrow> map out_name es = map fst cs"
  by (induction rule: list_all2_induct) (auto dest: child_out_name)

lemma seek_block_effect:
  "b_cur_data_block b \<noteq> n \<or> w_pos (b_writer b) = block_addr b n \<Longrightarrow>
     seek_block n b = (Ok (), b\<lparr>b_writer := seek_start (block_addr b n) (b_writer b), b_cur_data_block := n\<rparr>)"
  by (cases b) (auto simp: seek_block_def bseek_def seek_start_def)

lemma directory_blocks:
  assumes prep: "prepare_dirent_data 4096 start d0 = (Ok n, d1)" "d_n_dirents_per_block d0 = []"
    and d: "d_n_dirents_per_block d = d_n_dirents_per_block d1" "d_start_block d = d_start_block d1"
      "d_total_size d = d_total_size d1" "map fst (d_children d) = map fst (d_children d0)"
      "d_disk_id d = Some i"
    and names: "\<forall>c \<in> set (d_children d). fst c \<noteq> [] \<and> 0 \<notin> set (fst c) \<and> length (fst c) \<le> 4084"
    and ne: "d_children d \<noteq> []"
    and outs: "list_all2 (\<lambda>c e. child_out (Some i) parents c = Some e) (d_children d) es"
    and b: "b_block_size_bits b = 12" "b_name_buf b = []"
      "b_cur_data_block b \<noteq> start \<or> w_pos (b_writer b) = start * 4096"
  shows "\<exists>b' bs it. write_dirents_enter d (b, parents) = (Ok (), d, (b', parents @ [i])) \<and>
     stored (w_data (b_writer b')) (start * 4096) bs \<and> length bs = d_total_size d \<and>
     unat (d_start_block d) = start \<and>
     dirents_iterator_new (bs, []) 4096 = Ok it \<and> it_items it = Some (Ok (map out_item es))"
proof -
  have "start < 2 ^ 32"
    using prep(1) by (cases d0) (auto simp: prepare_dirent_data_def split: if_splits)
  moreover have "\<forall>n \<in> fst ` set (d_children d0). 0 < length n \<and> 12 + length n \<le> 4096"
  proof -
    have "fst ` set (d_children d0) = fst ` set (d_children d)"
      using d(4) by (metis list.set_map)
    with names show ?thesis by auto
  qed
  moreover have "d_children d0 \<noteq> []" using d(4) ne by auto
  ultimately have p: "unat (d_start_block d1) = start"
    "let gs = chunks (d_n_dirents_per_block d1) (map fst (d_children d0))
      in gs \<noteq> [] \<and> concat gs = map fst (d_children d0) \<and> (\<forall>g \<in> set gs. g \<noteq> [] \<and> block_bytes g \<le> 4096) \<and>
         d_total_size d1 = 4096 * (length gs - 1) + block_bytes (last gs)"
    using prepare_dirent_data_ok[of 4096 d0 start] prep by auto
  let ?gs = "chunks (d_n_dirents_per_block d) es"
  have gs: "chunks (d_n_dirents_per_block d1) (map fst (d_children d0)) = map (map out_name) ?gs"
    using outs_names[OF outs] d(1,4) by (simp flip: chunks_map)
  have ok: "?gs \<noteq> []" "\<forall>g \<in> set ?gs. g \<noteq> [] \<and> block_bytes (map out_name g) \<le> 4096"
    "d_total_size d = 4096 * (length ?gs - 1) + block_bytes (map out_name (last ?gs))"
    using p(2) unfolding gs by (auto simp: Let_def d(3) last_map)
  have "sum_list (d_n_dirents_per_block d1) = length (d_children d0)"
    using prep(1) by (cases d0) (auto simp: prepare_dirent_data_def Let_def split: if_splits prod.splits)
  then have sum: "sum_list (d_n_dirents_per_block d) = length (d_children d)"
    using d(1,4) by (metis length_map)
  let ?b1 = "b\<lparr>b_writer := seek_start (start * 4096) (b_writer b), b_cur_data_block := start\<rparr>"
  have seek: "seek_block (unat (d_start_block d)) b = (Ok (), ?b1)"
    using seek_block_effect[of b start] b p(1) d(2) by (simp add: block_addr_def block_size_12)
  have bs1: "block_size ?b1 = 4096" using b(1) by (intro block_size_12) simp
  have "\<forall>c \<in> set (d_children d). fst c \<noteq> []" "b_name_buf ?b1 = []"
    using names b(2) by auto
  from write_dirent_blocks_effect[OF outs sum this(1) bs1 _ this(2) ok(2)] obtain b' where
    blocks: "write_dirent_blocks (d_n_dirents_per_block d) (Some i) parents (d_children d) ?b1 = (Ok (), b')" and
    w: "b_writer b' = write_all (concat (map (\<lambda>g. pad_block 4096 (dirent_block g)) ?gs)) (b_writer ?b1)"
    by auto
  have enter: "write_dirents_enter d (b, parents) = (Ok (), d, (b', parents @ [i]))"
    using blocks d(5)
    by (simp add: write_dirents_enter_def st_seq_step[of "seek_block (unat (d_start_block d))" b, OF seek])
  obtain z where z: "concat (map (\<lambda>g. pad_block 4096 (dirent_block g)) ?gs) = dir_data 4096 ?gs @ replicate z 0"
    using padded_blocks[OF ok(1)] by blast
  have len: "length (dir_data 4096 ?gs) = d_total_size d"
    using length_dir_data[OF ok(1)] ok(2,3) by simp
  have "0 < d_total_size d"
  proof -
    have "0 < 12 * length (map out_name (last ?gs))" using ok(1,2) by simp
    also have "\<dots> \<le> d_total_size d"
      unfolding ok(3) by (rule le_trans[OF block_bytes_ge le_add2])
    finally show ?thesis .
  qed
  then have "dir_data 4096 ?gs \<noteq> []" using len by auto
  then have "stored (w_data (b_writer b')) (start * 4096) (dir_data 4096 ?gs @ replicate z 0)"
    using write_all_stored[of "dir_data 4096 ?gs @ replicate z 0" "b_writer ?b1"] by (simp add: w z)
  then have st: "stored (w_data (b_writer b')) (start * 4096) (dir_data 4096 ?gs)"
    by (simp add: stored_append)
  have "concat ?gs = es"
    using sum list_all2_lengthD[OF outs] by (intro concat_chunks) simp
  moreover have "\<forall>g \<in> set ?gs. ok_group 4096 g"
  proof -
    have "\<forall>e \<in> set es. out_name e \<noteq> [] \<and> 0 \<notin> set (out_name e)"
      using names outs_names[OF outs] by (metis (no_types, lifting) image_iff list.set_map)
    moreover have "set g \<subseteq> set es" if "g \<in> set ?gs" for g
      using that \<open>concat ?gs = es\<close> by (metis UN_upper set_concat)
    ultimately show ?thesis using ok(2) unfolding ok_group_def by blast
  qed
  ultimately obtain it where "dirents_iterator_new (dir_data 4096 ?gs, []) 4096 = Ok it"
      "it_items it = Some (Ok (map out_item es))"
    using dirents_roundtrip[of 4096 ?gs] ok(1) by auto
  with enter st len p(1) d(2) show ?thesis by auto
qed

end
