(* ===== verification/Erofs_Content.thy ===== *)
theory Erofs_Content
  imports Erofs_Dirblock
begin

text \<open>
  Inodes and file contents written by the builder and read back: what \<open>write_inode\<close> puts at which
  address, where \<open>add_file\<close> puts the contents, and that \<open>get_inode\<close> and \<open>get_data\<close> of the reader
  return what was written.
\<close>

section \<open>What an inode occupies\<close>

fun xattr_entry_bytes :: "(nat \<times> xattr_entry) list \<Rightarrow> xattr_map \<Rightarrow> bytes" where
  "xattr_entry_bytes ((prefix_len, entry) # es) ((key, val) # kvs) =
     enc_xattr_entry entry @ drop prefix_len key @ val @ xattr_entry_bytes es kvs"
| "xattr_entry_bytes _ _ = []"

definition xattr_section :: "(nat \<times> xattr_entry) list \<Rightarrow> xattr_map \<Rightarrow> bytes" where
  "xattr_section entries xattrs =
     (if xattrs = [] then []
      else enc_xattr_header zeroed_xattr_header @ xattr_entry_bytes entries xattrs @
           replicate (xc_padding (xattr_count (map snd entries))) 0)"

definition tail_bytes :: "bytes option \<Rightarrow> bytes" where
  "tail_bytes tail = (case tail of None \<Rightarrow> [] | Some t \<Rightarrow> t)"

definition inode_image :: "build_inode \<Rightarrow> (nat \<times> xattr_entry) list \<Rightarrow> xattr_map \<Rightarrow> bytes option \<Rightarrow> bytes" where
  "inode_image i entries xattrs tail =
     build_inode_bytes (inode_set_xattr_count (of_nat (xc_xattr_count (xattr_count (map snd entries)))) i) @
     xattr_section entries xattrs @ tail_bytes tail"

lemma make_xattr_entry_ok:
  assumes "make_xattr_entry (key, val) = Ok (prefix_len, entry)"
  shows "prefix_len \<le> length key" and "unat (xe_name_len entry) = length key - prefix_len"
    and "unat (xe_value_size entry) = length val"
  using assms
  by (auto simp: make_xattr_entry_def unat_of_nat simp del: of_nat_diff split: option.splits if_splits)

lemma xattr_entry_bytes_length:
  assumes "make_xattr_entries xattrs = Ok entries"
  shows "length (xattr_entry_bytes entries xattrs) = sum_list (map xattr_entry_len (map snd entries))"
  using assms
proof (induction xattrs arbitrary: entries)
  case (Cons kv xattrs)
  obtain key val where kv: "kv = (key, val)" by (cases kv)
  from Cons.prems obtain p e es where
    e: "make_xattr_entry (key, val) = Ok (p, e)" "make_xattr_entries xattrs = Ok es" "entries = (p, e) # es"
    by (auto simp: kv result_simps)
  with Cons.IH[OF e(2)] make_xattr_entry_ok[OF e(1)] show ?case
    by (simp add: kv xattr_entry_len_def xe_codec.enc_length valid_xattr_entry_def)
qed simp

lemma make_xattr_entries_Nil_iff: "make_xattr_entries xattrs = Ok entries \<Longrightarrow> entries = [] \<longleftrightarrow> xattrs = []"
  by (cases xattrs) (auto simp: result_simps)

lemma xattr_section_length:
  assumes "make_xattr_entries xattrs = Ok entries" and "xc_xattr_count (xattr_count (map snd entries)) \<le> 65535"
  shows "length (xattr_section entries xattrs) =
     xattr_count_to_len (of_nat (xc_xattr_count (xattr_count (map snd entries))))"
proof (cases "xattrs = []")
  case True
  then show ?thesis
    using assms(1) by (simp add: xattr_section_def xattr_count_def xattr_count_to_len_def)
next
  case False
  then have ne: "entries \<noteq> []" using make_xattr_entries_Nil_iff[OF assms(1)] by simp
  let ?len = "sum_list (map xattr_entry_len (map snd entries))"
  have pos: "0 < ?len" using ne by (cases entries) (auto simp: xattr_entry_len_def)
  let ?p = "round_up_to 4 ?len"
  have xc: "xattr_count (map snd entries) = \<lparr>xc_xattr_count = ?p div 4 + 1, xc_padding = ?p - ?len\<rparr>"
  proof -
    have "(?len = 0) = False" using pos by (metis less_numeral_extra(3))
    then show ?thesis by (simp only: xattr_count_def Let_def if_False)
  qed
  have p: "?len \<le> ?p" "4 dvd ?p" using round_up_to_ge[of 4] round_up_to_dvd[of 4] by simp_all
  have "unat (of_nat (?p div 4 + 1) :: u16) = ?p div 4 + 1"
    by (rule unat_of_nat_less) (use assms(2) xc in simp)
  moreover from this have "(of_nat (?p div 4 + 1) :: u16) \<noteq> 0"
    by (metis add_eq_0_iff_both_eq_0 unat_0 zero_neq_one)
  ultimately have "xattr_count_to_len (of_nat (?p div 4 + 1)) = 12 + ?p"
    using p(2) by (simp only: xattr_count_to_len_def) simp
  moreover have "length (enc_xattr_header zeroed_xattr_header) = 12"
    by (simp add: xh_codec.enc_length valid_xattr_header_def zeroed_xattr_header_def)
  ultimately show ?thesis
    using False p(1) xattr_entry_bytes_length[OF assms(1)] by (simp add: xattr_section_def xc)
qed

lemma write_xattr_entries_effect:
  "make_xattr_entries xattrs = Ok entries \<Longrightarrow>
     write_xattr_entries entries xattrs b =
       (Ok (), b\<lparr>b_writer := write_all (xattr_entry_bytes entries xattrs) (b_writer b)\<rparr>)"
proof (induction xattrs arbitrary: entries b)
  case (Cons kv xattrs)
  obtain key val where kv: "kv = (key, val)" by (cases kv)
  from Cons.prems obtain p e es where
    e: "make_xattr_entry (key, val) = Ok (p, e)" "make_xattr_entries xattrs = Ok es" "entries = (p, e) # es"
    by (auto simp: kv result_simps)
  have "get_from p key = Some (drop p key)"
    using make_xattr_entry_ok(1)[OF e(1)] by (simp add: get_from_def)
  then show ?case
    using Cons.IH[OF e(2)] by (simp add: kv e(3) write_all_append)
qed simp

lemma write_xattrs_effect:
  assumes "make_xattr_entries xattrs = Ok entries"
  shows "write_xattrs entries (xc_padding (xattr_count (map snd entries))) xattrs b =
     (Ok (), b\<lparr>b_writer := write_all (xattr_section entries xattrs) (b_writer b)\<rparr>)"
proof (cases "xattrs = []")
  case False
  note step = st_seq_step[of "write_xattr_entries entries xattrs", OF write_xattr_entries_effect[OF assms]]
  from False show ?thesis
    by (simp add: write_xattrs_def xattr_section_def step write_all_append)
qed (simp add: write_xattrs_def xattr_section_def)

lemma write_tail_effect:
  "\<exists>st. write_tail tail b = (Ok (), b\<lparr>b_writer := write_all (tail_bytes tail) (b_writer b), b_stats := st\<rparr>)"
proof (cases tail)
  case None
  then show ?thesis
    by (intro exI[of _ "b_stats b"]) (simp add: write_tail_def tail_bytes_def)
next
  case (Some t)
  then show ?thesis
    by (intro exI[of _ "(b_stats b)\<lparr>st_tails := st_tails (b_stats b) + 1,
        st_tail_size := st_tail_size (b_stats b) + length t\<rparr>"]) (simp add: write_tail_def tail_bytes_def)
qed


section \<open>Placing an inode\<close>

text \<open>
  The writer stands at the next inode address, which is aligned and not before the metadata start
  \<open>m\<close>, in a builder with the block size the code uses.
\<close>

definition inode_pre :: "nat \<Rightarrow> builder \<Rightarrow> bool" where
  "inode_pre m b \<longleftrightarrow>
     b_block_size_bits b = 12 \<and> b_meta_block b = Some m \<and> w_pos (b_writer b) = b_inode_addr b \<and>
     32 dvd b_inode_addr b \<and> m * 4096 \<le> b_inode_addr b"

text \<open>The one case the code misplaces: an inode that fills a whole block, at the start of a block.\<close>

definition exact_block :: "builder \<Rightarrow> nat \<Rightarrow> bool" where
  "exact_block b total_len \<longleftrightarrow> total_len = 4096 \<and> b_inode_addr b mod 4096 = 0"

definition inode_place :: "nat \<Rightarrow> nat \<Rightarrow> nat" where
  "inode_place addr total_len =
     (if addr div 4096 = (addr + total_len) div 4096 then addr else (addr div 4096 + 1) * 4096)"

lemma next_block:
  assumes "addr div 4096 \<noteq> (addr + n) div (4096 :: nat)" and "n \<le> 4096" and "\<not> (n = 4096 \<and> addr mod 4096 = 0)"
  shows "(addr + n) div 4096 = addr div 4096 + 1" and "addr mod 4096 \<noteq> 0"
    and "addr + (4096 - addr mod 4096) mod 4096 = (addr div 4096 + 1) * 4096"
proof -
  have split: "addr = 4096 * (addr div 4096) + addr mod 4096" "addr mod 4096 < 4096" by simp_all
  define q r where "q = addr div 4096" and "r = addr mod 4096"
  have addr: "addr = 4096 * q + r" "r < 4096" using split by (simp_all add: q_def r_def)
  have "r \<noteq> 0"
  proof
    assume "r = 0"
    with assms(2,3) have "n < 4096" by (auto simp: r_def)
    with \<open>r = 0\<close> addr have "(addr + n) div 4096 = q" by simp
    with assms(1) show False by (simp add: q_def)
  qed
  moreover have "(addr + n) div 4096 \<le> q + 1" using addr assms(2) by simp
  moreover have "q \<le> (addr + n) div 4096" using addr by simp
  ultimately show "(addr + n) div 4096 = addr div 4096 + 1" "addr mod 4096 \<noteq> 0"
    using assms(1) by (auto simp: q_def r_def)
  have "(4096 - r) mod 4096 = 4096 - r" using \<open>r \<noteq> 0\<close> by simp
  with addr show "addr + (4096 - addr mod 4096) mod 4096 = (addr div 4096 + 1) * 4096"
    by (simp add: q_def[symmetric] r_def[symmetric])
qed

lemma place_inode_effect:
  assumes "inode_pre m b" and "total_len \<le> 4096" and "\<not> exact_block b total_len"
  shows "\<exists>z st. place_inode total_len b =
     (Ok (), b\<lparr>b_writer := write_all (replicate z 0) (b_writer b),
       b_inode_addr := inode_place (b_inode_addr b) total_len, b_stats := st\<rparr>) \<and>
     b_inode_addr b + z = inode_place (b_inode_addr b) total_len"
proof -
  let ?addr = "b_inode_addr b"
  have bs: "block_size b = 4096" using assms(1) by (simp add: inode_pre_def block_size_12)
  show ?thesis
  proof (cases "?addr div 4096 = (?addr + total_len) div 4096")
    case True
    then show ?thesis
      by (intro exI[of _ 0] exI[of _ "b_stats b"]) (simp add: place_inode_def block_no_def bs inode_place_def)
  next
    case False
    note nb = next_block[OF False assms(2) assms(3)[unfolded exact_block_def]]
    let ?z = "(4096 - ?addr mod 4096) mod 4096"
    obtain st where "zero_fill_block ?addr b =
        (Ok ?z, b\<lparr>b_writer := write_all (replicate ?z 0) (b_writer b), b_stats := st\<rparr>)"
      using zero_fill_effect[of 4096 ?addr b] by (auto simp: zero_fill_block_def bs)
    note step = st_seq_step[of "zero_fill_block ?addr" b, OF this]
    have "block_no b ?addr \<noteq> block_no b (?addr + total_len)" using False by (simp add: block_no_def bs)
    then have "place_inode total_len b = (Ok (), b\<lparr>b_writer := write_all (replicate ?z 0) (b_writer b),
       b_inode_addr := inode_place ?addr total_len, b_stats := st\<rparr>)"
      using False nb(1) bs
      by (simp add: place_inode_def step Let_def inode_place_def block_no_def block_addr_def block_size_def)
    with nb(3) False show ?thesis
      by (intro exI[of _ ?z] exI[of _ st]) (simp add: inode_place_def)
  qed
qed

lemma inode_place_props:
  assumes "total_len \<le> 4096" and "\<not> (total_len = 4096 \<and> addr mod 4096 = 0)" and "32 dvd addr"
  shows "addr \<le> inode_place addr total_len" and "32 dvd inode_place addr total_len"
    and "inode_place addr total_len < addr + 4096"
    and "inode_place addr total_len mod 4096 + total_len \<le> 4096"
proof -
  have *: "addr \<le> inode_place addr total_len \<and> 32 dvd inode_place addr total_len \<and>
      inode_place addr total_len < addr + 4096 \<and> inode_place addr total_len mod 4096 + total_len \<le> 4096"
  proof (cases "addr div 4096 = (addr + total_len) div 4096")
    case True
    have "addr mod 4096 + total_len < 4096"
    proof (rule ccontr)
      assume "\<not> addr mod 4096 + total_len < 4096"
      then have "addr div 4096 * 4096 + 4096 \<le> addr + total_len" using div_mult_mod_eq[of addr 4096] by linarith
      then have "addr div 4096 + 1 \<le> (addr + total_len) div 4096" by simp
      with True show False by simp
    qed
    with True assms(3) show ?thesis by (simp add: inode_place_def)
  next
    case False
    note nb = next_block[OF False assms(1,2)]
    have "32 dvd (addr div 4096 + 1) * 4096"
      by (rule dvd_mult) simp
    moreover have "(4096 - addr mod 4096) mod 4096 < 4096" by simp
    ultimately show ?thesis
      using False nb(3) assms(1) by (simp add: inode_place_def)
  qed
  from * show "addr \<le> inode_place addr total_len" "32 dvd inode_place addr total_len"
    "inode_place addr total_len < addr + 4096" "inode_place addr total_len mod 4096 + total_len \<le> 4096" by simp_all
qed


lemma addr_to_disk_id_ok:
  assumes "b_block_size_bits b = 12" and "b_meta_block b = Some m" and "m * 4096 \<le> addr"
    and "32 dvd addr" and "addr - m * 4096 < 2 ^ 37"
  shows "\<exists>i. addr_to_disk_id b addr = Ok i \<and> m * 4096 + unat i * 32 = addr"
proof -
  have "32 dvd m * 4096" by (rule dvd_mult) simp
  from dvd_diff_nat[OF assms(4) this] have dvd: "32 dvd addr - m * 4096" .
  let ?k = "(addr - m * 4096) div 32"
  have "?k < 2 ^ 32" using assms(5) by (simp add: less_mult_imp_div_less)
  then have "unat (of_nat ?k :: u32) = ?k" by (intro unat_of_nat_less) simp
  moreover have "addr_to_disk_id b addr = Ok (of_nat ?k)"
    using assms dvd \<open>?k < 2 ^ 32\<close>
    by (simp add: addr_to_disk_id_def block_addr_def block_size_12 INODE_ALIGNMENT_def)
  ultimately show ?thesis using dvd assms(3) by (intro exI[of _ "of_nat ?k"]) simp
qed

lemma inode_image_length:
  assumes "make_xattr_entries xattrs = Ok entries" and "xc_xattr_count (xattr_count (map snd entries)) \<le> 65535"
  shows "length (inode_image i entries xattrs tail) =
     length (build_inode_bytes (inode_set_xattr_count
       (of_nat (xc_xattr_count (xattr_count (map snd entries)))) i)) +
     xattr_count_to_len (of_nat (xc_xattr_count (xattr_count (map snd entries)))) +
     (case tail of None \<Rightarrow> 0 | Some t \<Rightarrow> length t)"
  using xattr_section_length[OF assms]
  by (simp add: inode_image_def tail_bytes_def split: option.splits)

lemma write_inode_at:
  assumes bits: "b_block_size_bits b = 12" "b_meta_block b = Some m"
    and entries: "make_xattr_entries xattrs = Ok entries"
    and count: "xc_xattr_count (xattr_count (map snd entries)) \<le> 65535"
    and img: "img = inode_image i entries xattrs tail" and fits: "length img \<le> 4096"
    and addr: "m * 4096 \<le> addr" "32 dvd addr" "addr - m * 4096 < 2 ^ 37"
    and placed: "place_inode (length img) (b\<lparr>b_n_inodes := Suc (b_n_inodes b)\<rparr>) =
      (Ok (), b\<lparr>b_writer := write_all (replicate z 0) (b_writer b), b_n_inodes := Suc (b_n_inodes b),
        b_inode_addr := addr, b_stats := st1\<rparr>)"
  shows "\<exists>disk_id p st. write_inode i tail xattrs b = (Ok disk_id,
      b\<lparr>b_writer := write_all (replicate z 0 @ img @ replicate p 0) (b_writer b),
        b_n_inodes := b_n_inodes b + 1, b_inode_addr := addr + length img + p, b_stats := st\<rparr>) \<and>
     m * 4096 + unat disk_id * 32 = addr \<and> 32 dvd addr + length img + p \<and> p < 32"
proof -
  let ?len = "length img"
  let ?start = "b\<lparr>b_n_inodes := Suc (b_n_inodes b)\<rparr>"
  let ?at = "\<lambda>bytes st. b\<lparr>b_writer := write_all bytes (b_writer b), b_n_inodes := Suc (b_n_inodes b),
      b_inode_addr := addr, b_stats := st\<rparr>"
  note p = st_seq_step[of "place_inode ?len" ?start, OF placed]
  obtain disk_id where id: "addr_to_disk_id (?at (replicate z 0) st1) addr = Ok disk_id"
      "m * 4096 + unat disk_id * 32 = addr"
    using addr_to_disk_id_ok[of "?at (replicate z 0) st1" m addr] bits addr by auto
  let ?xc = "xattr_count (map snd entries)"
  let ?data = "build_inode_bytes (inode_set_xattr_count (of_nat (xc_xattr_count ?xc)) i)"
  let ?x = "xattr_section entries xattrs" and ?p = "(32 - ?len mod 32) mod 32"
  have "write_xattrs entries (xc_padding ?xc) xattrs (?at (replicate z 0 @ ?data) st1) =
      (Ok (), ?at (replicate z 0 @ ?data @ ?x) st1)"
    by (simp add: write_xattrs_effect[OF entries] write_all_append)
  note x = st_seq_step[of "write_xattrs entries (xc_padding ?xc) xattrs" "?at (replicate z 0 @ ?data) st1", OF this]
  obtain st2 where "write_tail tail (?at (replicate z 0 @ ?data @ ?x) st1) = (Ok (), ?at (replicate z 0 @ img) st2)"
    using write_tail_effect[of tail "?at (replicate z 0 @ ?data @ ?x) st1"]
    by (auto simp: write_all_append img inode_image_def)
  note t = st_seq_step[of "write_tail tail" "?at (replicate z 0 @ ?data @ ?x) st1", OF this]
  obtain st3 where "zero_fill ?len 32 (?at (replicate z 0 @ img) st2) =
      (Ok ?p, ?at (replicate z 0 @ img @ replicate ?p 0) st3)"
    using zero_fill_effect[of 32 ?len "?at (replicate z 0 @ img) st2"] by (auto simp: write_all_append)
  note f = st_bind_step[of "zero_fill ?len 32" "?at (replicate z 0 @ img) st2", OF this]
  have bs: "block_size ?start = 4096" using bits by (intro block_size_12) simp
  have total: "?len = length ?data + xattr_count_to_len (of_nat (xc_xattr_count ?xc)) +
      (case tail of None \<Rightarrow> 0 | Some t \<Rightarrow> length t)"
    unfolding img by (rule inode_image_length[OF entries count])
  have "write_inode i tail xattrs b = (Ok disk_id,
      (?at (replicate z 0 @ img @ replicate ?p 0) st3)\<lparr>b_inode_addr := addr + (?len + ?p)\<rparr>)"
    unfolding write_inode_def Let_def INODE_ALIGNMENT_def
    using entries count fits bs id(1)
    by (simp add: total[symmetric] p x t f write_all_append)
  moreover have "32 dvd addr + (?len + ?p)"
    by (rule dvd_add[OF addr(2) fill_dvd]) simp
  moreover have "?p < 32" by simp
  ultimately show ?thesis
    using id(2)
    by (intro exI[of _ disk_id] exI[of _ ?p] exI[of _ st3]) (simp add: add.assoc)
qed

lemma write_inode_effect:
  assumes pre: "inode_pre m b" and entries: "make_xattr_entries xattrs = Ok entries"
    and count: "xc_xattr_count (xattr_count (map snd entries)) \<le> 65535"
    and img: "img = inode_image i entries xattrs tail" and fits: "length img \<le> 4096"
    and corner: "\<not> exact_block b (length img)"
    and addr: "addr = inode_place (b_inode_addr b) (length img)" "addr - m * 4096 < 2 ^ 37"
  shows "\<exists>disk_id z p st. write_inode i tail xattrs b = (Ok disk_id,
      b\<lparr>b_writer := write_all (replicate z 0 @ img @ replicate p 0) (b_writer b),
        b_n_inodes := b_n_inodes b + 1, b_inode_addr := addr + length img + p, b_stats := st\<rparr>) \<and>
     m * 4096 + unat disk_id * 32 = addr \<and> b_inode_addr b + z = addr \<and> 32 dvd addr + length img + p \<and> p < 32"
proof -
  let ?start = "b\<lparr>b_n_inodes := Suc (b_n_inodes b)\<rparr>"
  have pre0: "inode_pre m ?start" "\<not> exact_block ?start (length img)"
    using pre corner by (auto simp: inode_pre_def exact_block_def)
  have b: "b_block_size_bits b = 12" "b_meta_block b = Some m" "32 dvd b_inode_addr b" "m * 4096 \<le> b_inode_addr b"
    using pre by (simp_all add: inode_pre_def)
  note place = inode_place_props[OF fits corner[unfolded exact_block_def] b(3), folded addr(1)]
  obtain z st1 where placed: "place_inode (length img) ?start =
      (Ok (), b\<lparr>b_writer := write_all (replicate z 0) (b_writer b), b_n_inodes := Suc (b_n_inodes b),
        b_inode_addr := addr, b_stats := st1\<rparr>)" and z: "b_inode_addr b + z = addr"
    using place_inode_effect[OF pre0(1) fits pre0(2)] addr(1) by auto
  have "m * 4096 \<le> addr" using b(4) place(1) by linarith
  from write_inode_at[OF b(1,2) entries count img fits this place(2) addr(2) placed] z
  show ?thesis by blast
qed

text \<open>An inode that fills a block exactly, at the start of a block: the address skips a block.\<close>

lemma write_inode_exact_block:
  assumes pre: "inode_pre m b" and entries: "make_xattr_entries xattrs = Ok entries"
    and count: "xc_xattr_count (xattr_count (map snd entries)) \<le> 65535"
    and img: "img = inode_image i entries xattrs tail"
    and corner: "exact_block b (length img)" and small: "b_inode_addr b + 4096 - m * 4096 < 2 ^ 37"
  shows "\<exists>disk_id p st. write_inode i tail xattrs b = (Ok disk_id,
      b\<lparr>b_writer := write_all (img @ replicate p 0) (b_writer b),
        b_n_inodes := b_n_inodes b + 1, b_inode_addr := b_inode_addr b + 4096 + length img + p, b_stats := st\<rparr>) \<and>
     m * 4096 + unat disk_id * 32 = b_inode_addr b + 4096 \<and> p < 32"
proof -
  let ?start = "b\<lparr>b_n_inodes := Suc (b_n_inodes b)\<rparr>" and ?addr = "b_inode_addr b"
  have b: "b_block_size_bits b = 12" "b_meta_block b = Some m" "32 dvd ?addr" "m * 4096 \<le> ?addr"
    using pre by (simp_all add: inode_pre_def)
  have len: "length img = 4096" "?addr mod 4096 = 0" using corner by (simp_all add: exact_block_def)
  have bs: "block_size ?start = 4096" using b by (intro block_size_12) simp
  have blk: "block_no ?start ?addr \<noteq> block_no ?start (?addr + 4096)"
      "block_addr ?start (block_no ?start (?addr + 4096)) = ?addr + 4096"
    using len(2) by (auto simp: block_no_def block_addr_def bs)
  have "zero_fill_block ?addr ?start = (Ok 0, ?start)"
    using len(2) by (simp add: zero_fill_block_def zero_fill_def bs)
  note step = st_seq_step[of "zero_fill_block ?addr" ?start, OF this]
  have "place_inode (length img) ?start = (Ok (), b\<lparr>b_writer := write_all (replicate 0 0) (b_writer b),
      b_n_inodes := Suc (b_n_inodes b), b_inode_addr := ?addr + 4096, b_stats := b_stats b\<rparr>)"
    using blk by (simp add: place_inode_def len(1) step)
  from write_inode_at[OF b(1,2) entries count img _ _ _ small this] len(1) b(3,4)
  show ?thesis by (auto simp: dvd_add)
qed

section \<open>Reading an inode back\<close>

text \<open>The image a finished builder leaves: block size 4096, metadata at block \<open>m\<close>.\<close>

definition image_of :: "erofs \<Rightarrow> nat \<Rightarrow> bool" where
  "image_of er m \<longleftrightarrow>
     sb_blkszbits (er_sb er) = 12 \<and> unat (sb_meta_blkaddr (er_sb er)) = m"

lemma image_offsets:
  assumes "image_of er m"
  shows "er_block_size er = 4096" and "block_offset er block = unat block * 4096"
    and "raw_inode_offset er disk_id = m * 4096 + unat disk_id * 32"
proof -
  show bs: "er_block_size er = 4096"
    using assms by (simp add: image_of_def er_block_size_def shl64_def)
  have off: "block_offset er block = unat block * 4096" for block
  proof -
    have "unat block < 2 ^ 32" using unat_lt[of block] by simp
    then show ?thesis
      using assms by (simp add: image_of_def block_offset_def shl64_def)
  qed
  show "block_offset er block = unat block * 4096" by (rule off)
  have "unat disk_id < 2 ^ 32" "m < 2 ^ 32"
    using unat_lt[of disk_id] unat_lt[of "sb_meta_blkaddr (er_sb er)"] assms by (auto simp: image_of_def)
  then show "raw_inode_offset er disk_id = m * 4096 + unat disk_id * 32"
    using assms unfolding raw_inode_offset_def off
    by (simp add: image_of_def mul64_def add64_def)
qed

abbreviation count_of :: "(nat \<times> xattr_entry) list \<Rightarrow> u16" where
  "count_of entries \<equiv> of_nat (xc_xattr_count (xattr_count (map snd entries)))"

definition stored_inode ::
    "erofs \<Rightarrow> nat \<Rightarrow> u32 \<Rightarrow> inode_extended \<Rightarrow> layout \<Rightarrow> xattr_map \<Rightarrow> (nat \<times> xattr_entry) list \<Rightarrow> bytes option \<Rightarrow> bool" where
  "stored_inode er m disk_id x l xattrs entries tail \<longleftrightarrow>
     image_of er m \<and> valid_inode_extended x \<and> ie_format_layout x = format_layout InodeExtendedT l \<and>
     make_xattr_entries xattrs = Ok entries \<and> xc_xattr_count (xattr_count (map snd entries)) \<le> 65535 \<and>
     stored (er_data er) (m * 4096 + unat disk_id * 32) (inode_image (BExtended x) entries xattrs tail)"

definition read_node :: "u32 \<Rightarrow> inode_extended \<Rightarrow> (nat \<times> xattr_entry) list \<Rightarrow> inode" where
  "read_node disk_id x entries = Extended disk_id (x\<lparr>ie_xattr_count := count_of entries\<rparr>)"

lemma get_inode_stored:
  assumes "stored_inode er m disk_id x l xattrs entries tail"
  shows "get_inode er disk_id = Ok (read_node disk_id x entries)"
proof -
  let ?x = "x\<lparr>ie_xattr_count := count_of entries\<rparr>"
  have "stored (er_data er) (m * 4096 + unat disk_id * 32) (enc_inode_extended ?x)"
    using assms by (simp add: stored_inode_def inode_image_def stored_append)
  then obtain rest where "get_from (m * 4096 + unat disk_id * 32) (er_data er) = Some (enc_inode_extended ?x @ rest)"
    using stored_get_from by blast
  moreover have "inode_new disk_id (enc_inode_extended ?x @ rest) = Ok (Extended disk_id ?x)"
    using assms by (intro inode_new_extended[of _ l]) (auto simp: stored_inode_def valid_inode_extended_def)
  moreover have "image_of er m" using assms by (simp add: stored_inode_def)
  ultimately show ?thesis
    by (simp add: get_inode_def image_offsets read_node_def)
qed

lemma read_node_layout:
  "stored_inode er m disk_id x l xattrs entries tail \<Longrightarrow> inode_layout (read_node disk_id x entries) = Ok l"
  by (simp add: inode_layout_def read_node_def stored_inode_def)

lemma inode_end_stored:
  assumes "stored_inode er m disk_id x l xattrs entries tail"
  shows "inode_end er (read_node disk_id x entries) =
     m * 4096 + unat disk_id * 32 + 64 + length (xattr_section entries xattrs)"
proof -
  have image: "image_of er m" using assms by (simp add: stored_inode_def)
  have x: "length (xattr_section entries xattrs) = xattr_count_to_len (count_of entries)"
    using assms by (intro xattr_section_length) (simp_all add: stored_inode_def)
  have "m < 2 ^ 32" "unat disk_id < 2 ^ 32"
    using unat_lt[of disk_id] unat_lt[of "sb_meta_blkaddr (er_sb er)"] image by (auto simp: image_of_def)
  then have add: "add64 (add64 (m * 4096 + unat disk_id * 32) 64) n = m * 4096 + unat disk_id * 32 + 64 + n"
    if "n < 2 ^ 20" for n
    using that by (simp add: add64_def)
  have "inode_end er (read_node disk_id x entries) =
      add64 (add64 (m * 4096 + unat disk_id * 32) 64) (xattr_count_to_len (count_of entries))"
    by (simp add: inode_end_def inode_offset_def image_offsets(3)[OF image] read_node_def inode_xattr_len_def Let_def)
  also have "\<dots> = m * 4096 + unat disk_id * 32 + 64 + xattr_count_to_len (count_of entries)"
    by (rule add[OF xattr_count_to_len_lt])
  finally show ?thesis by (simp only: x)
qed

lemma inode_end_bound:
  assumes "stored_inode er m disk_id x l xattrs entries tail"
  shows "inode_end er (read_node disk_id x entries) < 2 ^ 50"
proof -
  have "length (xattr_section entries xattrs) < 2 ^ 20"
    using assms xattr_section_length xattr_count_to_len_lt by (simp add: stored_inode_def)
  moreover have "m < 2 ^ 32" "unat disk_id < 2 ^ 32"
    using unat_lt[of disk_id] unat_lt[of "sb_meta_blkaddr (er_sb er)"] assms
    by (auto simp: image_of_def stored_inode_def)
  ultimately show ?thesis by (simp add: inode_end_stored[OF assms])
qed

lemma tail_stored:
  assumes "stored_inode er m disk_id x l xattrs entries tail"
  shows "stored (er_data er) (inode_end er (read_node disk_id x entries)) (tail_bytes tail)"
proof -
  have "length (build_inode_bytes (inode_set_xattr_count (count_of entries) (BExtended x))) = 64"
    using assms by (simp add: ie_codec.enc_length valid_inode_extended_def stored_inode_def)
  with assms show ?thesis
    by (simp add: inode_image_def stored_append inode_end_stored[OF assms] add.assoc stored_inode_def)
qed

section \<open>File contents\<close>

text \<open>How the builder lays out the contents of a file or symbolic link.\<close>

definition file_layout :: "file_entry \<Rightarrow> bytes \<Rightarrow> bytes \<Rightarrow> bool" where
  "file_layout f contents img \<longleftrightarrow>
     (case size_tail_len (length contents) 12 of (n_blocks, block_len, tail_len) \<Rightarrow>
        f_len f = length contents \<and> length contents < 2 ^ 64 \<and>
        f_tail f = (if 0 < tail_len then Some (drop block_len contents) else None) \<and>
        (if 0 < block_len
         then f_start_block f \<noteq> EROFS_NULL_ADDR \<and>
              stored img (unat (f_start_block f) * 4096) (take block_len contents)
         else f_start_block f = EROFS_NULL_ADDR))"

lemma size_tail_len_12:
  "size_tail_len len 12 =
     (if 2048 < len mod 4096 then (len div 4096 + 1, len, 0)
      else (len div 4096, len div 4096 * 4096, len mod 4096))"
  by (simp add: size_tail_len_def shl64_def Let_def)

lemma null_addr: "EROFS_NULL_ADDR = 0xffffffff"
  by (simp add: EROFS_NULL_ADDR_def)

lemma get_data_plain:
  assumes "image_of er m" and "inode_layout i = Ok FlatPlain" and "inode_data_size i = length xs"
    and "xs = [] \<or> stored (er_data er) (unat (raw_block_addr i) * 4096) xs" and "length xs < 2 ^ 63"
  shows "get_data er i = Ok (xs, [])"
proof (cases "xs = []")
  case False
  have "unat (raw_block_addr i) < 2 ^ 32" using unat_lt[of "raw_block_addr i"] by simp
  then have "add64 (unat (raw_block_addr i) * 4096) (length xs) = unat (raw_block_addr i) * 4096 + length xs"
    using assms(5) by (simp add: add64_def)
  with False assms show ?thesis
    by (simp add: get_data_def Let_def image_offsets[OF assms(1)] stored_get_range)
qed (use assms in \<open>simp add: get_data_def\<close>)

lemma get_data_inline:
  assumes "image_of er m" and "inode_layout i = Ok FlatInline" and "inode_data_size i = length (xs @ ys)"
    and "length xs = length (xs @ ys) div 4096 * 4096"
    and "stored (er_data er) (inode_end er i) ys" and "inode_end er i < 2 ^ 50" and "length (xs @ ys) < 2 ^ 63"
    and "if xs = [] then raw_block_addr i = EROFS_NULL_ADDR
         else raw_block_addr i \<noteq> EROFS_NULL_ADDR \<and> stored (er_data er) (unat (raw_block_addr i) * 4096) xs"
  shows "get_data er i = Ok (xs, ys)"
proof -
  have tail: "compute_block_tail_len 4096 (length (xs @ ys)) = (length xs, length ys)"
    using assms(4) by (simp add: compute_block_tail_len_def Let_def)
  have "add64 (inode_end er i) (length ys) = inode_end er i + length ys"
    using assms(6,7) by (simp add: add64_def)
  then have t: "get_range (inode_end er i) (add64 (inode_end er i) (length ys)) (er_data er) = Some ys"
    using stored_get_range[OF assms(5)] by simp
  have "unat (raw_block_addr i) < 2 ^ 32" using unat_lt[of "raw_block_addr i"] by simp
  then have "add64 (unat (raw_block_addr i) * 4096) (length xs) = unat (raw_block_addr i) * 4096 + length xs"
    using assms(7) by (simp add: add64_def)
  then have b: "xs \<noteq> [] \<Longrightarrow> get_range (unat (raw_block_addr i) * 4096)
      (add64 (unat (raw_block_addr i) * 4096) (length xs)) (er_data er) = Some xs"
    using assms(8) stored_get_range by (metis (full_types))
  show ?thesis
  proof (cases "xs = []")
    case True
    with assms(8) show ?thesis
      using assms(2,3) tail t by (simp add: get_data_def image_offsets[OF assms(1)] null_addr)
  next
    case False
    with assms(8) b[OF False] show ?thesis
      using assms(2,3) tail t
      by (simp add: get_data_def image_offsets[OF assms(1)] Let_def null_addr)
  qed
qed

lemma make_inode_fields:
  assumes "make_inode as_raw_mode t sz start_block mt tail n = Ok x"
  shows "valid_inode_extended x"
    and "ie_format_layout x = format_layout InodeExtendedT (if tail \<noteq> None then FlatInline else FlatPlain)"
    and "ie_size x = of_nat sz" and "raw_blkaddr (ie_info x) = start_block"
    and "ie_uid x = m_uid mt" and "ie_gid x = m_gid mt" and "ie_mtime x = m_mtime mt" and "ie_nlink x = n"
    and "make_mode as_raw_mode t (m_mode mt) = Ok (ie_mode x)"
proof -
  have r4: "replicate 4 (0 :: u8) = [0, 0, 0, 0]" by (simp add: numeral_eq_Suc)
  from assms obtain mode where "make_mode as_raw_mode t (m_mode mt) = Ok mode" and
    "x = zeroed_inode_extended
       \<lparr>ie_format_layout := format_layout InodeExtendedT (if tail \<noteq> None then FlatInline else FlatPlain), ie_mode := mode,
        ie_uid := m_uid mt, ie_gid := m_gid mt, ie_mtime := m_mtime mt, ie_nlink := n,
        ie_info := new_raw_blkaddr start_block, ie_size := of_nat sz\<rparr>"
    by (auto simp: make_inode_def Let_def result_simps)
  then show "valid_inode_extended x"
    "ie_format_layout x = format_layout InodeExtendedT (if tail \<noteq> None then FlatInline else FlatPlain)"
    "ie_size x = of_nat sz" "raw_blkaddr (ie_info x) = start_block"
    "ie_uid x = m_uid mt" "ie_gid x = m_gid mt" "ie_mtime x = m_mtime mt" "ie_nlink x = n"
    "make_mode as_raw_mode t (m_mode mt) = Ok (ie_mode x)"
    by (simp_all add: valid_inode_extended_def zeroed_inode_extended_def new_raw_blkaddr_def)
      (simp_all add: raw_blkaddr_def le_simps)
qed

lemma file_read_split:
  assumes "make_inode as_raw_mode t (f_len f) (f_start_block f) (f_meta f) (f_tail f) (f_n_links f) = Ok x"
    and "file_layout f contents (er_data er)" and "length contents < 2 ^ 48"
    and "stored_inode er m disk_id x l (m_xattrs (f_meta f)) entries (f_tail f)"
  shows "get_data er (read_node disk_id x entries) =
     (case size_tail_len (length contents) 12 of (n, block_len, tail_len) \<Rightarrow>
        Ok (take block_len contents, drop block_len contents))"
proof -
  let ?i = "read_node disk_id x entries" and ?len = "length contents"
  note x = make_inode_fields[OF assms(1)]
  have image: "image_of er m" using assms(4) by (simp add: stored_inode_def)
  have "get_layout (ie_format_layout x) = Ok l" using assms(4) by (simp add: stored_inode_def)
  moreover have "get_layout (ie_format_layout x) = Ok (if f_tail f \<noteq> None then FlatInline else FlatPlain)"
    unfolding x(2) by (rule get_layout_format_layout)
  ultimately have l: "l = (if f_tail f \<noteq> None then FlatInline else FlatPlain)" by simp
  obtain n block_len tail_len where st: "size_tail_len ?len 12 = (n, block_len, tail_len)"
    by (cases "size_tail_len ?len 12") auto
  have fl: "f_len f = ?len" "f_tail f = (if 0 < tail_len then Some (drop block_len contents) else None)"
    "if 0 < block_len
       then f_start_block f \<noteq> EROFS_NULL_ADDR \<and>
            stored (er_data er) (unat (f_start_block f) * 4096) (take block_len contents)
       else f_start_block f = EROFS_NULL_ADDR"
    using assms(2) by (simp_all add: file_layout_def st)
  have raw: "raw_block_addr ?i = f_start_block f" using x(4) by (simp add: read_node_def)
  have sz: "inode_data_size ?i = ?len"
    using x(3) fl(1) assms(3) by (simp add: read_node_def unat_of_nat)
  show ?thesis
  proof (cases "0 < tail_len")
    case False
    then have plain: "f_tail f = None" "block_len = ?len"
      using fl(2) st div_mult_mod_eq[of ?len 4096] by (auto simp: size_tail_len_12 split: if_splits)
    have "get_data er ?i = Ok (contents, [])"
    proof (rule get_data_plain[OF image])
      show "inode_layout ?i = Ok FlatPlain" using read_node_layout[OF assms(4)] l plain(1) by simp
      show "contents = [] \<or> stored (er_data er) (unat (raw_block_addr ?i) * 4096) contents"
        using fl(3) plain(2) raw by (cases contents) simp_all
      show "length contents < 2 ^ 63" using assms(3) by simp
    qed (rule sz)
    then show ?thesis by (simp add: st plain(2))
  next
    case True
    have bl: "block_len = ?len div 4096 * 4096"
      using True st by (simp add: size_tail_len_12 split: if_splits)
    have inline: "f_tail f = Some (drop block_len contents)" using fl(2) True by simp
    have "get_data er ?i = Ok (take block_len contents, drop block_len contents)"
    proof (rule get_data_inline[OF image])
      show "inode_layout ?i = Ok FlatInline" using read_node_layout[OF assms(4)] l inline by simp
      show "inode_data_size ?i = length (take block_len contents @ drop block_len contents)"
        using sz by (simp only: append_take_drop_id)
      show "length (take block_len contents) = length (take block_len contents @ drop block_len contents) div 4096 * 4096"
        using bl by (simp only: append_take_drop_id length_take min_absorb1)
      show "stored (er_data er) (inode_end er ?i) (drop block_len contents)"
        using tail_stored[OF assms(4)] inline by (simp add: tail_bytes_def)
      show "inode_end er ?i < 2 ^ 50" by (rule inode_end_bound[OF assms(4)])
      show "length (take block_len contents @ drop block_len contents) < 2 ^ 63"
        using assms(3) by (simp only: append_take_drop_id) simp
      show "if take block_len contents = [] then raw_block_addr ?i = EROFS_NULL_ADDR
         else raw_block_addr ?i \<noteq> EROFS_NULL_ADDR \<and>
           stored (er_data er) (unat (raw_block_addr ?i) * 4096) (take block_len contents)"
      proof (cases "block_len = 0")
        case False
        then have "contents \<noteq> []" using bl by (cases contents) simp_all
        with False fl(3) raw show ?thesis by simp
      qed (use fl(3) raw in simp)
    qed
    then show ?thesis by (simp add: st)
  qed
qed

lemma file_read_back:
  assumes "make_inode as_raw_mode t (f_len f) (f_start_block f) (f_meta f) (f_tail f) (f_n_links f) = Ok x"
    and "file_layout f contents (er_data er)" and "length contents < 2 ^ 48"
    and "stored_inode er m disk_id x l (m_xattrs (f_meta f)) entries (f_tail f)"
  shows "\<exists>block tail. get_data er (read_node disk_id x entries) = Ok (block, tail) \<and> block @ tail = contents"
  unfolding file_read_split[OF assms] by (cases "size_tail_len (length contents) 12") simp

section \<open>Adding a file\<close>

text \<open>Between two files the writer stands at the start of the next free block.\<close>

definition data_pre :: "builder \<Rightarrow> bool" where
  "data_pre b \<longleftrightarrow>
     b_block_size_bits b = 12 \<and> w_pos (b_writer b) = b_cur_data_block b * 4096 \<and>
     b_cur_data_block b < 2 ^ 32 - 1"

definition keeps_below :: "nat \<Rightarrow> bytes \<Rightarrow> bytes \<Rightarrow> bool" where
  "keeps_below n img img' \<longleftrightarrow>
     (\<forall>off bs. off + length bs \<le> n \<longrightarrow> stored img off bs \<longrightarrow> stored img' off bs)"

lemma write_all_keeps_below: "keeps_below (w_pos w) (w_data w) (w_data (write_all bs w))"
  by (auto simp: keeps_below_def intro: write_all_keeps)

lemma keeps_below_refl [simp]: "keeps_below n img img"
  by (simp add: keeps_below_def)

lemma start_block_of_effect:
  assumes "data_pre b"
  shows "start_block_of n b = (Ok (if 0 < n then of_nat (b_cur_data_block b) else EROFS_NULL_ADDR), b)"
  using assms by (auto simp: start_block_of_def data_pre_def)

text \<open>The block part of a file: \<open>bs\<close> starts the block area and is filled up to \<open>n\<close> blocks.\<close>

lemma write_blocks_effect:
  assumes "data_pre b" and "bs \<noteq> []" and "length bs \<le> n * 4096" and "n * 4096 < length bs + 4096"
  shows "\<exists>z st. st_seq (bwrite bs)
       (st_seq (st_modify (\<lambda>b. b\<lparr>b_cur_data_block := b_cur_data_block b + n\<rparr>))
         (st_seq (zero_fill_block (length bs)) (st_ok ()))) b =
     (Ok (), b\<lparr>b_writer := write_all (bs @ replicate z 0) (b_writer b),
        b_cur_data_block := b_cur_data_block b + n, b_stats := st\<rparr>) \<and> length bs + z = n * 4096"
proof -
  let ?b1 = "b\<lparr>b_writer := write_all bs (b_writer b), b_cur_data_block := b_cur_data_block b + n\<rparr>"
  let ?z = "(4096 - length bs mod 4096) mod 4096"
  have bs: "block_size ?b1 = 4096" using assms(1) by (intro block_size_12) (simp add: data_pre_def)
  obtain st where "zero_fill_block (length bs) ?b1 = (Ok ?z, b\<lparr>b_writer := write_all (bs @ replicate ?z 0) (b_writer b),
      b_cur_data_block := b_cur_data_block b + n, b_stats := st\<rparr>)"
    using zero_fill_effect[of 4096 "length bs" ?b1] by (auto simp: zero_fill_block_def bs write_all_append)
  note step = st_seq_step[of "zero_fill_block (length bs)" ?b1, OF this]
  have "4096 dvd length bs + ?z" by (rule fill_dvd) simp
  then obtain k where k: "length bs + ?z = 4096 * k" by (rule dvdE)
  have "?z < 4096" by simp
  with k assms(3,4) have "k = n" by linarith
  with k show ?thesis by (intro exI[of _ ?z] exI[of _ st]) (simp add: step)
qed

lemma size_tail_len_bounds:
  assumes "size_tail_len len 12 = (n, block_len, tail_len)"
  shows "block_len + tail_len = len" and "block_len \<le> n * 4096" and "0 < block_len \<Longrightarrow> n * 4096 < block_len + 4096"
    and "block_len = 0 \<Longrightarrow> n = 0"
proof -
  have len: "len = len div 4096 * 4096 + len mod 4096" "len mod 4096 < 4096" by simp_all
  have *: "block_len + tail_len = len \<and> block_len \<le> n * 4096 \<and> (0 < block_len \<longrightarrow> n * 4096 < block_len + 4096) \<and>
    (block_len = 0 \<longrightarrow> n = 0)"
  proof (cases "2048 < len mod 4096")
    case True
    then have "n = len div 4096 + 1" "block_len = len" "tail_len = 0"
      using assms by (auto simp: size_tail_len_12)
    with True len show ?thesis by (intro conjI impI) linarith+
  next
    case False
    then have "n = len div 4096" "block_len = len div 4096 * 4096" "tail_len = len mod 4096"
      using assms by (simp_all add: size_tail_len_12)
    with len show ?thesis by simp
  qed
  from * show "block_len + tail_len = len" "block_len \<le> n * 4096" "0 < block_len \<Longrightarrow> n * 4096 < block_len + 4096"
    "block_len = 0 \<Longrightarrow> n = 0" by simp_all
qed

lemma add_file_effect:
  assumes pre: "data_pre b" and len: "length contents = len" "len < 2 ^ 48"
    and limit: "b_cur_file_size b + len < b_max_file_size b" "b_max_file_size b < 2 ^ 64"
    and hook: "hook_meta b mt = Ok mt'" and root: "b_root b = Some root"
  shows "\<exists>f b'. add_file path mt len contents b = on_root (root_add_file path f) b' \<and>
     b_root b' = Some root \<and> f_meta f = mt' \<and> f_disk_id f = None \<and> f_n_links f = 1 \<and>
     file_layout f contents (w_data (b_writer b')) \<and>
     w_pos (b_writer b') = b_cur_data_block b' * 4096 \<and> b_cur_data_block b \<le> b_cur_data_block b' \<and>
     keeps_below (b_cur_data_block b * 4096) (w_data (b_writer b)) (w_data (b_writer b'))"
proof -
  have bits: "b_block_size_bits b = 12" and pos: "w_pos (b_writer b) = b_cur_data_block b * 4096"
    and cur: "b_cur_data_block b < 2 ^ 32 - 1"
    using pre by (simp_all add: data_pre_def)
  obtain n block_len tail_len where st: "size_tail_len len 12 = (n, block_len, tail_len)"
    by (cases "size_tail_len len 12") auto
  note sz = size_tail_len_bounds[OF st]
  have max: "\<not> b_max_file_size b \<le> min (b_cur_file_size b + len) (2 ^ 64 - 1)"
    using limit by (simp add: min_def)
  let ?tail = "if 0 < tail_len then Some (drop block_len contents) else None"
  have start: "unat (of_nat (b_cur_data_block b) :: u32) = b_cur_data_block b"
    using cur by (intro unat_of_nat_less) simp
  have "unat EROFS_NULL_ADDR = 2 ^ 32 - 1" by (simp add: null_addr)
  with start cur have not_null: "(of_nat (b_cur_data_block b) :: u32) \<noteq> EROFS_NULL_ADDR"
    by (metis less_irrefl)
  define start_block where
    "start_block = (if 0 < block_len then of_nat (b_cur_data_block b) else EROFS_NULL_ADDR :: u32)"
  define rest where "rest = (if 0 < block_len then drop block_len contents else contents)"
  have rest: "rest = drop block_len contents" "\<not> length rest < tail_len" "take tail_len rest = rest"
    using sz(1) len(1) by (auto simp: rest_def)
  let ?finish = "st_bind (st_with (\<lambda>b. st_lift (hook_meta b mt)))
      (\<lambda>m'. on_root (root_add_file path (new_file m' start_block len ?tail 1)))"
  have tail: "(if 0 < tail_len then if length rest < tail_len then st_err BuildIo
       else st_ok (Some (take tail_len rest)) else st_ok None) = (st_ok ?tail :: bytes option bst)"
    using rest by simp
  have unf: "add_file path mt len contents b = st_seq
       (if 0 < block_len
        then st_seq (bwrite (take block_len contents))
            (st_seq (st_modify (\<lambda>b. b\<lparr>b_cur_data_block := b_cur_data_block b + n\<rparr>))
            (st_seq (zero_fill_block block_len) (st_ok ())))
        else st_ok ())
       (st_bind (st_ok ?tail)
         (\<lambda>tail. st_bind (st_with (\<lambda>b. st_lift (hook_meta b mt)))
           (\<lambda>m'. on_root (root_add_file path (new_file m' start_block len tail 1))))) b"
    unfolding add_file_def st_with_def[of _ b] if_not_P[OF max] bits st prod.case Let_def rest_def[symmetric]
      tail start_block_def st_bind_step[of "start_block_of block_len" b, OF start_block_of_effect[OF pre]] ..
  show ?thesis
  proof (cases "0 < block_len")
    case False
    let ?f = "new_file mt' EROFS_NULL_ADDR len ?tail 1"
    have "add_file path mt len contents b = on_root (root_add_file path ?f) b"
      using False hook by (simp add: unf start_block_def)
    moreover have "file_layout ?f contents (w_data (b_writer b))"
      using False st len by (simp add: file_layout_def new_file_def)
    ultimately show ?thesis
      using root pos by (intro exI[of _ ?f] exI[of _ b]) (simp add: new_file_def)
  next
    case True
    let ?bs = "take block_len contents"
    let ?f = "new_file mt' (of_nat (b_cur_data_block b)) len ?tail 1"
    have bs: "length ?bs = block_len" "?bs \<noteq> []" using True sz(1) len(1) by auto
    let ?op = "st_seq (bwrite ?bs)
         (st_seq (st_modify (\<lambda>b. b\<lparr>b_cur_data_block := b_cur_data_block b + n\<rparr>))
           (st_seq (zero_fill_block block_len) (st_ok ())))"
    obtain z st' where "?op b =
       (Ok (), b\<lparr>b_writer := write_all (?bs @ replicate z 0) (b_writer b),
          b_cur_data_block := b_cur_data_block b + n, b_stats := st'\<rparr>)" and z: "block_len + z = n * 4096"
      using write_blocks_effect[OF pre bs(2), unfolded bs(1), OF sz(2) sz(3)[OF True]] by blast
    note step = st_seq_step[of ?op b, OF this(1)]
    let ?b' = "b\<lparr>b_writer := write_all (?bs @ replicate z 0) (b_writer b),
          b_cur_data_block := b_cur_data_block b + n, b_stats := st'\<rparr>"
    have "hook_meta ?b' mt = Ok mt'" using hook by (simp add: hook_meta_def)
    then have "add_file path mt len contents b = on_root (root_add_file path ?f) ?b'"
      unfolding unf if_P[OF True] step start_block_def by simp
    moreover have "file_layout ?f contents (w_data (b_writer ?b'))"
    proof -
      have "stored (w_data (b_writer ?b')) (b_cur_data_block b * 4096) ?bs"
        using write_all_stored[of "?bs @ replicate z 0" "b_writer b"] bs(2) pos by (simp add: stored_append)
      then show ?thesis
        using True st len start not_null by (simp add: file_layout_def new_file_def)
    qed
    moreover have "keeps_below (b_cur_data_block b * 4096) (w_data (b_writer b)) (w_data (b_writer ?b'))"
      using write_all_keeps_below[of "b_writer b"] pos by simp
    ultimately show ?thesis
      using root pos z bs(1) by (intro exI[of _ ?f] exI[of _ ?b']) (simp add: new_file_def algebra_simps)
  qed
qed

end
