(* ===== verification/Erofs_Xattrs_Stored.thy ===== *)
theory Erofs_Xattrs_Stored
  imports Erofs_Content
begin

text \<open>
  Extended attributes written by the builder and read back by the reader's iterator: the built-in
  prefix that is split off a key, and the entries as the iterator returns them.
\<close>

section \<open>Prefixes\<close>

lemma find_prefix_Some:
  assumes "find_prefix i ps key = Some x" and "i + length ps < 256" and "\<forall>p \<in> set ps. length p < 256"
  shows "\<exists>j < length ps. unat (xp_id x) = i + j + 1 \<and> unat (xp_len x) = length (ps ! j) \<and> starts_with key (ps ! j)"
  using assms
proof (induction ps arbitrary: i)
  case (Cons p ps)
  show ?case
  proof (cases "starts_with key p")
    case True
    then have x: "x = \<lparr>xp_id = of_nat (i + 1), xp_len = of_nat (length p)\<rparr>" using Cons.prems(1) by simp
    have "unat (of_nat (i + 1) :: u8) = i + 1" "unat (of_nat (length p) :: u8) = length p"
      using Cons.prems by (intro unat_of_nat_less; simp)+
    with True show ?thesis unfolding x by (intro exI[of _ 0]) simp
  next
    case False
    with Cons.IH[of "i + 1"] Cons.prems obtain j where
      "j < length ps" "unat (xp_id x) = i + 1 + j + 1" "unat (xp_len x) = length (ps ! j)" "starts_with key (ps ! j)"
      by auto
    then show ?thesis by (intro exI[of _ "Suc j"]) simp
  qed
qed simp

lemma find_prefix_hit:
  "p \<in> set ps \<Longrightarrow> starts_with key p \<Longrightarrow>
     \<exists>x. find_prefix i ps key = Some x \<and> find_prefix i (ps @ qs) key = Some x"
  by (induction ps arbitrary: i) auto

lemma xattr_builtin_prefix_spec:
  "\<exists>x. xattr_builtin_prefix key = Some x \<and> 1 \<le> unat (xp_id x) \<and> unat (xp_id x) \<le> 5 \<and>
     unat (xp_len x) = length (XATTR_BUILTIN_PREFIX_TABLE ! (unat (xp_id x) - 1)) \<and>
     starts_with key (XATTR_BUILTIN_PREFIX_TABLE ! (unat (xp_id x) - 1))"
proof -
  let ?T = "take 5 XATTR_BUILTIN_PREFIX_TABLE"
  have T: "XATTR_BUILTIN_PREFIX_TABLE = ?T @ [ascii ''security.'']" by (simp add: XATTR_BUILTIN_PREFIX_TABLE_def)
  have "[] \<in> set ?T" "starts_with key []"
    by (simp_all add: XATTR_BUILTIN_PREFIX_TABLE_def starts_with_def ascii_def)
  from find_prefix_hit[OF this, of 0 "[ascii ''security.'']"] T
  obtain x where x: "find_prefix 0 ?T key = Some x" "xattr_builtin_prefix key = Some x"
    by (auto simp: xattr_builtin_prefix_def)
  have len: "length ?T = 5" "\<forall>p \<in> set ?T. length p < 256"
    by (simp_all add: XATTR_BUILTIN_PREFIX_TABLE_def ascii_def)
  from find_prefix_Some[OF x(1)] len obtain j where
    j: "j < 5" "unat (xp_id x) = j + 1" "unat (xp_len x) = length (?T ! j)" "starts_with key (?T ! j)"
    by auto
  then have "?T ! j = XATTR_BUILTIN_PREFIX_TABLE ! (unat (xp_id x) - 1)" by simp
  with j x(2) show ?thesis by auto
qed

lemma builtin_id_ok:
  assumes "1 \<le> unat i" and "unat i \<le> 5"
  shows "xattr_prefix_try_from i = Ok (Some (Builtin i))"
proof -
  have "i = of_nat (unat i)" by simp
  moreover have "unat i \<in> {1, 2, 3, 4, 5}" using assms by auto
  ultimately have "i \<in> {1, 2, 3, 4, 5}" by (metis (no_types, lifting) insert_iff of_nat_1 of_nat_numeral singletonD)
  then show ?thesis by (auto simp: xattr_prefix_try_from_def XATTR_BUILTIN_PREFIX_MAX_def)
qed

lemma make_xattr_entry_prefix:
  assumes "make_xattr_entry (key, val) = Ok (p, e)"
  shows "xattr_prefix_try_from (xe_name_index e) = Ok (Some (Builtin (xe_name_index e)))"
    and "get_xattr_prefix \<lparr>xi_prefix = Some (Builtin (xe_name_index e)), xi_name = n, xi_value = v\<rparr> = Ok (take p key)"
proof -
  obtain x where x: "xattr_builtin_prefix key = Some x" "1 \<le> unat (xp_id x)" "unat (xp_id x) \<le> 5"
     "unat (xp_len x) = length (XATTR_BUILTIN_PREFIX_TABLE ! (unat (xp_id x) - 1))"
     "starts_with key (XATTR_BUILTIN_PREFIX_TABLE ! (unat (xp_id x) - 1))"
    using xattr_builtin_prefix_spec by blast
  have e: "xe_name_index e = xp_id x" "p = unat (xp_len x)"
    using assms x(1) by (auto simp: make_xattr_entry_def split: if_splits)
  show "xattr_prefix_try_from (xe_name_index e) = Ok (Some (Builtin (xe_name_index e)))"
    unfolding e by (rule builtin_id_ok[OF x(2,3)])
  have "unat (xp_id x) - 1 < length XATTR_BUILTIN_PREFIX_TABLE"
    using x(2,3) by (auto simp: XATTR_BUILTIN_PREFIX_TABLE_def)
  moreover have "take p key = XATTR_BUILTIN_PREFIX_TABLE ! (unat (xp_id x) - 1)"
    using x(4,5) e(2) by (simp add: starts_with_def)
  ultimately show "get_xattr_prefix \<lparr>xi_prefix = Some (Builtin (xe_name_index e)), xi_name = n, xi_value = v\<rparr> = Ok (take p key)"
    by (simp add: get_xattr_prefix_def e(1) Let_def)
qed

section \<open>Reading the entries back\<close>

fun xattr_items :: "(nat \<times> xattr_entry) list \<Rightarrow> xattr_map \<Rightarrow> xattr_item list" where
  "xattr_items ((p, e) # es) ((key, val) # kvs) =
     \<lparr>xi_prefix = Some (Builtin (xe_name_index e)), xi_name = drop p key, xi_value = val\<rparr> # xattr_items es kvs"
| "xattr_items _ _ = []"

text \<open>
  The attributes the format keeps apart: every entry but the last fills whole words, and none is
  empty.
\<close>

fun word_aligned :: "(nat \<times> xattr_entry) list \<Rightarrow> bool" where
  "word_aligned [] = True"
| "word_aligned ((p, e) # es) \<longleftrightarrow>
     4 < xattr_entry_len e \<and> (es = [] \<or> xattr_entry_len e mod 4 = 0) \<and> word_aligned es"

abbreviation plain_it :: "bytes \<Rightarrow> bytes \<Rightarrow> xattrs_iterator" where
  "plain_it d sd \<equiv> \<lparr>xit_data = d, xit_shared_data = sd, xit_shared_remaining = 0\<rparr>"

lemma next_unshared_entry:
  assumes "make_xattr_entry (key, val) = Ok (p, e)" and "round_up_to 4 (length (drop p key @ val)) = length (drop p key @ val) + z"
  shows "next_unshared (plain_it (enc_xattr_entry e @ drop p key @ val @ replicate z 0 @ rest) sd) =
     (Ok \<lparr>xi_prefix = Some (Builtin (xe_name_index e)), xi_name = drop p key, xi_value = val\<rparr>,
      plain_it (if length rest < 4 then [] else rest) sd)"
proof -
  note e = make_xattr_entry_ok[OF assms(1)]
  define nm where "nm = drop p key"
  let ?d = "enc_xattr_entry e @ nm @ val @ replicate z 0 @ rest"
  have dec: "dec_xattr_entry ?d = Some e" by (rule xe_codec.dec_enc) (simp add: valid_xattr_entry_def)
  have rest: "drop 4 ?d = nm @ val @ replicate z 0 @ rest"
    by (simp add: xe_codec.enc_length valid_xattr_entry_def)
  have lens: "unat (xe_name_len e) = length nm" "unat (xe_value_size e) = length val"
    "round_up_to 4 (length nm + length val) = length nm + length val + z"
    using e assms(2) by (simp_all add: nm_def)
  have slices: "get_range 0 (length nm) (nm @ val @ replicate z 0 @ rest) = Some nm"
    "get_range (length nm) (length nm + length val) (nm @ val @ replicate z 0 @ rest) = Some val"
    "get_from (length nm + length val + z) (nm @ val @ replicate z 0 @ rest) = Some rest"
    by (simp_all add: get_range_def get_from_def)
  show ?thesis
    unfolding nm_def[symmetric]
    by (simp only: next_unshared_def xattrs_iterator.simps dec option.case rest Let_def lens slices
        make_xattr_entry_prefix(1)[OF assms(1)] mapr.simps)
qed

lemma xi_items_nil: "xi_items (plain_it [] sd) = Ok []"
  by (simp add: xi_items.simps xi_next_def)

lemma xi_items_read:
  assumes "make_xattr_entries kvs = Ok es" and "word_aligned es" and "z < 4"
    and "4 dvd length (xattr_entry_bytes es kvs) + z" and "kvs = [] \<longrightarrow> z = 0"
  shows "xi_items (plain_it (xattr_entry_bytes es kvs @ replicate z 0) sd) = Ok (xattr_items es kvs)"
  using assms
proof (induction kvs arbitrary: es)
  case Nil
  then show ?case by (simp add: xi_items_nil)
next
  case (Cons kv kvs)
  obtain key val where kv: "kv = (key, val)" by (cases kv)
  from Cons.prems obtain p e es' where
    e: "make_xattr_entry (key, val) = Ok (p, e)" "make_xattr_entries kvs = Ok es'" "es = (p, e) # es'"
    by (auto simp: kv result_simps)
  let ?n = "length (drop p key @ val)"
  have len: "xattr_entry_len e = ?n + 4" using make_xattr_entry_ok[OF e(1)] by (simp add: xattr_entry_len_def)
  then have pos: "0 < ?n" using Cons.prems(2) e(3) by simp
  have ne: "enc_xattr_entry e \<noteq> []" using xe_codec.enc_length[of e] by (auto simp: valid_xattr_entry_def)
  show ?case
  proof (cases "kvs = []")
    case True
    then have es': "es' = []" using e(2) by simp
    have "4 dvd ?n + 4 + z"
      using Cons.prems(4) e(3) True es' by (simp add: kv xe_codec.enc_length valid_xattr_entry_def add.commute)
    then have "4 dvd ?n + z" by presburger
    moreover have "4 dvd round_up_to 4 ?n" "?n \<le> round_up_to 4 ?n" "round_up_to 4 ?n < ?n + 4"
      using round_up_to_dvd[of 4 ?n] round_up_to_ge[of 4 ?n] round_up_to_less[of 4 ?n] pos by simp_all
    ultimately have "round_up_to 4 ?n = ?n + z" using Cons.prems(3) by presburger
    from next_unshared_entry[OF e(1) this, of "[]" sd] show ?thesis
      using ne es' by (simp add: kv e(3) True xi_items.simps[of "plain_it (_ @ _) sd"] xi_next_def xi_items_nil)
  next
    case False
    then have "es' \<noteq> []" using make_xattr_entries_Nil_iff[OF e(2)] by simp
    then have al: "?n mod 4 = 0" "word_aligned es'" using Cons.prems(2) e(3) len by auto
    then have "round_up_to 4 ?n = ?n + 0" using round_up_to_exact[of 4 ?n] pos by (simp add: mod_0_imp_dvd)
    note step = next_unshared_entry[OF e(1) this, of "xattr_entry_bytes es' kvs @ replicate z 0" sd]
    have dvd: "4 dvd length (xattr_entry_bytes es' kvs) + z"
    proof -
      have "4 dvd ?n + 4 + (length (xattr_entry_bytes es' kvs) + z)"
        using Cons.prems(4) e(3) by (simp add: kv xe_codec.enc_length valid_xattr_entry_def algebra_simps)
      with al(1) show ?thesis by presburger
    qed
    have "4 \<le> length (xattr_entry_bytes es' kvs)"
      unfolding xattr_entry_bytes_length[OF e(2)] using \<open>es' \<noteq> []\<close>
      by (cases es') (auto simp: xattr_entry_len_def)
    then show ?thesis
      using step ne Cons.IH[OF e(2) al(2) Cons.prems(3) dvd] False
      by (simp add: kv e(3) xi_items.simps[of "plain_it (_ @ _) sd"] xi_next_def)
  qed
qed

lemma section_stored:
  assumes "stored_inode er m disk_id x l xattrs entries tail"
  shows "stored (er_data er) (m * 4096 + unat disk_id * 32 + 64) (xattr_section entries xattrs)"
proof -
  have "length (build_inode_bytes (inode_set_xattr_count (count_of entries) (BExtended x))) = 64"
    using assms by (simp add: ie_codec.enc_length valid_inode_extended_def stored_inode_def)
  with assms show ?thesis
    by (simp add: inode_image_def stored_append stored_inode_def)
qed

lemma get_xattrs_stored:
  assumes "stored_inode er m disk_id x l xattrs entries tail" and "sb_xattr_blkaddr (er_sb er) = 0" and "xattrs \<noteq> []"
  shows "\<exists>xs. get_xattrs er (read_node disk_id x entries) = Ok (Some xs) \<and>
     xattrs_iter xs = plain_it (xattr_entry_bytes entries xattrs @
       replicate (xc_padding (xattr_count (map snd entries))) 0) (er_data er)"
proof -
  have image: "image_of er m" using assms(1) by (simp add: stored_inode_def)
  let ?sec = "xattr_section entries xattrs" and ?off = "m * 4096 + unat disk_id * 32 + 64"
  let ?body = "xattr_entry_bytes entries xattrs @ replicate (xc_padding (xattr_count (map snd entries))) 0"
  have sec: "?sec = enc_xattr_header zeroed_xattr_header @ ?body"
    using assms(3) by (simp add: xattr_section_def)
  have hl: "length (enc_xattr_header zeroed_xattr_header) = 12"
    by (simp add: xh_codec.enc_length valid_xattr_header_def zeroed_xattr_header_def)
  have len: "xattr_count_to_len (count_of entries) = length ?sec"
    using assms(1) by (intro xattr_section_length[symmetric]) (simp_all add: stored_inode_def)
  have "length ?sec < 2 ^ 20" using xattr_count_to_len_lt len by metis
  moreover have "m < 2 ^ 32" "unat disk_id < 2 ^ 32"
    using unat_lt[of disk_id] unat_lt[of "sb_meta_blkaddr (er_sb er)"] image by (auto simp: image_of_def)
  ultimately have add: "add64 (m * 4096 + unat disk_id * 32) 64 = ?off" "add64 ?off (length ?sec) = ?off + length ?sec"
    by (simp_all add: add64_def)
  have xl: "inode_xattr_len (read_node disk_id x entries) = Some (length ?sec)"
    using len hl sec by (simp add: inode_xattr_len_def read_node_def Let_def)
  have range: "get_range ?off (?off + length ?sec) (er_data er) = Some ?sec"
    using section_stored[OF assms(1)] by (rule stored_get_range)
  have shared: "xattr_shared_data er = Ok (er_data er)"
    using assms(2) by (simp add: xattr_shared_data_def image_offsets[OF image] get_from_def)
  have hdr: "dec_xattr_header ?sec = Some zeroed_xattr_header"
    unfolding sec by (rule xh_codec.dec_enc) (simp add: valid_xattr_header_def zeroed_xattr_header_def)
  have off: "inode_offset er (read_node disk_id x entries) = m * 4096 + unat disk_id * 32"
    "inode_size (read_node disk_id x entries) = 64"
    by (simp_all add: inode_offset_def image_offsets[OF image] read_node_def)
  have "get_xattrs er (read_node disk_id x entries) =
      Ok (Some \<lparr>xs_header = zeroed_xattr_header, xs_data = drop 12 ?sec, xs_shared_data = er_data er\<rparr>)"
    by (simp add: get_xattrs_def xl off add range shared hdr Let_def)
  moreover have "drop 12 ?sec = ?body" by (simp add: sec hl)
  ultimately show ?thesis
    by (simp add: xattrs_iter_def zeroed_xattr_header_def)
qed

lemma xattr_padding:
  assumes "make_xattr_entries xattrs = Ok entries"
  shows "xc_padding (xattr_count (map snd entries)) < 4"
    and "4 dvd length (xattr_entry_bytes entries xattrs) + xc_padding (xattr_count (map snd entries))"
proof -
  let ?len = "sum_list (map xattr_entry_len (map snd entries))"
  have l: "length (xattr_entry_bytes entries xattrs) = ?len" by (rule xattr_entry_bytes_length[OF assms])
  show "xc_padding (xattr_count (map snd entries)) < 4"
    "4 dvd length (xattr_entry_bytes entries xattrs) + xc_padding (xattr_count (map snd entries))"
    unfolding l xattr_count_def Let_def
    using round_up_to_less[of 4 ?len] round_up_to_ge[of 4 ?len] round_up_to_dvd[of 4 ?len]
    by (auto simp del: sum_list_eq_0_iff sum_list_nonneg_eq_0_iff)
qed

definition full_key :: "xattr_item \<Rightarrow> (bytes \<times> bytes) option" where
  "full_key it = (case get_xattr_prefix it of Ok p \<Rightarrow> Some (p @ xi_name it, xi_value it) | Err _ \<Rightarrow> None)"

lemma xattr_items_full_keys:
  assumes "make_xattr_entries xattrs = Ok entries"
  shows "map full_key (xattr_items entries xattrs) = map Some xattrs"
  using assms
proof (induction xattrs arbitrary: entries)
  case (Cons kv xattrs)
  obtain key val where kv: "kv = (key, val)" by (cases kv)
  from Cons.prems obtain p e es where
    e: "make_xattr_entry (key, val) = Ok (p, e)" "make_xattr_entries xattrs = Ok es" "entries = (p, e) # es"
    by (auto simp: kv result_simps)
  with Cons.IH[OF e(2)] make_xattr_entry_prefix(2)[OF e(1)] show ?case by (simp add: kv full_key_def)
qed simp

lemma xattrs_read_back:
  assumes "stored_inode er m disk_id x l xattrs entries tail" and "sb_xattr_blkaddr (er_sb er) = 0" and "xattrs \<noteq> []"
    and "word_aligned entries"
  shows "\<exists>xs items. get_xattrs er (read_node disk_id x entries) = Ok (Some xs) \<and>
     xi_items (xattrs_iter xs) = Ok items \<and> map full_key items = map Some xattrs"
proof -
  have mk: "make_xattr_entries xattrs = Ok entries" using assms(1) by (simp add: stored_inode_def)
  obtain xs where xs: "get_xattrs er (read_node disk_id x entries) = Ok (Some xs)"
     "xattrs_iter xs = plain_it (xattr_entry_bytes entries xattrs @
       replicate (xc_padding (xattr_count (map snd entries))) 0) (er_data er)"
    using get_xattrs_stored[OF assms(1-3)] by blast
  moreover have "xi_items (xattrs_iter xs) = Ok (xattr_items entries xattrs)"
    unfolding xs(2) using xi_items_read[OF mk assms(4) xattr_padding[OF mk]] assms(3) by blast
  ultimately show ?thesis using xattr_items_full_keys[OF mk] by blast
qed

end
