(* ===== verification/Erofs_Reader_Props.thy ===== *)
theory Erofs_Reader_Props
  imports Erofs_Reader Erofs_Compress "HOL-Library.Sublist"
begin

text \<open>
  What the reader guarantees on an arbitrary image, trusted or not: every loop ends, the
  \<open>expect\<close> on an inode's layout cannot fail, and the data an inode yields lies in the image and
  has the size the inode states.
\<close>

section \<open>Lookup returns\<close>

lemma reset_count_no_panic: "fst (reset_count it) \<noteq> Err DiskPanic"
  by (auto simp: reset_count_def Let_def div_mod_u16_def split: option.splits)

lemma it_get_no_panic: "it_get it i \<noteq> Err DiskPanic"
  by (auto simp: it_get_def result_simps)

lemma next_impl_no_panic:
  assumes "next_impl it = (Err e, it')"
  shows "e \<noteq> DiskPanic"
proof -
  have ft: "dirent_file_type_of_u8 x \<noteq> Err DiskPanic" for x
    by (simp add: dirent_file_type_of_u8_def)
  have rc: "reset_count x = (Err e', y) \<Longrightarrow> e' \<noteq> DiskPanic" for x e' y
    using reset_count_no_panic[of x] by auto
  show ?thesis
    using assms it_get_no_panic ft rc unfolding next_impl_def Let_def
    by (force split: result.splits option.splits prod.splits if_splits)
qed

lemma it_next_no_panic: "fst (it_next it) \<noteq> Some (Err DiskPanic)"
  by (auto simp: it_next_def dest: next_impl_no_panic split: prod.splits)

lemma find_dirent_returns:
  assumes "0 < it_block_size it"
  shows "\<exists>r. find_dirent it name = Some r \<and> r \<noteq> Err DiskPanic"
  using assms
proof (induction it rule: wf_induct[OF wf_measures[of "[it_total, \<lambda>it. it_count it - it_i it]"]])
  case (1 it)
  note IH = 1(1)[rule_format] and pos = 1(2)
  obtain r it' where n: "it_next it = (r, it')" by fastforce
  show ?case
  proof (cases "\<exists>x. r = Some (Ok x) \<and> di_name x \<noteq> name")
    case True
    then obtain x where x: "r = Some (Ok x)" "di_name x \<noteq> name" by blast
    from it_next_progress[OF n[unfolded x(1)] pos] IH[of it'] pos
    have "\<exists>r. find_dirent it' name = Some r \<and> r \<noteq> Err DiskPanic" by (auto simp: in_measures)
    with n x show ?thesis by (simp add: find_dirent.simps[of it])
  next
    case False
    have "r \<noteq> Some (Err DiskPanic)"
      using n it_next_no_panic[of it] by auto
    with n False show ?thesis
      by (auto simp: find_dirent.simps[of it] split: option.splits result.splits)
  qed
qed

lemma get_inode_layout: "get_inode er i = Ok x \<Longrightarrow> \<exists>l. inode_layout x = Ok l"
  by (auto simp: get_inode_def result_simps dest: inode_new_layout_ok)

lemma get_data_no_panic:
  assumes "inode_layout i = Ok l"
  shows "get_data er i \<noteq> Err DiskPanic"
  using assms
  by (auto simp: get_data_def Let_def result_simps split: layout.splits prod.splits if_splits)

lemma dirents_no_panic:
  assumes "inode_layout i = Ok l"
  shows "bindr (get_dirents frm er i) dirents_iter \<noteq> Err DiskPanic"
proof -
  have "dirents_iter d \<noteq> Err DiskPanic" for d
    using reset_count_no_panic
    by (auto simp: dirents_iter_def dirents_iterator_new_def split: prod.splits result.splits) (metis fst_conv)
  with get_data_no_panic[OF assms] show ?thesis
    by (auto simp: get_dirents_def result_simps split: if_splits)
qed

lemma dirents_block_size:
  assumes "bindr (get_dirents frm er i) dirents_iter = Ok it"
  shows "0 < it_block_size it"
proof -
  from assms obtain d where d: "get_dirents frm er i = Ok d" "dirents_iter d = Ok it"
    by (auto simp: result_simps)
  from d(1) have "ds_block_size d = er_block_size er"
    by (auto simp: get_dirents_def result_simps split: if_splits)
  moreover from d(2) obtain u where "reset_count \<lparr>it_data = fst (ds_data d), it_remaining = Some (snd (ds_data d)),
      it_i = 0, it_count = 0, it_block_size = ds_block_size d\<rparr> = (Ok u, it)"
    by (auto simp: dirents_iter_def dirents_iterator_new_def split: prod.splits result.splits)
  ultimately show ?thesis
    using reset_count_frame(2) er_block_size_pos[of er] by fastforce
qed

lemma lookup_from_returns:
  "inode_layout cur = Ok l \<Longrightarrow>
     \<exists>r. lookup_from frm er cur cs = Some r \<and> r \<noteq> Err DiskPanic \<and>
       (\<forall>i. r = Ok (Some i) \<longrightarrow> (\<exists>l. inode_layout i = Ok l))"
proof (induction cs arbitrary: cur l)
  case (Cons c cs)
  show ?case
  proof (cases "bindr (get_dirents frm er cur) dirents_iter")
    case (Err e)
    with dirents_no_panic[OF Cons.prems, of frm er] show ?thesis by auto
  next
    case (Ok it)
    obtain r where r: "find_dirent it c = Some r" "r \<noteq> Err DiskPanic"
      using find_dirent_returns[OF dirents_block_size[OF Ok]] by blast
    have no_panic: "get_inode_from_dirent er x \<noteq> Err DiskPanic" for x
      by (auto simp: get_inode_from_dirent_def get_inode_def result_simps dest: inode_new_error)
    have lay: "\<exists>l. inode_layout i = Ok l" if "get_inode_from_dirent er x = Ok i" for x i
      using that by (auto simp: get_inode_from_dirent_def split: if_splits dest: get_inode_layout)
    have found: "\<exists>r. (case get_inode_from_dirent er x of
        Err e \<Rightarrow> Some (Err e) | Ok i \<Rightarrow> lookup_from frm er i cs) = Some r \<and> r \<noteq> Err DiskPanic \<and>
        (\<forall>i. r = Ok (Some i) \<longrightarrow> (\<exists>l. inode_layout i = Ok l))" for x
    proof (cases "get_inode_from_dirent er x")
      case (Ok i)
      with lay obtain l where "inode_layout i = Ok l" by blast
      from Cons.IH[OF this] Ok show ?thesis by simp
    qed (use no_panic in auto)
    consider "r = Ok None" | x where "r = Ok (Some x)" | e where "r = Err e" "e \<noteq> DiskPanic"
      using r(2) by (cases r) auto
    then show ?thesis using Ok r(1) found by cases auto
  qed
qed auto

section \<open>Properties\<close>

text \<open>
  (C4) Looking up any path in any byte string that passes for an image returns, whatever the
  directory blocks contain, and never panics; and the data of an inode it found can be requested
  without a panic.
\<close>

theorem lookup_returns:
  "\<exists>r. erofs_lookup from_raw_mode er p = Some r \<and> r \<noteq> Err DiskPanic \<and>
     (case r of Ok (Some i) \<Rightarrow> get_data er i \<noteq> Err DiskPanic | _ \<Rightarrow> True)"
proof (cases "get_root_inode er")
  case (Ok root)
  then obtain l where "inode_layout root = Ok l"
    by (auto simp: get_root_inode_def dest: get_inode_layout)
  from lookup_from_returns[OF this, of from_raw_mode er "map component_name (path_components p)"] obtain r where
    r: "lookup_from from_raw_mode er root (map component_name (path_components p)) = Some r" "r \<noteq> Err DiskPanic"
      "\<forall>i. r = Ok (Some i) \<longrightarrow> (\<exists>l. inode_layout i = Ok l)" by blast
  then have "case r of Ok (Some i) \<Rightarrow> get_data er i \<noteq> Err DiskPanic | _ \<Rightarrow> True"
    using get_data_no_panic by (auto split: result.splits option.splits)
  with r(1,2) Ok show ?thesis by (simp add: erofs_lookup_def)
next
  case (Err e)
  then have "e \<noteq> DiskPanic"
    by (auto simp: get_root_inode_def get_inode_def result_simps dest: inode_new_error)
  with Err show ?thesis by (simp add: erofs_lookup_def)
qed

lemma get_data_layouts:
  assumes "inode_layout i = Ok l"
  shows "l \<notin> {FlatPlain, FlatInline} \<Longrightarrow> get_data er i = Err (LayoutNotHandled l)"
  using assms by (cases l) (simp_all add: get_data_def)

lemma inode_data_size_lt: "inode_data_size i < 2 ^ 64"
proof (cases i)
  case (Compact id x)
  have "unat (ic_size x) < 2 ^ 32" using unat_lt[of "ic_size x"] by simp
  also have "\<dots> < (2 :: nat) ^ 64" by simp
  finally show ?thesis using Compact by simp
next
  case (Extended id x)
  show ?thesis using Extended unat_lt[of "ie_size x"] by simp
qed

lemma get_range_sublist:
  assumes "get_range a b xs = Some ys"
  shows "sublist ys xs"
proof -
  have "sublist (take (b - a) (drop a xs)) (drop a xs)" by (rule sublist_take)
  then have "sublist (take (b - a) (drop a xs)) xs" using sublist_drop by (rule sublist_order.order_trans)
  with assms show ?thesis by (simp add: slice_simps)
qed

text \<open>
  (C28) The data of an inode: when \<open>get_data\<close> succeeds, the block part and the tail are pieces of
  the image, and together they have exactly the size the inode states. Addresses near the end of
  the 64-bit range do not wrap into the image.
\<close>

theorem get_data_exact:
  assumes "get_data er i = Ok (block, tail)"
  shows "length block + length tail = inode_data_size i \<and>
     sublist block (er_data er) \<and> sublist tail (er_data er)"
proof -
  note size = inode_data_size_lt[of i]
  have end_lt: "inode_end er i < 2 ^ 64"
    by (simp only: inode_end_def Let_def add64_lt)
  obtain l where l: "inode_layout i = Ok l" using assms by (auto simp: get_data_def result_simps)
  show ?thesis
  proof (cases l)
    case FlatPlain
    then have "inode_data_size i = 0 \<and> block = [] \<and> tail = [] \<or> tail = [] \<and>
        get_range (block_offset er (raw_block_addr i))
          (add64 (block_offset er (raw_block_addr i)) (inode_data_size i)) (er_data er) = Some block"
      using assms l by (auto simp: get_data_def Let_def result_simps split: if_splits)
    then show ?thesis
    proof
      assume *: "tail = [] \<and> get_range (block_offset er (raw_block_addr i))
          (add64 (block_offset er (raw_block_addr i)) (inode_data_size i)) (er_data er) = Some block"
      with get_range_add64(3)[OF conjunct2[OF *] block_offset_lt size] get_range_sublist[OF conjunct2[OF *]]
      show ?thesis by simp
    qed simp
  next
    case FlatInline
    obtain bl tl where bt: "compute_block_tail_len (er_block_size er) (inode_data_size i) = (bl, tl)"
      by (rule prod.exhaust)
    note spec = compute_block_tail_len_spec[OF er_block_size_pos bt]
    have lt: "bl < 2 ^ 64" "tl < 2 ^ 64" 
      using le_less_trans[OF _ size, of bl] le_less_trans[OF _ size, of tl] spec(1) by simp_all
    have t: "get_range (inode_end er i) (add64 (inode_end er i) tl) (er_data er) = Some tail"
      and b: "raw_block_addr i = 0xffffffff \<and> bl = 0 \<and> block = [] \<or>
        get_range (block_offset er (raw_block_addr i)) (add64 (block_offset er (raw_block_addr i)) bl)
          (er_data er) = Some block"
      using assms l FlatInline bt by (auto simp: get_data_def Let_def result_simps split: if_splits)
    from b have "length block = bl \<and> sublist block (er_data er)"
    proof
      assume "get_range (block_offset er (raw_block_addr i)) (add64 (block_offset er (raw_block_addr i)) bl)
        (er_data er) = Some block"
      from get_range_add64(3)[OF this block_offset_lt lt(1)] get_range_sublist[OF this] show ?thesis ..
    qed simp
    with get_range_add64(3)[OF t end_lt lt(2)] get_range_sublist[OF t] spec(1)
    show ?thesis by metis
  qed (use assms get_data_layouts[OF l] in simp_all)
qed

end
