(* ===== verification/Erofs_Image_Props.thy ===== *)
theory Erofs_Image_Props
  imports Erofs_Xattrs_Stored Erofs_Reader_Props
begin

text \<open>
  What the builder promises, and what the reader gets back from what it wrote: the tree the
  operations describe, the blocks and inodes of files, symbolic links and directories, their
  extended attributes and the superblock.
\<close>

section \<open>The tree\<close>

lemma hook_meta_frame [simp]: "st_with (\<lambda>b. st_lift (hook_meta b m)) b = (hook_meta b m, b)"
  by simp

lemma st_bind_lift: "st_bind (st_with (\<lambda>b. st_lift (g b))) f b = (case g b of Ok x \<Rightarrow> f x b | Err e \<Rightarrow> (Err e, b))"
  by (simp add: st_bind_def split: result.splits)

text \<open>
  (C1) Adding a file at a proper path: when a file or a symbolic link is in the way the tree stays
  as it was and the error is \<open>NotADir\<close>; otherwise the tree becomes what the abstract insertion
  describes, the new file carries the shifted owner, and its contents are in the image, block part
  at its start block and the rest as its tail, with everything written before left alone.
\<close>

theorem add_file_refines:
  assumes "data_pre b" and "length contents = len" and "len < 2 ^ 48"
    and "b_cur_file_size b + len < b_max_file_size b" and "b_max_file_size b < 2 ^ 64"
    and "hook_meta b m = Ok m'" and "b_root b = Some root" and "wf_dir root"
    and "path_target p = Some (ns @ [n])" and "\<not> ends_with_slash p"
  shows "if spec_blocked ns (dir_view root)
     then \<exists>b'. add_file p m len contents b = (Err NotADir, b') \<and> b_root b' = Some root
     else \<exists>f b' root'. add_file p m len contents b = (Ok (), b') \<and> b_root b' = Some root' \<and>
       wf_dir root' \<and> dir_view root' = spec_insert (ns @ [n]) (FileInfo f) (dir_view root) \<and>
       f_meta f = m' \<and> f_n_links f = 1 \<and> file_layout f contents (w_data (b_writer b')) \<and>
       w_pos (b_writer b') = b_cur_data_block b' * 4096 \<and>
       keeps_below (b_cur_data_block b * 4096) (w_data (b_writer b)) (w_data (b_writer b'))"
proof -
  from add_file_effect[OF assms(1-7), of p] obtain f b1 where
    add: "add_file p m len contents b = on_root (root_add_file p f) b1" and root: "b_root b1 = Some root" and
    f: "f_meta f = m'" "f_n_links f = 1" "file_layout f contents (w_data (b_writer b1))"
      "w_pos (b_writer b1) = b_cur_data_block b1 * 4096"
      "keeps_below (b_cur_data_block b * 4096) (w_data (b_writer b)) (w_data (b_writer b1))"
    by blast
  have ins: "root_add_file p f root = root_insert p (File f) root"
    using assms(10) by (simp add: root_add_file_def)
  have "dirent_info (File f) = Some (FileInfo f)" by simp
  note ref = root_insert_refines[OF assms(8,9) this]
  show ?thesis
  proof (cases "spec_blocked ns (dir_view root)")
    case True
    with ref add root ins show ?thesis by (auto simp: on_root_def)
  next
    case False
    with ref obtain root' where r: "root_insert p (File f) root = (Ok (), root')" "wf_dir root'"
        "dir_view root' = spec_insert (ns @ [n]) (FileInfo f) (dir_view root)"
      by auto
    then have "add_file p m len contents b = (Ok (), b1\<lparr>b_root := Some root'\<rparr>)"
      using add root ins by (simp add: on_root_def)
    with r f False show ?thesis
      by (simp only: if_False) (intro exI[of _ f] exI[of _ "b1\<lparr>b_root := Some root'\<rparr>"] exI[of _ root'], simp)
  qed
qed

text \<open>
  (C19) Setting a directory: a file or a symbolic link on the path makes the operation fail and
  leaves the builder as it was; otherwise the directory exists with the given metadata, its
  contents and everything else stay, and missing parents appear with default metadata.
\<close>

theorem upsert_dir_refines:
  assumes "hook_meta b m = Ok m'" and "b_root b = Some root" and "wf_dir root"
    and "path_target p = Some (ns @ [n])"
  shows "if spec_blocked (ns @ [n]) (dir_view root) then upsert_dir p m b = (Err NotADir, b)
     else \<exists>root'. upsert_dir p m b = (Ok (), b\<lparr>b_root := Some root'\<rparr>) \<and> wf_dir root' \<and>
       dir_view root' = spec_upsert (ns @ [n]) m' (dir_view root)"
proof -
  have up: "upsert_dir p m b = on_root (root_upsert_dir p m') b"
    using assms(1) by (simp add: upsert_dir_def)
  have "b\<lparr>b_root := Some root\<rparr> = b" using assms(2) by (cases b) simp
  with root_upsert_refines[OF assms(3,4), of m'] up assms(2) show ?thesis
    by (auto simp: on_root_def split: if_splits)
qed

lemma get_or_create_dir_err:
  assumes "\<And>d. \<exists>e d'. k d = (Err e, d')"
  shows "\<exists>e d'. get_or_create_dir name k d = (Err e, d')"
  using assms[of default_dir] assms[of "case bt_get (d_children d) name of Some (SubDir s) \<Rightarrow> s | _ \<Rightarrow> default_dir"]
  by (auto simp: get_or_create_dir_def split: option.splits dirent.splits)

lemma lookup_parts_dotdot:
  "ParentDir \<in> set ps \<Longrightarrow> \<exists>e d'. lookup_parts True ps k d = (Err e, d')"
proof (induction ps arbitrary: d rule: induct_list012)
  case (3 p q ps)
  show ?case
  proof (cases "p = ParentDir")
    case False
    with 3 have IH: "\<exists>e d'. lookup_parts True (q # ps) k d = (Err e, d')" for d by auto
    show ?thesis
    proof (cases p)
      case (Normal name)
      show ?thesis
        using get_or_create_dir_err[OF IH] by (simp add: Normal)
    qed (use False IH in auto)
  qed auto
qed auto

text \<open>
  A path with a \<open>..\<close> component never reaches a directory: every operation that resolves its
  path with \<open>lookup_create\<close> fails on it, whatever it would have done there.
\<close>

lemma dotdot_rejected:
  assumes "ParentDir \<in> set (path_components p)"
  shows "\<exists>e d'. lookup_create p k d = (Err e, d')"
proof -
  have "path_components dot_name = [CurDir]" "path_components (dot_name @ [slash]) = [CurDir]"
    "path_components [slash] = [RootDir]" "path_components [] = []"
    by (simp_all add: path_components_def body_components_def dot_name_def slash_def)
  with assms have "p \<notin> {dot_name, dot_name @ [slash], [slash]}" "p \<noteq> []" by auto
  with lookup_parts_dotdot[OF assms] show ?thesis
    by (simp add: lookup_create_def lookup_impl_def)
qed

section \<open>Inodes and contents\<close>

lemma length_inode_image:
  assumes "valid_inode_extended x"
  shows "length (inode_image (BExtended x) entries xattrs tail) =
     64 + length (xattr_section entries xattrs) + length (tail_bytes tail)"
  using assms by (simp add: inode_image_def enc_inode_extended_def valid_inode_extended_def)

lemma write_inode_stored:
  assumes "inode_pre m b" and "make_xattr_entries xattrs = Ok entries"
    and "xc_xattr_count (xattr_count (map snd entries)) \<le> 65535"
    and x: "valid_inode_extended x" "ie_format_layout x = format_layout InodeExtendedT l"
    and len: "length (inode_image (BExtended x) entries xattrs tail) \<le> 4096"
    and corner: "\<not> exact_block b (length (inode_image (BExtended x) entries xattrs tail))"
    and small: "b_inode_addr b + 4096 - m * 4096 < 2 ^ 37" and er: "image_of er m"
  obtains disk_id b' where "write_inode (BExtended x) tail xattrs b = (Ok disk_id, b')"
    and "inode_pre m b'" and "keeps_below (b_inode_addr b) (w_data (b_writer b)) (w_data (b_writer b'))"
    and "stored_inode (er\<lparr>er_data := w_data (b_writer b')\<rparr>) m disk_id x l xattrs entries tail"
    and "b_inode_addr b \<le> m * 4096 + unat disk_id * 32"
    and "(m * 4096 + unat disk_id * 32) mod 4096 + length (inode_image (BExtended x) entries xattrs tail) \<le> 4096"
proof -
  let ?img = "inode_image (BExtended x) entries xattrs tail"
  define addr where "addr = inode_place (b_inode_addr b) (length ?img)"
  have b: "32 dvd b_inode_addr b" "w_pos (b_writer b) = b_inode_addr b" using assms(1) by (auto simp: inode_pre_def)
  note place = inode_place_props[OF len corner[unfolded exact_block_def] b(1), folded addr_def]
  have "addr - m * 4096 < 2 ^ 37" using place(3) small by linarith
  from write_inode_effect[OF assms(1-3) refl len corner addr_def this] obtain disk_id z p st where
    w: "write_inode (BExtended x) tail xattrs b = (Ok disk_id,
      b\<lparr>b_writer := write_all (replicate z 0 @ ?img @ replicate p 0) (b_writer b),
        b_n_inodes := b_n_inodes b + 1, b_inode_addr := addr + length ?img + p, b_stats := st\<rparr>)" and
    id: "m * 4096 + unat disk_id * 32 = addr" and z: "b_inode_addr b + z = addr" and
    dvd: "32 dvd addr + length ?img + p"
    by blast
  let ?w = "write_all (replicate z 0 @ ?img @ replicate p 0) (b_writer b)"
  have "?img \<noteq> []" using length_inode_image[OF x(1), of entries xattrs tail] by auto
  then have "stored (w_data ?w) (w_pos (b_writer b)) (replicate z 0 @ ?img @ replicate p 0)"
    by (intro write_all_stored) simp
  then have st: "stored (w_data ?w) addr ?img" using z b(2) by (simp add: stored_append)
  show thesis
  proof (rule that[OF w])
    show "inode_pre m (b\<lparr>b_writer := ?w, b_n_inodes := b_n_inodes b + 1, b_inode_addr := addr + length ?img + p, b_stats := st\<rparr>)"
      using assms(1) z dvd b(2) place(1) by (simp add: inode_pre_def)
  qed (use write_all_keeps_below[of "b_writer b"] b(2) st id assms(2,3) x er place in
      \<open>auto simp: stored_inode_def image_of_def\<close>)
qed

text \<open>
  (C17) An inode with its attributes and tail that is not exactly a block at the start of a block:
  \<open>write_inode\<close> succeeds, the disk id it returns is where the reader finds the inode, the inode does
  not cross a block boundary, what was written before it stays, and the writer is ready for the
  next inode.
\<close>

theorem write_inode_found:
  assumes "inode_pre m b" and "make_xattr_entries xattrs = Ok entries"
    and "xc_xattr_count (xattr_count (map snd entries)) \<le> 65535"
    and "valid_inode_extended x" and "ie_format_layout x = format_layout InodeExtendedT l"
    and "length (inode_image (BExtended x) entries xattrs tail) \<le> 4096"
    and "\<not> exact_block b (length (inode_image (BExtended x) entries xattrs tail))"
    and "b_inode_addr b + 4096 - m * 4096 < 2 ^ 37" and "image_of er m"
  shows "\<exists>disk_id b'. write_inode (BExtended x) tail xattrs b = (Ok disk_id, b') \<and> inode_pre m b' \<and>
     get_inode (er\<lparr>er_data := w_data (b_writer b')\<rparr>) disk_id = Ok (read_node disk_id x entries) \<and>
     raw_inode_offset er disk_id mod 4096 + length (inode_image (BExtended x) entries xattrs tail) \<le> 4096 \<and>
     b_inode_addr b \<le> raw_inode_offset er disk_id \<and>
     keeps_below (b_inode_addr b) (w_data (b_writer b)) (w_data (b_writer b'))"
proof -
  obtain disk_id b' where w: "write_inode (BExtended x) tail xattrs b = (Ok disk_id, b')" "inode_pre m b'"
      "keeps_below (b_inode_addr b) (w_data (b_writer b)) (w_data (b_writer b'))"
      "stored_inode (er\<lparr>er_data := w_data (b_writer b')\<rparr>) m disk_id x l xattrs entries tail"
      "b_inode_addr b \<le> m * 4096 + unat disk_id * 32"
      "(m * 4096 + unat disk_id * 32) mod 4096 + length (inode_image (BExtended x) entries xattrs tail) \<le> 4096"
    using write_inode_stored[OF assms] by metis
  then show ?thesis
    using get_inode_stored[OF w(4)] image_offsets(3)[OF assms(9), of disk_id]
    by (intro exI[of _ disk_id] exI[of _ b']) simp
qed

lemma file_layout_keeps:
  assumes "file_layout f contents img" and "keeps_below n img img'"
    and "f_start_block f = EROFS_NULL_ADDR \<or> unat (f_start_block f) * 4096 + length contents \<le> n"
  shows "file_layout f contents img'"
  using assms by (auto simp: file_layout_def keeps_below_def split: prod.splits if_splits)

lemma write_file_inode_stored:
  assumes "inode_pre m b" and "make_mode arm t (m_mode (f_meta f)) = Ok mode"
    and "make_xattr_entries (m_xattrs (f_meta f)) = Ok entries"
    and "xc_xattr_count (xattr_count (map snd entries)) \<le> 65535"
    and small: "64 + length (xattr_section entries (m_xattrs (f_meta f))) + length (tail_bytes (f_tail f)) < 4096"
    and "b_inode_addr b + 4096 - m * 4096 < 2 ^ 37" and "image_of er m" and "f_disk_id f = None"
  obtains disk_id b' x l where
    "write_file_inode arm t cnt f b = (Ok (), f\<lparr>f_disk_id := Some disk_id\<rparr>, b')"
    and "make_inode arm t (f_len f) (f_start_block f) (f_meta f) (f_tail f) (f_n_links f) = Ok x"
    and "inode_pre m b'" and "keeps_below (b_inode_addr b) (w_data (b_writer b)) (w_data (b_writer b'))"
    and "stored_inode (er\<lparr>er_data := w_data (b_writer b')\<rparr>) m disk_id x l (m_xattrs (f_meta f)) entries (f_tail f)"
proof -
  let ?b = "b\<lparr>b_stats := cnt (b_stats b)\<rparr>"
  obtain x where x: "make_inode arm t (f_len f) (f_start_block f) (f_meta f) (f_tail f) (f_n_links f) = Ok x"
    using assms(2) by (auto simp: make_inode_def Let_def)
  note fields = make_inode_fields(1,2)[OF x]
  let ?img = "inode_image (BExtended x) entries (m_xattrs (f_meta f)) (f_tail f)"
  have len: "length ?img < 4096" using small by (simp add: length_inode_image[OF fields(1)])
  have pre: "inode_pre m ?b" "b_inode_addr ?b + 4096 - m * 4096 < 2 ^ 37"
    using assms(1,6) by (simp_all add: inode_pre_def)
  have "length ?img \<le> 4096" "\<not> exact_block ?b (length ?img)" using len by (simp_all add: exact_block_def)
  from write_inode_stored[OF pre(1) assms(3,4) fields this pre(2) assms(7)] obtain disk_id b' where
    w: "write_inode (BExtended x) (f_tail f) (m_xattrs (f_meta f)) ?b = (Ok disk_id, b')" "inode_pre m b'"
      "keeps_below (b_inode_addr ?b) (w_data (b_writer ?b)) (w_data (b_writer b'))"
      "stored_inode (er\<lparr>er_data := w_data (b_writer b')\<rparr>) m disk_id x
        (if f_tail f \<noteq> None then FlatInline else FlatPlain) (m_xattrs (f_meta f)) entries (f_tail f)"
    by metis
  have "write_file_inode arm t cnt f b = (Ok (), f\<lparr>f_disk_id := Some disk_id\<rparr>, b')"
    using w(1) x assms(8) by (simp add: write_file_inode_def)
  from that[OF this x w(2) _ w(4)] w(3) show thesis by simp
qed

text \<open>
  (C2) Contents survive: a file whose contents \<open>add_file\<close> laid out in the image, written by the
  inode pass, is read back byte for byte under the disk id the pass stores in the tree, with the
  owner, the mode and the link count it had.
\<close>

theorem file_roundtrip:
  assumes "inode_pre m b" and "make_mode arm t (m_mode (f_meta f)) = Ok mode"
    and "make_xattr_entries (m_xattrs (f_meta f)) = Ok entries"
    and "xc_xattr_count (xattr_count (map snd entries)) \<le> 65535"
    and "64 + length (xattr_section entries (m_xattrs (f_meta f))) + length (tail_bytes (f_tail f)) < 4096"
    and "b_inode_addr b + 4096 - m * 4096 < 2 ^ 37" and "image_of er m" and "f_disk_id f = None"
    and "file_layout f contents (w_data (b_writer b))" and "length contents < 2 ^ 48"
    and "f_start_block f = EROFS_NULL_ADDR \<or> unat (f_start_block f) * 4096 + length contents \<le> b_inode_addr b"
  shows "\<exists>disk_id b' i block tail. write_file_inode arm t cnt f b = (Ok (), f\<lparr>f_disk_id := Some disk_id\<rparr>, b') \<and>
     inode_pre m b' \<and> get_inode (er\<lparr>er_data := w_data (b_writer b')\<rparr>) disk_id = Ok i \<and>
     get_data (er\<lparr>er_data := w_data (b_writer b')\<rparr>) i = Ok (block, tail) \<and> block @ tail = contents \<and>
     inode_uid i = m_uid (f_meta f) \<and> inode_gid i = m_gid (f_meta f) \<and> inode_mode i = mode \<and>
     link_count i = f_n_links f"
proof -
  obtain disk_id b' x l where w: "write_file_inode arm t cnt f b = (Ok (), f\<lparr>f_disk_id := Some disk_id\<rparr>, b')"
      "make_inode arm t (f_len f) (f_start_block f) (f_meta f) (f_tail f) (f_n_links f) = Ok x"
      "inode_pre m b'" "keeps_below (b_inode_addr b) (w_data (b_writer b)) (w_data (b_writer b'))"
      "stored_inode (er\<lparr>er_data := w_data (b_writer b')\<rparr>) m disk_id x l (m_xattrs (f_meta f)) entries (f_tail f)"
    using write_file_inode_stored[OF assms(1-8)] by metis
  have "file_layout f contents (er_data (er\<lparr>er_data := w_data (b_writer b')\<rparr>))"
    using file_layout_keeps[OF assms(9) w(4) assms(11)] by simp
  from file_read_back[OF w(2) this assms(10) w(5)] obtain block tail where
    "get_data (er\<lparr>er_data := w_data (b_writer b')\<rparr>) (read_node disk_id x entries) = Ok (block, tail)"
    "block @ tail = contents" by blast
  with w(1,3) get_inode_stored[OF w(5)] make_inode_fields(5,6,8,9)[OF w(2)] assms(2) show ?thesis
    by (intro exI[of _ disk_id] exI[of _ b'] exI[of _ "read_node disk_id x entries"] exI[of _ block] exI[of _ tail])
      (simp add: read_node_def)
qed

section \<open>Symbolic links\<close>

text \<open>
  (C32) Reading a symbolic link back: a target of at most half a block is returned as it was given,
  and a longer one, which the builder puts into blocks, cannot be read with \<open>get_symlink\<close>.
\<close>

theorem symlink_read:
  assumes "make_inode arm FtSymlink (f_len s) (f_start_block s) (f_meta s) (f_tail s) (f_n_links s) = Ok x"
    and "file_layout s link (er_data er)" and "length link < 4096"
    and "stored_inode er m disk_id x l (m_xattrs (f_meta s)) entries (f_tail s)"
    and "frm (ucast (ie_mode x)) = FtSymlink"
  shows "get_symlink frm er (read_node disk_id x entries) =
     (if length link \<le> 2048 then Ok link else Err NotExpectingBlockData)"
proof -
  have ft: "inode_file_type frm (read_node disk_id x entries) = FtSymlink"
    using assms(5) by (simp add: read_node_def)
  from assms(3) have "length link < 2 ^ 48" by simp
  note data = file_read_split[OF assms(1,2) this assms(4)]
  show ?thesis
  proof (cases "length link \<le> 2048")
    case True
    with data ft show ?thesis by (simp add: get_symlink_def size_tail_len_12)
  next
    case False
    with assms(3) data have "get_data er (read_node disk_id x entries) = Ok (link, [])" "link \<noteq> []"
      by (auto simp: size_tail_len_12)
    with ft False show ?thesis by (simp add: get_symlink_def)
  qed
qed

section \<open>Directories\<close>

text \<open>
  (C3) A directory survives: the blocks that were reserved for it in the first pass, filled in the
  last one, are read back by the iterator as exactly the children of the directory, each with its
  disk id, type and name, in order.
\<close>

theorem directory_roundtrip:
  assumes "prepare_dirent_data 4096 start d0 = (Ok n, d1)" and "d_n_dirents_per_block d0 = []"
    and "d_n_dirents_per_block d = d_n_dirents_per_block d1" and "d_start_block d = d_start_block d1"
    and "d_total_size d = d_total_size d1" and "map fst (d_children d) = map fst (d_children d0)"
    and "d_disk_id d = Some i"
    and "\<forall>c \<in> set (d_children d). fst c \<noteq> [] \<and> 0 \<notin> set (fst c) \<and> length (fst c) \<le> 4084"
    and "d_children d \<noteq> []"
    and "list_all2 (\<lambda>c e. child_out (Some i) parents c = Some e) (d_children d) es"
    and "b_block_size_bits b = 12" and "b_name_buf b = []"
    and "b_cur_data_block b \<noteq> start \<or> w_pos (b_writer b) = start * 4096"
    and "image_of er m" and "inode_layout node = Ok FlatPlain" and "inode_file_type frm node = FtDirectory"
    and "inode_data_size node = d_total_size d" and "raw_block_addr node = d_start_block d"
    and "d_total_size d < 2 ^ 63"
  shows "\<exists>b' ds it. write_dirents_enter d (b, parents) = (Ok (), d, (b', parents @ [i])) \<and>
     get_dirents frm (er\<lparr>er_data := w_data (b_writer b')\<rparr>) node = Ok ds \<and> dirents_iter ds = Ok it \<and>
     it_items it = Some (Ok (map out_item es))"
proof -
  from directory_blocks[OF assms(1-13)] obtain b' bs it where
    w: "write_dirents_enter d (b, parents) = (Ok (), d, (b', parents @ [i]))" and
    st: "stored (w_data (b_writer b')) (start * 4096) bs" "length bs = d_total_size d" "unat (d_start_block d) = start" and
    it: "dirents_iterator_new (bs, []) 4096 = Ok it" "it_items it = Some (Ok (map out_item es))"
    by blast
  let ?er = "er\<lparr>er_data := w_data (b_writer b')\<rparr>"
  have img: "image_of ?er m" using assms(14) by (simp add: image_of_def)
  have "get_data ?er node = Ok (bs, [])"
    by (rule get_data_plain[OF img assms(15)]) (use assms(17-19) st in simp_all)
  then have "get_dirents frm ?er node = Ok \<lparr>ds_data = (bs, []), ds_block_size = 4096\<rparr>"
    using assms(16) image_offsets(1)[OF img] by (simp add: get_dirents_def)
  moreover have "dirents_iter \<lparr>ds_data = (bs, []), ds_block_size = 4096\<rparr> = Ok it"
    using it(1) by (simp add: dirents_iter_def)
  ultimately show ?thesis using w it(2) by blast
qed

section \<open>Extended attributes\<close>

text \<open>
  (C29) Extended attributes survive when every entry but the last fills whole words: the reader
  returns the keys and values that were given, in the same order.
\<close>

theorem xattrs_roundtrip:
  assumes "stored_inode er m disk_id x l xattrs entries tail" and "sb_xattr_blkaddr (er_sb er) = 0"
    and "xattrs \<noteq> []" and "word_aligned entries"
  shows "\<exists>xs items. get_xattrs er (read_node disk_id x entries) = Ok (Some xs) \<and>
     xi_items (xattrs_iter xs) = Ok items \<and> map full_key items = map Some xattrs"
  using xattrs_read_back[OF assms] .


text \<open>
  The empty Lustre prefix precedes \<open>security.\<close> in the table and matches every key, so a key
  always gets a built-in prefix and never the one for \<open>security.\<close>.
\<close>

lemma security_prefix_unused:
  "map_option xp_id (xattr_builtin_prefix key) \<noteq> Some 6 \<and> xattr_builtin_prefix key \<noteq> None"
  using xattr_builtin_prefix_spec[of key] by auto

section \<open>The inode that fills a block\<close>

text \<open>
  (C33) An inode that with its attributes and tail fills a block exactly and starts at the beginning
  of one: the address of the builder skips a block but the writer does not, so the bytes are
  written at the old address and the returned disk id points one block behind them.
\<close>

theorem full_block_misplaced:
  assumes "inode_pre m b" and "make_xattr_entries xattrs = Ok entries"
    and "xc_xattr_count (xattr_count (map snd entries)) \<le> 65535"
    and "exact_block b (length (inode_image i entries xattrs tail))"
    and "b_inode_addr b + 4096 - m * 4096 < 2 ^ 37" and "image_of er m"
  shows "\<exists>disk_id b'. write_inode i tail xattrs b = (Ok disk_id, b') \<and>
     stored (w_data (b_writer b')) (b_inode_addr b) (inode_image i entries xattrs tail) \<and>
     raw_inode_offset er disk_id = b_inode_addr b + 4096 \<and> \<not> inode_pre m b'"
proof -
  let ?img = "inode_image i entries xattrs tail"
  from write_inode_exact_block[OF assms(1-3) refl assms(4,5)] obtain disk_id p st where
    w: "write_inode i tail xattrs b = (Ok disk_id,
      b\<lparr>b_writer := write_all (?img @ replicate p 0) (b_writer b),
        b_n_inodes := b_n_inodes b + 1, b_inode_addr := b_inode_addr b + 4096 + length ?img + p, b_stats := st\<rparr>)" and
    id: "m * 4096 + unat disk_id * 32 = b_inode_addr b + 4096"
    by blast
  have "?img \<noteq> []" using assms(4) by (auto simp: exact_block_def)
  then have "stored (w_data (write_all (?img @ replicate p 0) (b_writer b))) (w_pos (b_writer b)) (?img @ replicate p 0)"
    by (intro write_all_stored) simp
  moreover have "w_pos (b_writer b) = b_inode_addr b" using assms(1) by (simp add: inode_pre_def)
  ultimately show ?thesis
    using w id image_offsets(3)[OF assms(6), of disk_id] by (simp add: stored_append inode_pre_def)
qed

section \<open>Depth\<close>

text \<open>The number of directories on the longest path, the root included.\<close>

fun dir_depth :: "dir \<Rightarrow> nat" and dirent_depth :: "dirent \<Rightarrow> nat" where
  "dir_depth (Dir cs m i b n t) = Suc (Max (insert 0 (set (map (\<lambda>(_, e). dirent_depth e) cs))))"
| "dirent_depth (SubDir d) = dir_depth d"
| "dirent_depth _ = 0"

lemma dir_depth_children:
  "dir_depth d \<le> Suc n \<longleftrightarrow> (\<forall>(name, e) \<in> set (d_children d). dirent_depth e \<le> n)"
  by (cases d) auto

text \<open>A visitor that leaves the children of a directory alone when it enters it.\<close>

definition keeps_children :: "'s tree_visitor \<Rightarrow> bool" where
  "keeps_children v \<longleftrightarrow>
     (\<forall>d s u d' s'. on_dir_enter v d s = (Ok u, d', s') \<longrightarrow> d_children d' = d_children d)"

lemma visit_children_depth:
  assumes "\<And>d s u d' s'. recur d s = (Ok u, d', s') \<Longrightarrow> dir_depth d \<le> n"
  shows "visit_children v recur cs s = (Ok u, cs', s') \<Longrightarrow> \<forall>(name, e) \<in> set cs. dirent_depth e \<le> n"
proof (induction cs arbitrary: s cs' s')
  case (Cons c cs)
  obtain name e where c: "c = (name, e)" by fastforce
  from Cons.prems obtain u1 e' s1 cs1 where step: "visit_child v recur e s = (Ok u1, e', s1)"
      "visit_children v recur cs s1 = (Ok u, cs1, s')"
    by (auto simp: c split: prod.splits result.splits)
  have "dirent_depth e \<le> n"
    using step(1) assms by (cases e) (auto simp: visit_child_def split: prod.splits)
  with Cons.IH[OF step(2)] c show ?case by simp
qed simp

lemma walk_recur_depth:
  assumes "keeps_children v"
  shows "walk_recur n v d s = (Ok u, d', s') \<Longrightarrow> dir_depth d \<le> n"
proof (induction n arbitrary: d s u d' s')
  case (Suc n)
  from Suc.prems obtain u1 d1 s1 where enter: "on_dir_enter v d s = (Ok u1, d1, s1)"
    by (auto split: prod.splits result.splits)
  with Suc.prems obtain u2 cs s2 where "visit_children v (walk_recur n v) (d_children d1) s1 = (Ok u2, cs, s2)"
    by (auto simp: Let_def split: prod.splits result.splits)
  from visit_children_depth[OF Suc.IH this] have "\<forall>(name, e) \<in> set (d_children d1). dirent_depth e \<le> n" .
  moreover have "d_children d1 = d_children d" using assms enter by (auto simp: keeps_children_def)
  ultimately show ?case by (simp add: dir_depth_children)
qed simp

lemma prepare_keeps_children: "keeps_children visitor_prepare_dirents"
  by (auto simp: keeps_children_def visitor_prepare_dirents_def prepare_dirents_enter_def prepare_dirent_data_def
      Let_def split: prod.splits result.splits dir.splits if_splits)

text \<open>
  (C31) The depth limit holds: a tree with more nested directories than the limit is never written,
  and no image leaves the builder.
\<close>

theorem depth_limit:
  assumes "b_root b = Some root" and "b_max_depth b < dir_depth root"
  shows "fst (write_inodes arm b) \<noteq> Ok ()"
proof -
  have "fst (walk_tree root visitor_prepare_dirents (b_max_depth b) (b\<lparr>b_root := None\<rparr>)) \<noteq> Ok u" for u
    using walk_recur_depth[OF prepare_keeps_children, of "b_max_depth b" root "b\<lparr>b_root := None\<rparr>"] assms(2)
    by (cases "walk_tree root visitor_prepare_dirents (b_max_depth b) (b\<lparr>b_root := None\<rparr>)")
      (auto simp: walk_tree_def)
  then show ?thesis
    by (cases "walk_tree root visitor_prepare_dirents (b_max_depth b) (b\<lparr>b_root := None\<rparr>)")
      (auto simp: write_inodes_def assms(1) split: result.splits)
qed

lemma preserves_cur_file_size:
  "preserves b_cur_file_size (bwrite bs)" "preserves b_cur_file_size (zero_fill n a)"
  "preserves b_cur_file_size (zero_fill_block n)" "preserves b_cur_file_size (start_block_of n)"
  "preserves b_cur_file_size (on_root f)"
proof -
  show w: "preserves b_cur_file_size (bwrite bs)" for bs
    unfolding bwrite_def by (intro preserves_intros) simp
  then show z: "preserves b_cur_file_size (zero_fill n a)" for n
    unfolding zero_fill_def Let_def by (intro preserves_intros) simp_all
  show "preserves b_cur_file_size (zero_fill_block n)"
    unfolding zero_fill_block_def zero_fill_def Let_def by (intro preserves_intros w) simp
  show "preserves b_cur_file_size (start_block_of n)"
    unfolding start_block_of_def by (intro preserves_intros)
  show "preserves b_cur_file_size (on_root f)"
    by (simp add: preserves_def on_root_def split: option.splits prod.splits)
qed

text \<open>
  The size limit is a limit per file: \<open>add_file\<close> compares against a running total that no
  operation advances.
\<close>

lemma file_size_total_unused:
  "b_cur_file_size (snd (add_file p m len contents b)) = b_cur_file_size b"
proof -
  have "preserves b_cur_file_size (add_file p m len contents)"
    unfolding add_file_def Let_def by (intro preserves_intros preserves_cur_file_size) simp
  then show ?thesis by (simp add: preserves_def)
qed

section \<open>The superblock\<close>

text \<open>
  (C30) Opening what \<open>write_superblock\<close> finished: the image is accepted, and the reader sees the
  block size, the metadata block and the root directory the builder used.
\<close>

theorem superblock_roundtrip:
  assumes "b_block_size_bits b = 12" and "b_meta_block b = Some n" and "n < 2 ^ 32"
    and "b_root b = Some root" and "d_disk_id root = Some i" and "unat i < 2 ^ 16"
    and "valid_superblock (b_superblock b)"
  shows "\<exists>b' er. write_superblock b = (Ok (), b') \<and> erofs_new (w_data (b_writer b')) = Ok er \<and>
     er_data er = w_data (b_writer b') \<and> image_of er n \<and> unat (sb_root_disk_id (er_sb er)) = unat i"
proof -
  let ?sb = "(b_superblock b)\<lparr>sb_magic := EROFS_SUPER_MAGIG_V1, sb_blkszbits := 12, sb_meta_blkaddr := of_nat n,
      sb_root_disk_id := ucast i, sb_inos := of_nat (b_n_inodes b)\<rparr>"
  let ?w = "write_all (enc_superblock ?sb) (seek_start EROFS_SUPER_OFFSET (b_writer b))"
  have "write_superblock b = (Ok (), b\<lparr>b_superblock := ?sb, b_writer := ?w\<rparr>)"
    using assms by (simp add: write_superblock_def set_sb_def bseek_def root_disk_id_u16_def)
  moreover have valid: "valid_superblock ?sb" using assms(7) by (simp add: valid_superblock_def)
  have "enc_superblock ?sb \<noteq> []" using sb_codec.enc_length[OF valid] by auto
  then have "stored (w_data ?w) EROFS_SUPER_OFFSET (enc_superblock ?sb)"
    using write_all_stored[of "enc_superblock ?sb" "seek_start EROFS_SUPER_OFFSET (b_writer b)"] by simp
  then obtain rest where "get_from EROFS_SUPER_OFFSET (w_data ?w) = Some (enc_superblock ?sb @ rest)"
    using stored_get_from by blast
  then have "erofs_new (w_data ?w) = Ok \<lparr>er_data = w_data ?w, er_sb = ?sb\<rparr>"
    by (simp add: erofs_new_def sb_codec.dec_enc[OF valid])
  moreover have "image_of \<lparr>er_data = w_data ?w, er_sb = ?sb\<rparr> n"
    using assms(3) by (simp add: image_of_def unat_of_nat_less)
  moreover have "unat (ucast i :: u16) = unat i" using assms(6) by (simp add: unat_ucast)
  ultimately show ?thesis by simp
qed

end
