(* ===== verification/Erofs_Instances.thy ===== *)
theory Erofs_Instances
  imports Erofs_Image_Props
begin

text \<open>
  Concrete builders, inodes and images at which the properties of the image format apply.
\<close>

section \<open>Instances\<close>

definition fresh_builder :: builder where
  "fresh_builder = builder_new \<lparr>w_data = [], w_pos = 0\<rparr> \<lparr>cfg_max_file_size = None, cfg_increment_uid_gid = None\<rparr>"

lemma fresh_builder_fields:
  "data_pre fresh_builder" "b_root fresh_builder = Some default_dir" "hook_meta fresh_builder m = Ok m"
  "b_cur_file_size fresh_builder = 0" "b_max_file_size fresh_builder = 2 ^ 64 - 1"
  "b_block_size_bits fresh_builder = 12" "b_name_buf fresh_builder = []"
  "b_cur_data_block fresh_builder = 1" "w_pos (b_writer fresh_builder) = 4096" "w_data (b_writer fresh_builder) = []"
  "b_superblock fresh_builder = zeroed_superblock" 
  by (simp_all add: fresh_builder_def builder_new_def data_pre_def hook_meta_def block_addr_def block_size_def shl64_def Let_def)

text \<open>A builder at the start of its inode pass, with the metadata at the start of the image.\<close>

definition inode_builder :: builder where
  "inode_builder = fresh_builder\<lparr>b_writer := \<lparr>w_data = [], w_pos = 0\<rparr>, b_meta_block := Some 0\<rparr>"

lemma inode_builder_fields:
  "inode_pre 0 inode_builder" "b_inode_addr inode_builder = 0" "b_writer inode_builder = \<lparr>w_data = [], w_pos = 0\<rparr>"
  by (simp_all add: inode_builder_def fresh_builder_def builder_new_def inode_pre_def Let_def)

definition plain_image :: "bytes \<Rightarrow> erofs" where
  "plain_image data = \<lparr>er_data = data, er_sb = zeroed_superblock\<lparr>sb_blkszbits := 12\<rparr>\<rparr>"

lemma plain_image_of: "image_of (plain_image data) 0"
  by (simp add: plain_image_def image_of_def zeroed_superblock_def)

lemmas path_eval = path_target_def path_components_def body_components_def ascii_def slash_def dot_name_def dotdot_name_def

lemma add_file_refines_witness:
  "\<exists>f b' root'. add_file (ascii ''a/b'') default_meta 3 [1, 2, 3] fresh_builder = (Ok (), b') \<and>
     b_root b' = Some root' \<and>
     dir_view root' = spec_insert [ascii ''a'', ascii ''b''] (FileInfo f) (dir_view default_dir)"
proof -
  have "path_target (ascii ''a/b'') = Some ([ascii ''a''] @ [ascii ''b''])" by (simp add: path_eval)
  moreover have "\<not> ends_with_slash (ascii ''a/b'')" by (simp add: ends_with_slash_def ascii_def slash_def)
  moreover have "\<not> spec_blocked [ascii ''a''] (dir_view default_dir)" by (simp add: spec_blocked_def view_default)
  ultimately show ?thesis
    using add_file_refines[of fresh_builder "[1, 2, 3]" 3 default_meta default_meta default_dir "ascii ''a/b''"
        "[ascii ''a'']" "ascii ''b''"] wf_default_dir fresh_builder_fields
    by (simp) blast
qed

lemma upsert_dir_refines_witness:
  "\<exists>root'. upsert_dir (ascii ''a/b/'') default_meta fresh_builder = (Ok (), fresh_builder\<lparr>b_root := Some root'\<rparr>) \<and>
     dir_view root' = spec_upsert [ascii ''a'', ascii ''b''] default_meta (dir_view default_dir)"
proof -
  have "path_target (ascii ''a/b/'') = Some ([ascii ''a''] @ [ascii ''b''])" by (simp add: path_eval)
  moreover have "\<not> spec_blocked [ascii ''a'', ascii ''b''] (dir_view default_dir)" by (simp add: spec_blocked_def view_default)
  ultimately show ?thesis
    using upsert_dir_refines[of fresh_builder default_meta default_meta default_dir "ascii ''a/b/''"
        "[ascii ''a'']" "ascii ''b''"] wf_default_dir fresh_builder_fields
    by simp blast
qed

lemma dotdot_rejected_witness:
  "\<exists>e d'. lookup_create (ascii ''a/../b'') (\<lambda>n d. (Ok (), d)) default_dir = (Err e, d')"
  by (rule dotdot_rejected) (simp add: path_eval)

definition plain_node :: inode_extended where
  "plain_node = zeroed_inode_extended\<lparr>ie_format_layout := format_layout InodeExtendedT FlatPlain\<rparr>"

lemma plain_node_valid: "valid_inode_extended plain_node" "ie_format_layout plain_node = format_layout InodeExtendedT FlatPlain"
  by (simp_all add: plain_node_def zeroed_inode_extended_def valid_inode_extended_def)

lemma no_xattrs: "make_xattr_entries [] = Ok []" "xc_xattr_count (xattr_count (map snd [])) \<le> 65535" "xattr_section [] [] = []"
  by (simp_all add: xattr_count_def xattr_section_def)

lemma write_inode_found_witness:
  "\<exists>disk_id b'. write_inode (BExtended plain_node) None [] inode_builder = (Ok disk_id, b') \<and>
     get_inode (plain_image (w_data (b_writer b'))) disk_id = Ok (read_node disk_id plain_node [])"
proof -
  have len: "length (inode_image (BExtended plain_node) [] [] None) = 64"
    by (simp add: length_inode_image plain_node_valid no_xattrs tail_bytes_def)
  then show ?thesis
    using write_inode_found[OF inode_builder_fields(1) no_xattrs(1,2) plain_node_valid, of None "plain_image []"]
      plain_image_of inode_builder_fields(2)
    by (simp add: exact_block_def plain_image_def) blast
qed

abbreviation small_file :: file_entry where
  "small_file \<equiv> new_file default_meta EROFS_NULL_ADDR 3 (Some [1, 2, 3]) 1"

lemma small_file_layout: "file_layout small_file [1, 2, 3] img"
  by (simp add: file_layout_def new_file_def size_tail_len_12)

lemma file_roundtrip_witness:
  "\<exists>disk_id b' i block tail. write_file_inode (\<lambda>_. 0x8000) FtRegularFile (\<lambda>s. s) small_file inode_builder =
       (Ok (), small_file\<lparr>f_disk_id := Some disk_id\<rparr>, b') \<and>
     get_inode (plain_image (w_data (b_writer b'))) disk_id = Ok i \<and>
     get_data (plain_image (w_data (b_writer b'))) i = Ok (block, tail) \<and> block @ tail = [1, 2, 3]"
proof -
  have "make_mode (\<lambda>_. 0x8000) FtRegularFile (m_mode (f_meta small_file)) = Ok 0x81ed"
    by (simp add: make_mode_def new_file_def default_meta_def)
  from file_roundtrip[OF inode_builder_fields(1) this _ no_xattrs(2) _ _ plain_image_of _ small_file_layout]
  show ?thesis
    by (simp add: new_file_def default_meta_def no_xattrs tail_bytes_def inode_builder_fields plain_image_def) blast
qed

definition link_node :: inode_extended where
  "link_node = zeroed_inode_extended\<lparr>ie_format_layout := format_layout InodeExtendedT FlatInline, ie_mode := 0xa1ed,
     ie_nlink := 1, ie_info := new_raw_blkaddr EROFS_NULL_ADDR, ie_size := 3\<rparr>"

lemma link_node_made:
  "make_inode (\<lambda>_. 0xa000) FtSymlink (f_len small_file) (f_start_block small_file) (f_meta small_file)
     (f_tail small_file) (f_n_links small_file) = Ok link_node"
  by (simp add: make_inode_def make_mode_def new_file_def default_meta_def link_node_def zeroed_inode_extended_def)

lemma link_node_stored:
  "stored_inode (plain_image (inode_image (BExtended link_node) [] [] (Some [1, 2, 3]))) 0 0 link_node FlatInline []
     [] (Some [1, 2, 3])"
  using make_inode_fields(1,2)[OF link_node_made]
  by (simp add: stored_inode_def plain_image_of no_xattrs[simplified] stored_def new_file_def) (simp add: plain_image_def)

lemma symlink_read_witness:
  "get_symlink (\<lambda>_. FtSymlink) (plain_image (inode_image (BExtended link_node) [] [] (Some [1, 2, 3])))
     (read_node 0 link_node []) = Ok [1, 2, 3]"
proof -
  let ?er = "plain_image (inode_image (BExtended link_node) [] [] (Some [1, 2, 3]))"
  have "stored_inode ?er 0 0 link_node FlatInline (m_xattrs (f_meta small_file)) [] (f_tail small_file)"
    using link_node_stored by (simp add: new_file_def default_meta_def)
  from symlink_read[OF link_node_made small_file_layout _ this, of "\<lambda>_. FtSymlink"] show ?thesis by simp
qed

lemma get_data_exact_witness:
  "length ([] :: bytes) + length [1, 2, 3 :: u8] = inode_data_size (read_node 0 link_node [])"
proof -
  let ?er = "plain_image (inode_image (BExtended link_node) [] [] (Some [1, 2, 3]))"
  have "stored_inode ?er 0 0 link_node FlatInline (m_xattrs (f_meta small_file)) [] (f_tail small_file)"
    using link_node_stored by (simp add: new_file_def default_meta_def)
  from file_read_split[OF link_node_made small_file_layout _ this]
  have "get_data ?er (read_node 0 link_node []) = Ok ([], [1, 2, 3])" by (simp add: size_tail_len_12)
  from get_data_exact[OF this] show ?thesis by simp
qed

definition root_reserved :: dir where
  "root_reserved = snd (prepare_dirent_data 4096 1 default_dir)"

lemma root_reserved_eq: "prepare_dirent_data 4096 1 default_dir = (Ok 1, root_reserved)"
  "root_reserved = Dir [(dot_name, Dot), (dotdot_name, DotDot)] default_meta None 1 [2] 27"
  by (simp_all add: root_reserved_def prepare_dirent_data_def default_dir_def dot_name_def dotdot_name_def)

definition dir_node :: inode where
  "dir_node = Extended 0 (plain_node\<lparr>ie_size := 27, ie_info := new_raw_blkaddr 1\<rparr>)"

lemma directory_roundtrip_witness:
  "\<exists>b' ds it. write_dirents_enter (set_disk_id (Some 0) root_reserved) (fresh_builder, []) =
       (Ok (), set_disk_id (Some 0) root_reserved, (b', [0])) \<and>
     get_dirents (\<lambda>_. FtDirectory) (plain_image (w_data (b_writer b'))) dir_node = Ok ds \<and> dirents_iter ds = Ok it \<and>
     it_items it = Some (Ok [\<lparr>di_disk_id = 0, di_file_type = DtDirectory, di_name = dot_name\<rparr>,
       \<lparr>di_disk_id = 0, di_file_type = DtDirectory, di_name = dotdot_name\<rparr>])"
  using directory_roundtrip[OF root_reserved_eq(1), of "set_disk_id (Some 0) root_reserved" 0 "[]"
      "[(0, DtDirectory, dot_name), (0, DtDirectory, dotdot_name)]" fresh_builder "plain_image []" 0 dir_node "\<lambda>_. FtDirectory"]
  by (simp add: root_reserved_eq(2) default_dir_def dot_name_def dotdot_name_def child_out_def fresh_builder_fields
      plain_image_of dir_node_def plain_node_valid inode_layout_def out_item_def) (simp add: plain_image_def)

lemma full_block_misplaced_witness:
  "\<exists>disk_id b'. write_inode (BExtended plain_node) (Some (replicate 4032 0)) [] inode_builder = (Ok disk_id, b') \<and>
     raw_inode_offset (plain_image []) disk_id = 4096 \<and> \<not> inode_pre 0 b'"
proof -
  have "exact_block inode_builder (length (inode_image (BExtended plain_node) [] [] (Some (replicate 4032 0))))"
    by (simp add: length_inode_image plain_node_valid no_xattrs tail_bytes_def exact_block_def inode_builder_fields)
  from full_block_misplaced[OF inode_builder_fields(1) no_xattrs(1,2) this _ plain_image_of, of "[]"]
  show ?thesis by (auto simp: inode_builder_fields)
qed

lemma depth_limit_witness:
  "fst (write_inodes (\<lambda>_. 0) (fresh_builder\<lparr>b_max_depth := 1,
     b_root := Some (insert_child (ascii ''a'') (SubDir default_dir) default_dir)\<rparr>)) \<noteq> Ok ()"
  by (rule depth_limit[of _ "insert_child (ascii ''a'') (SubDir default_dir) default_dir"])
    (simp_all add: insert_child_def default_dir_def ascii_def dot_name_def dotdot_name_def)

lemma d_disk_id_set: "d_disk_id (set_disk_id i d) = i"
  by (cases d) simp

lemma superblock_roundtrip_witness:
  "\<exists>b' er. write_superblock (fresh_builder\<lparr>b_meta_block := Some 3, b_root := Some (set_disk_id (Some 0) default_dir)\<rparr>) =
     (Ok (), b') \<and> erofs_new (w_data (b_writer b')) = Ok er \<and> image_of er 3"
  using superblock_roundtrip[of "fresh_builder\<lparr>b_meta_block := Some 3, b_root := Some (set_disk_id (Some 0) default_dir)\<rparr>"
      3 "set_disk_id (Some 0) default_dir" 0] fresh_builder_fields(6,11) d_disk_id_set
  by (simp add: valid_superblock_def zeroed_superblock_def) blast

definition one_xattr :: xattr_map where
  "one_xattr = [(ascii ''user.a'', [1, 2, 3])]"

definition one_entry :: "(nat \<times> xattr_entry) list" where
  "one_entry = [(5, \<lparr>xe_name_len = 1, xe_name_index = 1, xe_value_size = 3\<rparr>)]"

lemma one_xattr_entries: "make_xattr_entries one_xattr = Ok one_entry"
  by (simp add: one_xattr_def one_entry_def make_xattr_entry_def xattr_builtin_prefix_def XATTR_BUILTIN_PREFIX_TABLE_def
      ascii_def starts_with_def)

lemma xattrs_roundtrip_witness:
  "\<exists>xs items. get_xattrs (plain_image (inode_image (BExtended plain_node) one_entry one_xattr None))
       (read_node 0 plain_node one_entry) = Ok (Some xs) \<and>
     xi_items (xattrs_iter xs) = Ok items \<and> map full_key items = map Some one_xattr"
proof (rule xattrs_roundtrip)
  show "stored_inode (plain_image (inode_image (BExtended plain_node) one_entry one_xattr None)) 0 0 plain_node FlatPlain
      one_xattr one_entry None"
    using plain_node_valid one_xattr_entries
    by (simp add: stored_inode_def plain_image_of stored_def one_entry_def xattr_count_def xattr_entry_len_def
        round_up_to_def div_ceil_def) (simp add: plain_image_def)
qed (simp_all add: plain_image_def zeroed_superblock_def one_xattr_def one_entry_def xattr_entry_len_def)

end
