(* ===== verification/Squash_Instances.thy ===== *)
theory Squash_Instances
  imports Squash_Props Erofs_Instances
begin

text \<open>
  Concrete layers, entries and indexes at which the properties of squashing apply.
\<close>

lemma file_entry_path: "te_path (file_entry p) = Ok p"
  by (simp add: file_entry_def)

lemma whiteout_file_entry:
  "whiteout (file_entry (ascii ''x/b'')) = Ok None" "whiteout (file_entry (ascii ''y'')) = Ok None"
  by (simp_all add: squash_eval)

lemma two_layers_readable: "readable_layers open_plain [layer_of [''x/b''], layer_of [''y'']]
    [[file_entry (ascii ''x/b'')], [file_entry (ascii ''y'')]]"
  by (simp add: readable_layers_def open_plain_def layer_of_def file_entry_def)

lemma squash_keeps_visible_witness:
  "\<exists>st out. squash_cb open_plain [layer_of [''x/b''], layer_of [''y'']] collect [] = (Ok st, out) \<and>
     file_entry (ascii ''x/b'') \<in> set out"
proof -
  have "\<not> hidden_by [file_entry (ascii ''y'')] (ascii ''x/b'')"
    by (simp add: hidden_by_def path_sets_Cons ordinary_def whiteout_file_entry file_entry_path)
      (simp add: without_trailing_slash_def ends_with_slash_def ascii_def slash_def Let_def)
  moreover have "ordinary (file_entry (ascii ''x/b'')) (ascii ''x/b'')"
    using whiteout_file_entry(1) by (simp add: ordinary_def file_entry_def)
  ultimately show ?thesis
    using squash_keeps_visible[of open_plain "[layer_of [''x/b''], layer_of [''y'']]" "[]" "[]"
        "file_entry (ascii ''x/b'')" "[]" "[[file_entry (ascii ''y'')]]" "ascii ''x/b''"] two_layers_readable
    by simp
qed


lemma whiteout_recognised_witness:
  "whiteout (file_entry (ascii ''d/.wh.f'')) = Ok (Some (WhWhiteout (ascii ''d/f''))) \<and>
   whiteout (file_entry (ascii ''d/.wh..wh..opq'')) = Ok (Some (WhOpaque (ascii ''d'')))"
  using whiteout_recognised[of "[ascii ''d'']" "ascii ''f''" "file_entry []"]
  by (simp add: normal_name_def ascii_def slash_def dot_name_def dotdot_name_def starts_with_def file_entry_def)

lemma deletion_found_witness:
  "os_is_deleted (ascii ''x/f'') (deletions_default\<lparr>del_map := [(ascii ''x'', StOpaque)]\<rparr>) \<noteq> None"
  by (rule deletion_found[where k = "ascii ''x''"])
    (simp_all add: bt_inv_def below_keys_def bt_get_def os_str_starts_with_def without_trailing_slash_def
      ends_with_slash_def ascii_def slash_def)

definition dir_entry :: "u32 \<Rightarrow> tar_entry" where
  "dir_entry mode = (file_entry (ascii ''d/''))\<lparr>te_type := EtDirectory, te_mode := Ok mode\<rparr>"

lemma lower_directory_wins_witness:
  "\<exists>st b' root'. squash_cb open_plain [(CompNone, [dir_entry 0x1c0]), (CompNone, [dir_entry 0x1ed])]
     (on_entry_erofs (\<lambda>m. m)) fresh_builder = (Ok st, b') \<and> b_root b' = Some root' \<and>
     dir_view root' [ascii ''d''] = Some (DirInfo (default_meta\<lparr>m_mode := 0x1c0\<rparr>))"
proof (rule lower_directory_wins[where root = default_dir])
  show "\<not> spec_blocked [ascii ''d''] (dir_view default_dir)" by (simp add: spec_blocked_def view_default)
  show "header_to_meta (\<lambda>m. m) (dir_entry 0x1ed) [] = Ok (default_meta\<lparr>m_mode := 0x1ed\<rparr>)"
    "header_to_meta (\<lambda>m. m) (dir_entry 0x1c0) [] = Ok (default_meta\<lparr>m_mode := 0x1c0\<rparr>)"
    by (simp_all add: header_to_meta_def to_u32_def dir_entry_def file_entry_def default_meta_def result_simps)
qed (simp_all add: fresh_builder_fields wf_default_dir dir_entry_def file_entry_def normal_name_def ascii_def slash_def
    dot_name_def dotdot_name_def starts_with_def)

end
