(* ===== verification/Byte_Sink.thy ===== *)
theory Byte_Sink
  imports Erofs_Writer
begin

text \<open>
  \<open>std::io::BufWriter\<close> over a writer that accepts bytes in order. The contract of such a writer is a
  locale; a \<open>Cursor\<close> at the end of a vector keeps it.
\<close>

section \<open>The buffer\<close>

type_synonym 'i inner_write = "bytes \<Rightarrow> 'i \<Rightarrow> bool \<times> 'i"

record 'i buf_writer =
  bw_buf :: bytes
  bw_inner :: 'i

definition bw_capacity :: nat where "bw_capacity = 8192"

definition bw_new :: "'i \<Rightarrow> 'i buf_writer" where
  "bw_new i = \<lparr>bw_buf = [], bw_inner = i\<rparr>"

definition bw_flush_buf :: "'i inner_write \<Rightarrow> 'i buf_writer \<Rightarrow> bool \<times> 'i buf_writer" where
  "bw_flush_buf iw w =
     (if bw_buf w = [] then (True, w)
      else case iw (bw_buf w) (bw_inner w) of
             (True, i) \<Rightarrow> (True, \<lparr>bw_buf = [], bw_inner = i\<rparr>)
           | (False, i) \<Rightarrow> (False, w\<lparr>bw_inner := i\<rparr>))"

definition bw_write_all :: "'i inner_write \<Rightarrow> bytes \<Rightarrow> 'i buf_writer \<Rightarrow> bool \<times> 'i buf_writer" where
  "bw_write_all iw bs w =
     (let spare = bw_capacity - length (bw_buf w)
      in if length bs < spare then (True, w\<lparr>bw_buf := bw_buf w @ bs\<rparr>)
         else case (if spare < length bs then bw_flush_buf iw w else (True, w)) of
                (False, w1) \<Rightarrow> (False, w1)
              | (True, w1) \<Rightarrow>
                  if bw_capacity \<le> length bs
                  then (case iw bs (bw_inner w1) of (ok, i) \<Rightarrow> (ok, w1\<lparr>bw_inner := i\<rparr>))
                  else (True, w1\<lparr>bw_buf := bw_buf w1 @ bs\<rparr>))"

section \<open>The contract of the writer below\<close>

locale byte_sink =
  fixes iw :: "'i inner_write"
    and inv :: "'i \<Rightarrow> bool"
    and out :: "'i \<Rightarrow> bytes"
  assumes accepted: "inv i \<Longrightarrow> iw bs i = (True, i') \<Longrightarrow> inv i' \<and> out i' = out i @ bs"
begin

text \<open>What has been accepted: the bytes that reached the writer below and those still buffered.\<close>

definition accepted_bytes :: "'i buf_writer \<Rightarrow> bytes" where
  "accepted_bytes w = out (bw_inner w) @ bw_buf w"

lemma flush_buf:
  assumes "inv (bw_inner w)" and "bw_flush_buf iw w = (True, w')"
  shows "inv (bw_inner w')" "bw_buf w' = []" "out (bw_inner w') = accepted_bytes w"
  using assms accepted[of "bw_inner w" "bw_buf w"]
  by (auto simp: bw_flush_buf_def accepted_bytes_def split: if_splits prod.splits bool.splits)

lemma write_all:
  assumes inv: "inv (bw_inner w)" and run: "bw_write_all iw bs w = (True, w')"
  shows "inv (bw_inner w')" "accepted_bytes w' = accepted_bytes w @ bs"
proof -
  let ?spare = "bw_capacity - length (bw_buf w)"
  let ?flush = "if ?spare < length bs then bw_flush_buf iw w else (True, w)"
  have "inv (bw_inner w') \<and> accepted_bytes w' = accepted_bytes w @ bs"
  proof (cases "length bs < ?spare")
    case True
    with assms show ?thesis by (auto simp: bw_write_all_def accepted_bytes_def Let_def)
  next
    case False
    with run obtain w1 where w1: "?flush = (True, w1)"
      and rest: "(if bw_capacity \<le> length bs
        then (case iw bs (bw_inner w1) of (ok, i) \<Rightarrow> (ok, w1\<lparr>bw_inner := i\<rparr>))
        else (True, w1\<lparr>bw_buf := bw_buf w1 @ bs\<rparr>)) = (True, w')"
      by (cases ?flush) (auto simp: bw_write_all_def Let_def split: bool.splits)
    have "bw_buf w = []" if "bw_capacity \<le> length bs" "\<not> ?spare < length bs"
      using that by (cases "bw_buf w") (auto simp: bw_capacity_def)
    then have f: "inv (bw_inner w1)" "accepted_bytes w1 = accepted_bytes w" "bw_capacity \<le> length bs \<Longrightarrow> bw_buf w1 = []"
      using w1 inv flush_buf[OF inv, of w1]
      by (auto simp: accepted_bytes_def split: if_splits)
    with rest accepted[OF f(1), of bs] show ?thesis
      by (auto simp: accepted_bytes_def split: if_splits prod.splits)
  qed
  then show "inv (bw_inner w')" "accepted_bytes w' = accepted_bytes w @ bs" by auto
qed

end

text \<open>A writer that never refuses.\<close>

locale reliable_sink = byte_sink +
  assumes takes_all: "inv i \<Longrightarrow> fst (iw bs i)"
begin

lemma flush_ok:
  assumes "inv (bw_inner w)"
  shows "\<exists>w'. bw_flush_buf iw w = (True, w') \<and> inv (bw_inner w') \<and> bw_buf w' = [] \<and> out (bw_inner w') = accepted_bytes w"
proof -
  have "fst (bw_flush_buf iw w)"
    using takes_all[OF assms, of "bw_buf w"] by (auto simp: bw_flush_buf_def split: prod.split bool.split)
  then obtain w' where "bw_flush_buf iw w = (True, w')" by (cases "bw_flush_buf iw w") auto
  with flush_buf[OF assms] show ?thesis by blast
qed

lemma write_ok:
  assumes "inv (bw_inner w)"
  shows "\<exists>w'. bw_write_all iw bs w = (True, w') \<and> inv (bw_inner w') \<and> accepted_bytes w' = accepted_bytes w @ bs"
proof -
  obtain w1 where "bw_flush_buf iw w = (True, w1)" "inv (bw_inner w1)" using flush_ok[OF assms] by blast
  then have "fst (bw_write_all iw bs w)"
    using takes_all[OF assms, of bs] takes_all[of "bw_inner w1" bs]
    by (auto simp: bw_write_all_def Let_def split: prod.split)
  then obtain w' where "bw_write_all iw bs w = (True, w')" by (cases "bw_write_all iw bs w") auto
  with write_all[OF assms] show ?thesis by blast
qed

end

section \<open>A vector\<close>

definition vec_write :: "writer inner_write" where
  "vec_write bs w = (True, Erofs_Writer.write_all bs w)"

interpretation vec: reliable_sink vec_write "\<lambda>w. w_pos w = length (w_data w)" w_data
  by unfold_locales (auto simp: vec_write_def Erofs_Writer.write_all_def overwrite_def)

end
