(* ===== verification/Str_Ops.thy ===== *)
theory Str_Ops
  imports Prelude
begin

text \<open>
  What the code uses of \<open>str\<close>, as operations on its bytes: splitting at a separator, removing a prefix,
  and reading and printing unsigned numbers.
\<close>

section \<open>Splitting\<close>

text \<open>\<open>str::split_once\<close> and \<open>str::strip_prefix\<close>.\<close>

definition split_once :: "u8 \<Rightarrow> bytes \<Rightarrow> (bytes \<times> bytes) option" where
  "split_once c s =
     (if c \<in> set s then Some (takeWhile (\<lambda>b. b \<noteq> c) s, tl (dropWhile (\<lambda>b. b \<noteq> c) s)) else None)"

definition strip_prefix :: "bytes \<Rightarrow> bytes \<Rightarrow> bytes option" where
  "strip_prefix pre s = (if take (length pre) s = pre then Some (drop (length pre) s) else None)"

text \<open>\<open>str::split\<close> with a separator of one byte: the pieces between the separators, at least one.\<close>

fun split_all :: "u8 \<Rightarrow> bytes \<Rightarrow> bytes list" where
  "split_all c [] = [[]]"
| "split_all c (b # s) =
     (case split_all c s of
        [] \<Rightarrow> []
      | p # ps \<Rightarrow> if b = c then [] # p # ps else (b # p) # ps)"

lemma split_once_at: "c \<notin> set a \<Longrightarrow> split_once c (a @ c # b) = Some (a, b)"
  by (induction a) (auto simp: split_once_def)

lemma split_once_Some: "split_once c x = Some (a, b) \<longleftrightarrow> x = a @ c # b \<and> c \<notin> set a"
proof
  assume h: "split_once c x = Some (a, b)"
  then obtain ys zs where "x = ys @ c # zs" "c \<notin> set ys"
    by (metis option.distinct(1) split_list_first split_once_def)
  with h show "x = a @ c # b \<and> c \<notin> set a" by (simp add: split_once_at)
qed (auto simp: split_once_at)

lemma strip_prefix_Some: "strip_prefix pre s = Some r \<longleftrightarrow> s = pre @ r"
  by (auto simp: strip_prefix_def) (metis append_take_drop_id)

lemma split_all_ne: "split_all c s \<noteq> []"
  by (induction s) (auto split: list.splits)

lemma split_all_plain: "c \<notin> set s \<Longrightarrow> split_all c s = [s]"
  by (induction s) auto

lemma split_all_at: "c \<notin> set a \<Longrightarrow> split_all c (a @ c # b) = a # split_all c b"
proof (induction a)
  case Nil
  then show ?case by (cases "split_all c b") (auto simp: split_all_ne)
qed auto

section \<open>Numbers\<close>

text \<open>
  \<open>str::parse\<close> for an unsigned integer type with \<open>lim\<close> values: an optional plus sign, then digits whose
  value fits.
\<close>

definition digit_value :: "u8 \<Rightarrow> nat option" where
  "digit_value b = (if 0x30 \<le> b \<and> b \<le> 0x39 then Some (unat b - 48) else None)"

fun parse_digits :: "nat \<Rightarrow> bytes \<Rightarrow> nat \<Rightarrow> nat option" where
  "parse_digits lim [] acc = Some acc"
| "parse_digits lim (b # s) acc =
     (case digit_value b of
        None \<Rightarrow> None
      | Some d \<Rightarrow> if acc * 10 + d < lim then parse_digits lim s (acc * 10 + d) else None)"

definition parse_unsigned :: "nat \<Rightarrow> bytes \<Rightarrow> nat option" where
  "parse_unsigned lim s =
     (case s of
        [] \<Rightarrow> None
      | b # rest \<Rightarrow>
          if b = 0x2b then (if rest = [] then None else parse_digits lim rest 0) else parse_digits lim s 0)"

text \<open>\<open>str::parse\<close> for \<open>i32\<close>.\<close>

definition parse_i32 :: "bytes \<Rightarrow> int option" where
  "parse_i32 s =
     (case s of
        [] \<Rightarrow> None
      | b # rest \<Rightarrow>
          if b = 0x2d
          then (if rest = [] then None else map_option (\<lambda>n. - int n) (parse_digits (2 ^ 31 + 1) rest 0))
          else map_option int (parse_unsigned (2 ^ 31) s))"

text \<open>\<open>Display\<close> of an unsigned integer.\<close>

function decimal :: "nat \<Rightarrow> bytes" where
  "decimal n = (if n < 10 then [of_nat (48 + n)] else decimal (n div 10) @ [of_nat (48 + n mod 10)])"
  by pat_completeness auto
termination by (relation "measure id") auto

declare decimal.simps [simp del]

lemma digit_value_of_nat: "d < 10 \<Longrightarrow> digit_value (of_nat (48 + d)) = Some d"
  by (simp add: digit_value_def word_le_nat_alt unat_of_nat del: of_nat_add)

lemma parse_digits_append:
  "parse_digits lim (s @ t) acc = Option.bind (parse_digits lim s acc) (parse_digits lim t)"
  by (induction s arbitrary: acc) (auto split: option.splits)

lemma parse_digits_decimal: "n < lim \<Longrightarrow> parse_digits lim (decimal n) 0 = Some n"
proof (induction n rule: decimal.induct)
  case (1 n)
  have step: "parse_digits lim [of_nat (48 + d)] acc = Some (acc * 10 + d)" if "d < 10" "acc * 10 + d < lim" for d acc
    using that by (simp add: digit_value_of_nat del: of_nat_add)
  show ?case
  proof (cases "n < 10")
    case True
    then show ?thesis using step [of n 0] 1(2) by (simp add: decimal.simps [of n])
  next
    case False
    then have "parse_digits lim (decimal (n div 10)) 0 = Some (n div 10)" using 1 by simp
    then show ?thesis
      using False step [of "n mod 10" "n div 10"] 1(2)
      by (simp add: decimal.simps [of n] parse_digits_append del: parse_digits.simps)
  qed
qed

lemma decimal_digits: "\<forall>b \<in> set (decimal n). 0x30 \<le> b \<and> b \<le> 0x39"
proof (induction n rule: decimal.induct)
  case (1 n)
  have digit: "0x30 \<le> (of_nat (48 + d) :: u8) \<and> (of_nat (48 + d) :: u8) \<le> 0x39" if "d < 10" for d
    using that by (simp add: word_le_nat_alt unat_of_nat del: of_nat_add)
  show ?case
    using 1 digit [of n] digit [of "n mod 10"] by (cases "n < 10") (auto simp: decimal.simps [of n] simp del: of_nat_add)
qed

lemma decimal_ne: "decimal n \<noteq> []"
  by (simp add: decimal.simps [of n])

text \<open>A printed number is read back.\<close>

lemma parse_decimal: "n < lim \<Longrightarrow> parse_unsigned lim (decimal n) = Some n"
proof -
  assume n: "n < lim"
  obtain b s where bs: "decimal n = b # s" using decimal_ne by (cases "decimal n") auto
  then have "b \<noteq> 0x2b" using decimal_digits [of n] by (auto simp: word_le_nat_alt)
  then show ?thesis using parse_digits_decimal [OF n] bs by (simp add: parse_unsigned_def)
qed

lemma parse_digits_less: "parse_digits lim s acc = Some n \<Longrightarrow> acc < lim \<Longrightarrow> n < lim"
  by (induction s arbitrary: acc) (auto split: option.splits if_splits)

lemma parse_unsigned_less: "parse_unsigned lim s = Some n \<Longrightarrow> 0 < lim \<Longrightarrow> n < lim"
  by (auto simp: parse_unsigned_def simp del: parse_digits.simps dest: parse_digits_less split: list.splits if_splits)

end
