(* ===== verification/Pearchive.thy ===== *)
theory Pearchive
  imports Byte_Sink Path_Ops Str_Ops
begin

text \<open>
  The archive format that carries files into and out of a guest, \<open>pearchive\<close>: packing from memory
  and from a directory, and unpacking to a visitor, to a map and to a directory. The system calls
  (crate \<open>rustix\<close>) are arguments: those that read the directory being packed are functions of the
  descriptor, those that write change a state.
\<close>

section \<open>Tags and errors\<close>

datatype pe_error =
    PeCreate | PeOpenAt int | PeGetdents | PeDirTooDeep | PeMkdirAt int | PeFstat | PeOnFile | PeOnDir | PeOnPop
  | PeWrite | PeSendFile int | PeFlush | PeBadName | PeBadSize | PeEmptyStack | PeBadTag | PeArchiveTruncated
  | PeChdir | PeChroot | PeUnshare | PeMmap | PeStackEmpty | PeBadCStr | PeSizeUnderflow

definition MAX_DIR_DEPTH :: nat where "MAX_DIR_DEPTH = 32"
definition MKDIR_MODE :: u32 where "MKDIR_MODE = 0x1e4"
definition FILE_MODE :: u32 where "FILE_MODE = 0x189"
definition MAX_NAME_LEN :: nat where "MAX_NAME_LEN = 255"

datatype archive_tag = TagFile | TagDir | TagPop

fun tag_byte :: "archive_tag \<Rightarrow> u8" where
  "tag_byte TagFile = 1"
| "tag_byte TagDir = 2"
| "tag_byte TagPop = 3"

definition tag_of_byte :: "u8 \<Rightarrow> archive_tag option" where
  "tag_of_byte x =
     (if x = 1 then Some TagFile else if x = 2 then Some TagDir else if x = 3 then Some TagPop else None)"

section \<open>Packing from memory\<close>

record 'i packer =
  pk_writer :: "'i buf_writer"
  pk_depth :: nat

definition packer_new :: "'i \<Rightarrow> 'i packer" where
  "packer_new i = \<lparr>pk_writer = bw_new i, pk_depth = 0\<rparr>"

definition packer_into_inner :: "'i inner_write \<Rightarrow> 'i packer \<Rightarrow> ('i, pe_error) result" where
  "packer_into_inner iw p =
     (case bw_flush_buf iw (pk_writer p) of (ok, w) \<Rightarrow> if ok then Ok (bw_inner w) else Err PeWrite)"

type_synonym 'i packing = "(unit, pe_error, 'i packer) st"

definition put :: "'i inner_write \<Rightarrow> bytes \<Rightarrow> 'i packing" where
  "put iw bs p =
     (case bw_write_all iw bs (pk_writer p) of
        (ok, w) \<Rightarrow> (if ok then Ok () else Err PeWrite, p\<lparr>pk_writer := w\<rparr>))"

definition mem_file :: "'i inner_write \<Rightarrow> bytes \<Rightarrow> bytes \<Rightarrow> 'i packing" where
  "mem_file iw name data =
     (if length data < 2 ^ 32
      then st_seq (put iw [tag_byte TagFile])
           (st_seq (put iw name)
           (st_seq (put iw [0])
           (st_seq (put iw (to_le 4 (of_nat (length data) :: u32)))
             (put iw data))))
      else st_err PeWrite)"

definition mem_dir :: "'i inner_write \<Rightarrow> bytes \<Rightarrow> 'i packing" where
  "mem_dir iw name = st_with (\<lambda>p.
     if MAX_DIR_DEPTH < pk_depth p then st_err PeDirTooDeep
     else st_seq (st_modify (\<lambda>p. p\<lparr>pk_depth := pk_depth p + 1\<rparr>))
          (st_seq (put iw [tag_byte TagDir])
          (st_seq (put iw name)
            (put iw [0]))))"

definition mem_pop :: "'i inner_write \<Rightarrow> 'i packing" where
  "mem_pop iw = st_with (\<lambda>p.
     if pk_depth p = 0 then st_err PeEmptyStack
     else st_seq (st_modify (\<lambda>p. p\<lparr>pk_depth := pk_depth p - 1\<rparr>)) (put iw [tag_byte TagPop]))"

definition pack_vec_with :: "bytes \<Rightarrow> writer packer" where
  "pack_vec_with v = packer_new \<lparr>w_data = v, w_pos = length v\<rparr>"

definition pack_vec_new :: "writer packer" where
  "pack_vec_new = packer_new \<lparr>w_data = [], w_pos = 0\<rparr>"

definition pack_into_vec :: "writer packer \<Rightarrow> (bytes, pe_error) result" where
  "pack_into_vec p = mapr w_data (packer_into_inner vec_write p)"

definition vec_file :: "bytes \<Rightarrow> bytes \<Rightarrow> writer packing" where "vec_file = mem_file vec_write"
definition vec_dir :: "bytes \<Rightarrow> writer packing" where "vec_dir = mem_dir vec_write"
definition vec_pop :: "writer packing" where "vec_pop = mem_pop vec_write"

section \<open>Packing a directory\<close>

datatype open_flag = ORdonly | OWronly | ORdwr | OCreate | OTrunc | OPath | ODirectory | OCloexec | ONonblock

record open_how =
  oh_flags :: "open_flag list"
  oh_mode :: u32
  oh_beneath :: bool

datatype file_kind = FkRegular | FkDirectory | FkOther

record raw_dirent =
  rd_type :: file_kind
  rd_name :: bytes

record ('fd, 'i) pack_sys =
  ps_open :: "bytes \<Rightarrow> open_how \<Rightarrow> ('fd, int) result"
  ps_openat2 :: "'fd \<Rightarrow> bytes \<Rightarrow> open_how \<Rightarrow> ('fd, int) result"
  ps_getdents :: "'fd \<Rightarrow> (raw_dirent, unit) result list"
  ps_fstat_size :: "'fd \<Rightarrow> int option"
  ps_write :: "'i inner_write"
  ps_flush :: "'i \<Rightarrow> bool \<times> 'i"
  ps_sendfile :: "'fd \<Rightarrow> nat \<Rightarrow> 'i \<Rightarrow> (nat, int) result \<times> 'i"

definition openat :: "('fd, 'i) pack_sys \<Rightarrow> 'fd \<Rightarrow> bytes \<Rightarrow> ('fd, pe_error) result" where
  "openat sys fd name =
     map_err PeOpenAt (ps_openat2 sys fd name \<lparr>oh_flags = [ORdonly, OCloexec], oh_mode = 0, oh_beneath = True\<rparr>)"

definition opendir :: "('fd, 'i) pack_sys \<Rightarrow> bytes \<Rightarrow> ('fd, pe_error) result" where
  "opendir sys name =
     map_err PeOpenAt
       (ps_open sys name \<lparr>oh_flags = [ORdonly, ODirectory, OCloexec], oh_mode = 0, oh_beneath = False\<rparr>)"

definition opendirat :: "('fd, 'i) pack_sys \<Rightarrow> 'fd \<Rightarrow> bytes \<Rightarrow> ('fd, pe_error) result" where
  "opendirat sys fd name =
     map_err PeOpenAt
       (ps_openat2 sys fd name \<lparr>oh_flags = [ORdonly, ODirectory, OCloexec], oh_mode = 0, oh_beneath = True\<rparr>)"

text \<open>A negative size becomes \<open>0\<close>.\<close>

definition file_size :: "('fd, 'i) pack_sys \<Rightarrow> 'fd \<Rightarrow> (nat, pe_error) result" where
  "file_size sys fd = mapr nat (ok_or PeFstat (ps_fstat_size sys fd))"

text \<open>\<open>None\<close> stands for a loop that does not end.\<close>

partial_function (option) sendfile_all ::
    "(nat \<Rightarrow> 'i \<Rightarrow> (nat, int) result \<times> 'i) \<Rightarrow> nat \<Rightarrow> 'i \<Rightarrow> ((unit, pe_error) result \<times> 'i) option" where
  "sendfile_all send len i =
     (if len = 0 then Some (Ok (), i)
      else case send len i of
             (Err e, i') \<Rightarrow> Some (Err (PeSendFile e), i')
           | (Ok sent, i') \<Rightarrow>
               if sent \<le> len then sendfile_all send (len - sent) i' else Some (Err PeSizeUnderflow, i'))"

record ('fd, 'v) fs_visitor =
  fv_on_file :: "bytes \<Rightarrow> nat \<Rightarrow> 'fd \<Rightarrow> 'v \<Rightarrow> ((unit, pe_error) result \<times> 'v) option"
  fv_on_dir :: "bytes \<Rightarrow> (unit, pe_error, 'v) st"
  fv_leave_dir :: "(unit, pe_error, 'v) st"

definition fs_flush :: "('fd, 'i) pack_sys \<Rightarrow> 'i packing" where
  "fs_flush sys p =
     (case bw_flush_buf (ps_write sys) (pk_writer p) of
        (False, w) \<Rightarrow> (Err PeFlush, p\<lparr>pk_writer := w\<rparr>)
      | (True, w) \<Rightarrow>
          (case ps_flush sys (bw_inner w) of
             (ok, i) \<Rightarrow> (if ok then Ok () else Err PeFlush, p\<lparr>pk_writer := w\<lparr>bw_inner := i\<rparr>\<rparr>)))"

definition fs_on_file ::
    "('fd, 'i) pack_sys \<Rightarrow> bytes \<Rightarrow> nat \<Rightarrow> 'fd \<Rightarrow> 'i packer \<Rightarrow> ((unit, pe_error) result \<times> 'i packer) option" where
  "fs_on_file sys name sz fd p =
     (if sz < 2 ^ 32
      then (case st_seq (put (ps_write sys) [tag_byte TagFile])
                 (st_seq (put (ps_write sys) (name @ [0]))
                 (st_seq (put (ps_write sys) (to_le 4 (of_nat sz :: u32)))
                   (fs_flush sys))) p of
              (Err e, p') \<Rightarrow> Some (Err e, p')
            | (Ok _, p') \<Rightarrow>
                map_option (\<lambda>(r, i). (r, p'\<lparr>pk_writer := (pk_writer p')\<lparr>bw_inner := i\<rparr>\<rparr>))
                  (sendfile_all (ps_sendfile sys fd) sz (bw_inner (pk_writer p'))))
      else Some (Err PeWrite, p))"

definition fs_on_dir :: "('fd, 'i) pack_sys \<Rightarrow> bytes \<Rightarrow> 'i packing" where
  "fs_on_dir sys name = st_with (\<lambda>p.
     if MAX_DIR_DEPTH < pk_depth p then st_err PeDirTooDeep
     else st_seq (st_modify (\<lambda>p. p\<lparr>pk_depth := pk_depth p + 1\<rparr>))
          (st_seq (put (ps_write sys) [tag_byte TagDir])
            (put (ps_write sys) (name @ [0]))))"

definition fs_leave_dir :: "('fd, 'i) pack_sys \<Rightarrow> 'i packing" where
  "fs_leave_dir sys = st_with (\<lambda>p.
     if pk_depth p = 0 then st_err PeEmptyStack
     else st_seq (st_modify (\<lambda>p. p\<lparr>pk_depth := pk_depth p - 1\<rparr>)) (put (ps_write sys) [tag_byte TagPop]))"

definition fs_to_writer :: "('fd, 'i) pack_sys \<Rightarrow> ('fd, 'i packer) fs_visitor" where
  "fs_to_writer sys =
     \<lparr>fv_on_file = fs_on_file sys, fv_on_dir = fs_on_dir sys, fv_leave_dir = fs_leave_dir sys\<rparr>"

text \<open>The loop over the entries of a directory; a subdirectory is walked before the entries behind it.\<close>

partial_function (option) visit_dirc_rec ::
    "('fd, 'i) pack_sys \<Rightarrow> ('fd, 'v) fs_visitor \<Rightarrow> 'fd \<Rightarrow> (raw_dirent, unit) result list \<Rightarrow> 'v \<Rightarrow>
       ((unit, pe_error) result \<times> 'v) option" where
  "visit_dirc_rec sys V curdir entries v =
     (case entries of
        [] \<Rightarrow> Some (Ok (), v)
      | Err _ # _ \<Rightarrow> Some (Err PeGetdents, v)
      | Ok entry # es \<Rightarrow>
          (case rd_type entry of
             FkRegular \<Rightarrow>
               (case openat sys curdir (rd_name entry) of
                  Err e \<Rightarrow> Some (Err e, v)
                | Ok fd \<Rightarrow>
                    (case file_size sys fd of
                       Err e \<Rightarrow> Some (Err e, v)
                     | Ok sz \<Rightarrow>
                         Option.bind (fv_on_file V (rd_name entry) sz fd v) (\<lambda>(r, v').
                           case r of Err e \<Rightarrow> Some (Err e, v') | Ok _ \<Rightarrow> visit_dirc_rec sys V curdir es v')))
           | FkDirectory \<Rightarrow>
               if rd_name entry = dot_name \<or> rd_name entry = dotdot_name then visit_dirc_rec sys V curdir es v
               else (case opendirat sys curdir (rd_name entry) of
                       Err e \<Rightarrow> Some (Err e, v)
                     | Ok newdir \<Rightarrow>
                         (case fv_on_dir V (rd_name entry) v of
                            (Err _, v1) \<Rightarrow> Some (Err PeOnDir, v1)
                          | (Ok _, v1) \<Rightarrow>
                              Option.bind (visit_dirc_rec sys V newdir (ps_getdents sys newdir) v1) (\<lambda>(r, v2).
                                case r of
                                  Err e \<Rightarrow> Some (Err e, v2)
                                | Ok _ \<Rightarrow>
                                    (case fv_leave_dir V v2 of
                                       (Err _, v3) \<Rightarrow> Some (Err PeOnDir, v3)
                                     | (Ok _, v3) \<Rightarrow> visit_dirc_rec sys V curdir es v3))))
           | FkOther \<Rightarrow> visit_dirc_rec sys V curdir es v))"

definition visit_dirc ::
    "('fd, 'i) pack_sys \<Rightarrow> ('fd, 'v) fs_visitor \<Rightarrow> bytes \<Rightarrow> 'v \<Rightarrow> ((unit, pe_error) result \<times> 'v) option" where
  "visit_dirc sys V dir v =
     (case opendir sys dir of
        Err e \<Rightarrow> Some (Err e, v)
      | Ok dirfd \<Rightarrow> visit_dirc_rec sys V dirfd (ps_getdents sys dirfd) v)"

definition visit_dir ::
    "('fd, 'i) pack_sys \<Rightarrow> ('fd, 'v) fs_visitor \<Rightarrow> bytes \<Rightarrow> 'v \<Rightarrow> ((unit, pe_error) result \<times> 'v) option" where
  "visit_dir sys V dir v = (if 0 \<in> set dir then Some (Err PeBadCStr, v) else visit_dirc sys V dir v)"

definition pack_dir_to_writer :: "('fd, 'i) pack_sys \<Rightarrow> bytes \<Rightarrow> 'i \<Rightarrow> ('i, pe_error) result option" where
  "pack_dir_to_writer sys dir out =
     map_option (\<lambda>(r, p). bindr r (\<lambda>_. packer_into_inner (ps_write sys) p))
       (visit_dir sys (fs_to_writer sys) dir (packer_new out))"

definition pack_dir_to_file :: "('fd, 'i) pack_sys \<Rightarrow> bytes \<Rightarrow> 'i \<Rightarrow> ('i, pe_error) result option" where
  "pack_dir_to_file = pack_dir_to_writer"

section \<open>Reading\<close>

definition read_le_u32 :: "bytes \<Rightarrow> (u32 \<times> bytes, pe_error) result" where
  "read_le_u32 input =
     mapr (\<lambda>(int_bytes, rest). (of_nat (from_le int_bytes), rest)) (ok_or PeBadSize (split_at_checked 4 input))"

text \<open>The name without its terminating zero byte.\<close>

definition read_cstr :: "bytes \<Rightarrow> (bytes \<times> bytes, pe_error) result" where
  "read_cstr input =
     (if input = [] then Err PeBadName
      else if length input = 1 \<and> input ! 0 = 0 then Err PeBadName
      else case List.find (\<lambda>i. input ! i = 0) [1..<min (length input) (MAX_NAME_LEN + 1)] of
             Some i \<Rightarrow> Ok (take i input, drop (i + 1) input)
           | None \<Rightarrow> Err PeBadName)"

text \<open>A file message behind its tag: name, contents and the rest of the archive.\<close>

definition read_file :: "bytes \<Rightarrow> (bytes \<times> bytes \<times> bytes, pe_error) result" where
  "read_file cur =
     bindr (read_cstr cur) (\<lambda>(name, cur).
     bindr (read_le_u32 cur) (\<lambda>(len, cur).
       if length cur < unat len then Err PeArchiveTruncated
       else Ok (name, take (unat len) cur, drop (unat len) cur)))"

lemma read_cstr_shorter: "read_cstr cur = Ok (name, rest) \<Longrightarrow> length rest < length cur"
  by (auto simp: read_cstr_def split: if_splits option.splits)

lemma read_le_u32_shorter: "read_le_u32 cur = Ok (x, rest) \<Longrightarrow> length rest < length cur"
  by (auto simp: read_le_u32_def split_at_checked_def result_simps split: if_splits)

lemma read_file_shorter: "read_file cur = Ok (name, data, rest) \<Longrightarrow> length rest < length cur"
  by (fastforce simp: read_file_def result_simps dest: read_cstr_shorter read_le_u32_shorter split: if_splits)

section \<open>Unpacking to a visitor\<close>

definition path_pop :: "bytes \<Rightarrow> bytes" where
  "path_pop p = (case path_parent p of Some parent \<Rightarrow> parent | None \<Rightarrow> p)"

type_synonym 'v file_visitor = "bytes \<Rightarrow> bytes \<Rightarrow> 'v \<Rightarrow> bool \<times> 'v"

function unpack_visitor_loop ::
    "'v file_visitor \<Rightarrow> bytes \<Rightarrow> nat \<Rightarrow> bytes \<Rightarrow> 'v \<Rightarrow> (unit, pe_error) result \<times> 'v" where
  "unpack_visitor_loop V path depth cur v =
     (case cur of
        [] \<Rightarrow> (if depth = 0 then Ok () else Err PeArchiveTruncated, v)
      | b # cur \<Rightarrow>
          (case tag_of_byte b of
             Some TagFile \<Rightarrow>
               (case read_file cur of
                  Err e \<Rightarrow> (Err e, v)
                | Ok (name, data, cur) \<Rightarrow>
                    (let path = path_push path name
                     in case V path data v of
                          (False, v') \<Rightarrow> (Ok (), v')
                        | (True, v') \<Rightarrow> unpack_visitor_loop V (path_pop path) depth cur v'))
           | Some TagDir \<Rightarrow>
               (case read_cstr cur of
                  Err e \<Rightarrow> (Err e, v)
                | Ok (name, cur) \<Rightarrow> unpack_visitor_loop V (path_push path name) (depth + 1) cur v)
           | Some TagPop \<Rightarrow>
               if depth = 0 then (Err PeEmptyStack, v)
               else unpack_visitor_loop V (path_pop path) (depth - 1) cur v
           | None \<Rightarrow> (Err PeBadTag, v)))"
  by pat_completeness auto
termination
  by (relation "measure (\<lambda>(V, path, depth, cur, v). length cur)")
    (auto dest: read_file_shorter read_cstr_shorter)

declare unpack_visitor_loop.simps [simp del]

definition unpack_visitor :: "'v file_visitor \<Rightarrow> bytes \<Rightarrow> 'v \<Rightarrow> (unit, pe_error) result \<times> 'v" where
  "unpack_visitor V data v = unpack_visitor_loop V [] 0 data v"

text \<open>Keys that are paths compare by their components.\<close>

type_synonym hashmap = "path_component list \<rightharpoonup> bytes"

definition to_hashmap :: "hashmap file_visitor" where
  "to_hashmap path data m = (True, m(path_components path \<mapsto> data))"

definition unpack_to_hashmap :: "bytes \<Rightarrow> (hashmap, pe_error) result" where
  "unpack_to_hashmap data =
     (case unpack_visitor to_hashmap data Map.empty of (r, m) \<Rightarrow> mapr (\<lambda>_. m) r)"

text \<open>A file is mapped into memory first, which may fail.\<close>

definition unpack_file_to_hashmap :: "bytes option \<Rightarrow> (hashmap, pe_error) result" where
  "unpack_file_to_hashmap mmap = bindr (ok_or PeMmap mmap) unpack_to_hashmap"

section \<open>Unpacking to a directory\<close>

record ('fd, 'k) unpack_sys =
  us_openat2 :: "'fd \<Rightarrow> bytes \<Rightarrow> open_how \<Rightarrow> 'k \<Rightarrow> ('fd, int) result \<times> 'k"
  us_mkdirat :: "'fd \<Rightarrow> bytes \<Rightarrow> u32 \<Rightarrow> 'k \<Rightarrow> (unit, int) result \<times> 'k"
  us_write_all :: "'fd \<Rightarrow> bytes \<Rightarrow> 'k \<Rightarrow> bool \<times> 'k"

definition openat_w :: "('fd, 'k) unpack_sys \<Rightarrow> 'fd \<Rightarrow> bytes \<Rightarrow> ('fd, pe_error, 'k) st" where
  "openat_w sys fd name =
     st_map_err PeOpenAt
       (us_openat2 sys fd name \<lparr>oh_flags = [OWronly, OCreate, OCloexec], oh_mode = FILE_MODE, oh_beneath = True\<rparr>)"

definition openpathat :: "('fd, 'k) unpack_sys \<Rightarrow> 'fd \<Rightarrow> bytes \<Rightarrow> ('fd, pe_error, 'k) st" where
  "openpathat sys fd name =
     st_map_err PeOpenAt
       (us_openat2 sys fd name \<lparr>oh_flags = [OPath, ODirectory, OCloexec], oh_mode = 0, oh_beneath = True\<rparr>)"

definition mkdirat :: "('fd, 'k) unpack_sys \<Rightarrow> 'fd \<Rightarrow> bytes \<Rightarrow> (unit, pe_error, 'k) st" where
  "mkdirat sys fd name = st_map_err PeMkdirAt (us_mkdirat sys fd name MKDIR_MODE)"

definition write_file :: "('fd, 'k) unpack_sys \<Rightarrow> 'fd \<Rightarrow> bytes \<Rightarrow> (unit, pe_error, 'k) st" where
  "write_file sys fd data k = (case us_write_all sys fd data k of (ok, k') \<Rightarrow> (if ok then Ok () else Err PeWrite, k'))"

text \<open>The stack has its top first.\<close>

function unpack_loop ::
    "('fd, 'k) unpack_sys \<Rightarrow> 'fd list \<Rightarrow> bytes \<Rightarrow> 'k \<Rightarrow> (unit, pe_error) result \<times> 'k" where
  "unpack_loop sys stack cur k =
     (case cur of
        [] \<Rightarrow> (if length stack = 1 then Ok () else Err PeArchiveTruncated, k)
      | b # cur \<Rightarrow>
          (case tag_of_byte b of
             Some TagFile \<Rightarrow>
               (case stack of
                  [] \<Rightarrow> (Err PeStackEmpty, k)
                | parent # _ \<Rightarrow>
                    (case read_file cur of
                       Err e \<Rightarrow> (Err e, k)
                     | Ok (name, data, cur) \<Rightarrow>
                         (case st_bind (openat_w sys parent name) (\<lambda>fd. write_file sys fd data) k of
                            (Err e, k') \<Rightarrow> (Err e, k')
                          | (Ok _, k') \<Rightarrow> unpack_loop sys stack cur k')))
           | Some TagDir \<Rightarrow>
               (case stack of
                  [] \<Rightarrow> (Err PeStackEmpty, k)
                | parent # _ \<Rightarrow>
                    (case read_cstr cur of
                       Err e \<Rightarrow> (Err e, k)
                     | Ok (name, cur) \<Rightarrow>
                         (case mkdirat sys parent name k of
                            (Err e, k') \<Rightarrow> (Err e, k')
                          | (Ok _, k') \<Rightarrow>
                              (case cur of
                                 [] \<Rightarrow> unpack_loop sys stack cur k'
                               | c # rest \<Rightarrow>
                                   (case tag_of_byte c of
                                      Some TagPop \<Rightarrow> unpack_loop sys stack rest k'
                                    | Some _ \<Rightarrow>
                                        (case openpathat sys parent name k' of
                                           (Err e, k'') \<Rightarrow> (Err e, k'')
                                         | (Ok fd, k'') \<Rightarrow> unpack_loop sys (fd # stack) cur k'')
                                    | None \<Rightarrow> unpack_loop sys stack cur k')))))
           | Some TagPop \<Rightarrow>
               (case stack of [] \<Rightarrow> (Err PeEmptyStack, k) | _ # below \<Rightarrow> unpack_loop sys below cur k)
           | None \<Rightarrow> (Err PeBadTag, k)))"
  by pat_completeness auto
termination
  by (relation "measure (\<lambda>(sys, stack, cur, k). length cur)")
    (auto dest!: read_file_shorter read_cstr_shorter)

declare unpack_loop.simps [simp del]

definition unpack_to_dir :: "('fd, 'k) unpack_sys \<Rightarrow> bytes \<Rightarrow> 'fd \<Rightarrow> 'k \<Rightarrow> (unit, pe_error) result \<times> 'k" where
  "unpack_to_dir sys data starting_dir k = unpack_loop sys [starting_dir] data k"

section \<open>Entering the sandbox\<close>

text \<open>\<open>None\<close> as the directory is the current one; files below \<open>/proc\<close> are written with \<open>fs::write\<close>.\<close>

record ('fd, 'k) sandbox_sys = "('fd, 'k) unpack_sys" +
  sb_euid :: nat
  sb_egid :: nat
  sb_unshare_newuser :: "'k \<Rightarrow> bool \<times> 'k"
  sb_write_path :: "bytes \<Rightarrow> bytes \<Rightarrow> 'k \<Rightarrow> bool \<times> 'k"
  sb_chroot :: "bytes \<Rightarrow> 'k \<Rightarrow> bool \<times> 'k"
  sb_chdir :: "bytes \<Rightarrow> 'k \<Rightarrow> bool \<times> 'k"
  sb_cwd :: 'fd

definition st_check :: "'e \<Rightarrow> ('k \<Rightarrow> bool \<times> 'k) \<Rightarrow> (unit, 'e, 'k) st" where
  "st_check e call k = (case call k of (ok, k') \<Rightarrow> (if ok then Ok () else Err e, k'))"

definition unshare_user :: "('fd, 'k) sandbox_sys \<Rightarrow> (unit, pe_error, 'k) st" where
  "unshare_user sys =
     st_seq (st_check PeUnshare (sb_unshare_newuser sys))
     (st_seq (st_check PeWrite (sb_write_path sys (ascii ''/proc/self/uid_map'')
         (ascii ''0 '' @ decimal (sb_euid sys) @ ascii '' 1'')))
     (st_seq (st_check PeWrite (sb_write_path sys (ascii ''/proc/self/setgroups'') (ascii ''deny'')))
       (st_check PeWrite (sb_write_path sys (ascii ''/proc/self/gid_map'')
         (ascii ''0 '' @ decimal (sb_egid sys) @ ascii '' 1'')))))"

definition chroot :: "('fd, 'k) sandbox_sys \<Rightarrow> bytes \<Rightarrow> (unit, pe_error, 'k) st" where
  "chroot sys dir =
     st_seq (st_check PeChroot (sb_chroot sys dir)) (st_check PeChdir (sb_chdir sys [slash]))"

definition opendirat_cwd :: "('fd, 'k) sandbox_sys \<Rightarrow> bytes \<Rightarrow> ('fd, pe_error, 'k) st" where
  "opendirat_cwd sys name =
     st_map_err PeOpenAt
       (us_openat2 sys (sb_cwd sys) name
          \<lparr>oh_flags = [ORdonly, ODirectory, OCloexec], oh_mode = 0, oh_beneath = True\<rparr>)"

definition unpack_data_to_dir_with_unshare_chroot ::
    "('fd, 'k) sandbox_sys \<Rightarrow> bytes \<Rightarrow> bytes \<Rightarrow> (unit, pe_error, 'k) st" where
  "unpack_data_to_dir_with_unshare_chroot sys data dir =
     st_seq (unshare_user sys)
     (st_seq (chroot sys dir)
     (st_bind (opendirat_cwd sys dot_name) (\<lambda>starting_dir.
       unpack_to_dir (unpack_sys.truncate sys) data starting_dir)))"

definition unpack_file_to_dir_with_unshare_chroot ::
    "('fd, 'k) sandbox_sys \<Rightarrow> bytes option \<Rightarrow> bytes \<Rightarrow> (unit, pe_error, 'k) st" where
  "unpack_file_to_dir_with_unshare_chroot sys mmap dir =
     st_bind (st_lift (ok_or PeMmap mmap)) (\<lambda>data. unpack_data_to_dir_with_unshare_chroot sys data dir)"

end
