(* ===== verification/Pearchive_Props.thy ===== *)
theory Pearchive_Props
  imports Pearchive
begin

text \<open>
  What packing and unpacking promise: the bytes of a tree of files, that both packers write them, that
  unpacking such bytes is a walk over the tree, and the loops that may or may not end.
\<close>

section \<open>Trees and their bytes\<close>

datatype node = FileN bytes bytes | DirN bytes "node list"

fun enc_node :: "node \<Rightarrow> bytes" where
  "enc_node (FileN name data) = 1 # name @ 0 # to_le 4 (of_nat (length data) :: u32) @ data"
| "enc_node (DirN name children) = 2 # name @ 0 # concat (map enc_node children) @ [3]"

abbreviation enc_nodes :: "node list \<Rightarrow> bytes" where
  "enc_nodes ns \<equiv> concat (map enc_node ns)"

definition archive_name :: "bytes \<Rightarrow> bool" where
  "archive_name n \<longleftrightarrow> n \<noteq> [] \<and> length n \<le> MAX_NAME_LEN \<and> 0 \<notin> set n"

fun ok_node :: "node \<Rightarrow> bool" where
  "ok_node (FileN name data) \<longleftrightarrow> archive_name name \<and> length data < 2 ^ 32"
| "ok_node (DirN name children) \<longleftrightarrow> archive_name name \<and> list_all ok_node children"

fun node_depth :: "node \<Rightarrow> nat" where
  "node_depth (FileN name data) = 0"
| "node_depth (DirN name children) = Suc (fold max (map node_depth children) 0)"

section \<open>Reading back\<close>

lemma find_upt_first:
  assumes "a \<le> j" and "j < b" and "P j" and "\<And>i. a \<le> i \<Longrightarrow> i < j \<Longrightarrow> \<not> P i"
  shows "List.find P [a..<b] = Some j"
  using assms by (induction "j - a" arbitrary: a) (auto simp: upt_conv_Cons find_Some_iff2)

lemma find_upt_Some:
  assumes "List.find P [a..<b] = Some i"
  shows "a \<le> i \<and> i < b \<and> P i \<and> (\<forall>j. a \<le> j \<and> j < i \<longrightarrow> \<not> P j)"
proof -
  from assms obtain k where k: "k < b - a" "P ([a..<b] ! k)" "i = [a..<b] ! k" "\<forall>j < k. \<not> P ([a..<b] ! j)"
    by (auto simp: find_Some_iff)
  then have "i = a + k" by simp
  moreover have "\<not> P j" if "a \<le> j" "j < i" for j
    using k(1) k(4)[rule_format, of "j - a"] that \<open>i = a + k\<close> by simp
  ultimately show ?thesis using k by auto
qed

lemma read_cstr_accepts:
  assumes "name \<noteq> []" and "length name \<le> MAX_NAME_LEN" and "0 \<notin> set (tl name)"
  shows "read_cstr (name @ 0 # rest) = Ok (name, rest)"
proof -
  let ?input = "name @ 0 # rest"
  have "\<not> ?input ! i = 0" if "1 \<le> i" "i < length name" for i
  proof -
    have "name ! i = tl name ! (i - 1)" using that by (cases name) auto
    moreover have "tl name ! (i - 1) \<in> set (tl name)" using that by (intro nth_mem) auto
    ultimately show ?thesis using assms(3) that by (metis nth_append)
  qed
  moreover have "1 \<le> length name" using assms(1) by (cases name) auto
  ultimately have "List.find (\<lambda>i. ?input ! i = 0) [1..<min (length ?input) (MAX_NAME_LEN + 1)] = Some (length name)"
    using assms(2) by (intro find_upt_first) (auto simp: nth_append)
  with assms(1) show ?thesis by (auto simp: read_cstr_def)
qed

lemma read_cstr_name: "archive_name name \<Longrightarrow> read_cstr (name @ 0 # rest) = Ok (name, rest)"
  by (rule read_cstr_accepts) (auto simp: archive_name_def dest: list.set_sel(2)[rotated])

lemma read_le_u32_to_le: "read_le_u32 (to_le 4 (x :: u32) @ rest) = Ok (x, rest)"
  by (simp add: read_le_u32_def split_at_checked_def from_le_to_le_exact)

lemma read_file_message:
  assumes "archive_name name" and "length data < 2 ^ 32"
  shows "read_file (name @ 0 # to_le 4 (of_nat (length data) :: u32) @ data @ rest) = Ok (name, data, rest)"
  using assms(2) by (simp add: read_file_def read_cstr_name[OF assms(1)] read_le_u32_to_le unat_of_nat_less)

lemma tag_of_byte_simps [simp]:
  "tag_of_byte 1 = Some TagFile" "tag_of_byte 2 = Some TagDir" "tag_of_byte 3 = Some TagPop"
  by (simp_all add: tag_of_byte_def)

text \<open>Unpacking to a directory as a walk over the tree that issues the same calls.\<close>

fun make_node :: "('fd, 'k) unpack_sys \<Rightarrow> 'fd \<Rightarrow> node \<Rightarrow> (unit, pe_error, 'k) st"
and make_nodes :: "('fd, 'k) unpack_sys \<Rightarrow> 'fd \<Rightarrow> node list \<Rightarrow> (unit, pe_error, 'k) st" where
  "make_node sys parent (FileN name data) =
     st_bind (openat_w sys parent name) (\<lambda>fd. write_file sys fd data)"
| "make_node sys parent (DirN name children) =
     st_seq (mkdirat sys parent name)
       (if children = [] then st_ok ()
        else st_bind (openpathat sys parent name) (\<lambda>fd. make_nodes sys fd children))"
| "make_nodes sys parent [] = st_ok ()"
| "make_nodes sys parent (n # ns) = st_seq (make_node sys parent n) (make_nodes sys parent ns)"

lemma unpack_loop_nodes:
  "ok_node n \<Longrightarrow> unpack_loop sys (fd # stack) (enc_node n @ rest) k =
     (case make_node sys fd n k of
        (Err e, k') \<Rightarrow> (Err e, k') | (Ok _, k') \<Rightarrow> unpack_loop sys (fd # stack) rest k')"
  "list_all ok_node ns \<Longrightarrow> unpack_loop sys (fd # stack) (enc_nodes ns @ rest) k =
     (case make_nodes sys fd ns k of
        (Err e, k') \<Rightarrow> (Err e, k') | (Ok _, k') \<Rightarrow> unpack_loop sys (fd # stack) rest k')"
proof (induction sys fd n and sys fd ns arbitrary: stack rest k and stack rest k rule: make_node_make_nodes.induct)
  case (1 sys parent name data)
  then show ?case
    by (subst unpack_loop.simps) (simp add: read_file_message)
next
  case (2 sys parent name children)
  then have name: "archive_name name" by simp
  show ?case
  proof (cases children)
    case Nil
    then show ?thesis
      by (subst unpack_loop.simps)
        (simp add: read_cstr_name[OF name] st_run st_seq_def st_bind_def split: prod.split result.split)
  next
    case (Cons c cs)
    obtain t tl where head: "enc_nodes children @ 3 # rest = t # tl" "tag_of_byte t = Some TagFile \<or> tag_of_byte t = Some TagDir"
      using Cons by (cases c) auto
    have pop: "unpack_loop sys (fd # parent # stack) (3 # rest) k' = unpack_loop sys (parent # stack) rest k'" for fd k'
      by (subst unpack_loop.simps) simp
    have "unpack_loop sys (parent # stack) (enc_node (DirN name children) @ rest) k =
        (case mkdirat sys parent name k of (Err e, k') \<Rightarrow> (Err e, k') | (Ok _, k') \<Rightarrow>
          (case openpathat sys parent name k' of (Err e, k'') \<Rightarrow> (Err e, k'')
           | (Ok fd, k'') \<Rightarrow> unpack_loop sys (fd # parent # stack) (enc_nodes children @ 3 # rest) k''))"
      using head by (subst unpack_loop.simps) (auto simp: read_cstr_name[OF name] split: prod.split result.split)
    also have "\<dots> = (case make_node sys parent (DirN name children) k of
        (Err e, k') \<Rightarrow> (Err e, k') | (Ok _, k') \<Rightarrow> unpack_loop sys (parent # stack) rest k')"
      using 2 Cons by (auto simp: pop st_seq_def st_bind_def split: prod.split result.split)
    finally show ?thesis .
  qed
next
  case (3 sys parent)
  then show ?case by (simp add: st_run)
next
  case (4 sys parent n ns)
  then show ?case by (simp add: st_seq_def st_bind_def split: prod.splits result.splits)
qed

text \<open>Unpacking to a visitor as a walk that may stop early.\<close>

fun visit_node :: "'v file_visitor \<Rightarrow> bytes list \<Rightarrow> node \<Rightarrow> 'v \<Rightarrow> bool \<times> 'v"
and visit_nodes :: "'v file_visitor \<Rightarrow> bytes list \<Rightarrow> node list \<Rightarrow> 'v \<Rightarrow> bool \<times> 'v" where
  "visit_node V dir (FileN name data) v = V (join_names (dir @ [name])) data v"
| "visit_node V dir (DirN name children) v = visit_nodes V (dir @ [name]) children v"
| "visit_nodes V dir [] v = (True, v)"
| "visit_nodes V dir (n # ns) v =
     (case visit_node V dir n v of (True, v') \<Rightarrow> visit_nodes V dir ns v' | (False, v') \<Rightarrow> (False, v'))"

fun path_names :: "node \<Rightarrow> bool" where
  "path_names (FileN name data) \<longleftrightarrow> normal_name name"
| "path_names (DirN name children) \<longleftrightarrow> normal_name name \<and> list_all path_names children"

lemma path_push_join:
  assumes "\<forall>x \<in> set (ns @ [n]). normal_name x"
  shows "path_push (join_names ns) n = join_names (ns @ [n])"
proof (cases "ns = []")
  case True
  have "\<not> has_root n" using assms by (cases n) (auto simp: has_root_def normal_name_def)
  with True show ?thesis by (simp add: path_push_def)
next
  case False
  have "\<not> has_root n" using assms by (cases n) (auto simp: has_root_def normal_name_def)
  moreover have "join_names ns \<noteq> []" "last (join_names ns) \<noteq> slash"
    using join_names_no_trailing_slash[of ns] join_names_hd[of ns] assms False
    by (auto simp: ends_with_slash_def normal_name_def)
  ultimately show ?thesis using False by (simp add: path_push_def join_names_snoc)
qed

lemma path_pop_join: "\<forall>x \<in> set (ns @ [n]). normal_name x \<Longrightarrow> path_pop (join_names (ns @ [n])) = join_names ns"
  by (simp only: path_pop_def path_parent_join option.case)

lemma unpack_visitor_nodes:
  "ok_node n \<Longrightarrow> path_names n \<Longrightarrow> list_all normal_name dir \<Longrightarrow>
     unpack_visitor_loop V (join_names dir) depth (enc_node n @ rest) v =
       (case visit_node V dir n v of
          (False, v') \<Rightarrow> (Ok (), v') | (True, v') \<Rightarrow> unpack_visitor_loop V (join_names dir) depth rest v')"
  "list_all ok_node ns \<Longrightarrow> list_all path_names ns \<Longrightarrow> list_all normal_name dir \<Longrightarrow>
     unpack_visitor_loop V (join_names dir) depth (enc_nodes ns @ rest) v =
       (case visit_nodes V dir ns v of
          (False, v') \<Rightarrow> (Ok (), v') | (True, v') \<Rightarrow> unpack_visitor_loop V (join_names dir) depth rest v')"
proof (induction V dir n v and V dir ns v arbitrary: depth rest and depth rest rule: visit_node_visit_nodes.induct)
  case (1 V dir name data v)
  have "\<forall>x \<in> set (dir @ [name]). normal_name x" using 1 by (auto simp: list_all_iff)
  then show ?case
    using 1 by (subst unpack_visitor_loop.simps)
      (simp add: read_file_message path_push_join path_pop_join Let_def split: prod.split bool.split)
next
  case (2 V dir name children v)
  have names: "\<forall>x \<in> set (dir @ [name]). normal_name x" using 2 by (auto simp: list_all_iff)
  have pop: "unpack_visitor_loop V (join_names (dir @ [name])) (Suc depth) (3 # rest) v' =
      unpack_visitor_loop V (join_names dir) depth rest v'" for v'
    by (subst unpack_visitor_loop.simps) (simp add: path_pop_join[OF names])
  have "unpack_visitor_loop V (join_names dir) depth (enc_node (DirN name children) @ rest) v =
      unpack_visitor_loop V (join_names (dir @ [name])) (Suc depth) (enc_nodes children @ 3 # rest) v"
    using 2 by (subst unpack_visitor_loop.simps) (simp add: read_cstr_name path_push_join[OF names])
  also have "\<dots> = (case visit_node V dir (DirN name children) v of
      (False, v') \<Rightarrow> (Ok (), v') | (True, v') \<Rightarrow> unpack_visitor_loop V (join_names dir) depth rest v')"
    using 2 by (simp add: pop split: prod.split bool.split)
  finally show ?case .
next
  case (3 V dir v)
  then show ?case by simp
next
  case (4 V dir n ns v)
  then show ?case by (simp split: prod.split bool.split)
qed

text \<open>The files of a tree with the names leading to them, in the order of the archive.\<close>

fun files_of :: "bytes list \<Rightarrow> node \<Rightarrow> (path_component list \<times> bytes) list" where
  "files_of dir (FileN name data) = [(map Normal (dir @ [name]), data)]"
| "files_of dir (DirN name children) = concat (map (files_of (dir @ [name])) children)"

lemma visit_hashmap:
  "path_names n \<Longrightarrow> list_all normal_name dir \<Longrightarrow>
     visit_node to_hashmap dir n m = (True, m ++ map_of (rev (files_of dir n)))"
  "list_all path_names ns \<Longrightarrow> list_all normal_name dir \<Longrightarrow>
     visit_nodes to_hashmap dir ns m = (True, m ++ map_of (rev (concat (map (files_of dir) ns))))"
proof (induction "to_hashmap" dir n m and "to_hashmap" dir ns m rule: visit_node_visit_nodes.induct)
  case (1 dir name data m)
  then have "path_components (join_names (dir @ [name])) = map Normal (dir @ [name])"
    by (intro path_components_join) (auto simp: list_all_iff)
  then show ?case by (simp add: to_hashmap_def)
next
  case (4 dir n ns m)
  then show ?case by simp
qed simp_all

section \<open>Writing\<close>

fun pack_node :: "'i inner_write \<Rightarrow> node \<Rightarrow> 'i packing"
and pack_nodes :: "'i inner_write \<Rightarrow> node list \<Rightarrow> 'i packing" where
  "pack_node iw (FileN name data) = mem_file iw name data"
| "pack_node iw (DirN name children) = st_seq (mem_dir iw name) (st_seq (pack_nodes iw children) (mem_pop iw))"
| "pack_nodes iw [] = st_ok ()"
| "pack_nodes iw (n # ns) = st_seq (pack_node iw n) (pack_nodes iw ns)"

lemma fold_max_bound: "x \<in> insert a (set xs) \<Longrightarrow> x \<le> fold max xs (a :: nat)"
proof (induction xs arbitrary: a x)
  case (Cons y ys)
  have "max y a \<le> fold max ys (max y a)" using Cons.IH by blast
  moreover have "x \<le> fold max ys (max y a)" if "x \<in> set ys" using Cons.IH that by blast
  ultimately show ?case using Cons.prems by auto
qed simp

context reliable_sink
begin

text \<open>A step of a packer that succeeds at the depths of \<open>G\<close>, appends bytes and changes the depth.\<close>

abbreviation ready :: "'a packer \<Rightarrow> bool" where
  "ready p \<equiv> inv (bw_inner (pk_writer p))"

abbreviation packed :: "'a packer \<Rightarrow> bytes" where
  "packed p \<equiv> accepted_bytes (pk_writer p)"

definition emits :: "'a packing \<Rightarrow> bytes \<Rightarrow> (nat \<Rightarrow> nat) \<Rightarrow> (nat \<Rightarrow> bool) \<Rightarrow> bool" where
  "emits m bs f G \<longleftrightarrow>
     (\<forall>p. ready p \<and> G (pk_depth p) \<longrightarrow>
        (\<exists>p'. m p = (Ok (), p') \<and> ready p' \<and> packed p' = packed p @ bs \<and> pk_depth p' = f (pk_depth p)))"

lemma emits_put: "emits (put iw bs) bs (\<lambda>d. d) G"
  unfolding emits_def put_def
proof (intro allI impI, elim conjE)
  fix p :: "'a packer"
  assume "ready p"
  from write_ok[OF this, of bs] obtain w where "bw_write_all iw bs (pk_writer p) = (True, w)" "inv (bw_inner w)"
    "accepted_bytes w = packed p @ bs" by blast
  then show "\<exists>p'. (case bw_write_all iw bs (pk_writer p) of
      (ok, w) \<Rightarrow> (if ok then Ok () else Err PeWrite, p\<lparr>pk_writer := w\<rparr>)) = (Ok (), p') \<and>
      ready p' \<and> packed p' = packed p @ bs \<and> pk_depth p' = pk_depth p" by simp
qed

lemma emits_ok: "emits (st_ok ()) [] (\<lambda>d. d) G"
  by (simp add: emits_def st_run)

lemma emits_depth: "emits (st_modify (\<lambda>p. p\<lparr>pk_depth := f (pk_depth p)\<rparr>)) [] f G"
  by (simp add: emits_def st_run)

lemma emits_guard: "emits m bs f G \<Longrightarrow> (\<And>d. G d \<Longrightarrow> \<not> c d) \<Longrightarrow>
    emits (st_with (\<lambda>p. if c (pk_depth p) then st_err e else m)) bs f G"
  by (simp add: emits_def st_run)

lemma emits_seq:
  assumes "emits m a f G" and "emits n b g H" and "bs = a @ b" and "h = (\<lambda>d. g (f d))" and "\<And>d. G d \<Longrightarrow> H (f d)"
  shows "emits (st_seq m n) bs h G"
  unfolding emits_def
proof (intro allI impI, elim conjE)
  fix p
  assume p: "ready p" "G (pk_depth p)"
  from assms(1) p obtain p1 where p1: "m p = (Ok (), p1)" "ready p1" "packed p1 = packed p @ a" "pk_depth p1 = f (pk_depth p)"
    unfolding emits_def by blast
  with assms(2,5) p obtain p2 where "n p1 = (Ok (), p2)" "ready p2" "packed p2 = packed p1 @ b" "pk_depth p2 = g (pk_depth p1)"
    unfolding emits_def by metis
  with p1 assms(3,4) show "\<exists>p'. st_seq m n p = (Ok (), p') \<and> ready p' \<and> packed p' = packed p @ bs \<and> pk_depth p' = h (pk_depth p)"
    by (simp add: st_seq_step[of m p "()" p1])
qed

lemmas emits_then = emits_seq[OF emits_put, where h = "\<lambda>d. d" and g = "\<lambda>d. d"]

lemma emits_file: "length data < 2 ^ 32 \<Longrightarrow> emits (mem_file iw name data) (enc_node (FileN name data)) (\<lambda>d. d) G"
  unfolding mem_file_def
  by (simp, rule emits_then, rule emits_then, rule emits_then, rule emits_then, rule emits_put) auto

lemma emits_dir: "emits (mem_dir iw name) (2 # name @ [0]) Suc (\<lambda>d. d \<le> MAX_DIR_DEPTH)"
  unfolding mem_dir_def
  by (rule emits_guard, rule emits_seq[OF emits_depth], rule emits_then, rule emits_then, rule emits_put) auto

lemma emits_pop: "emits (mem_pop iw) [3] (\<lambda>d. d - 1) (\<lambda>d. 0 < d)"
  unfolding mem_pop_def
  by (rule emits_guard, rule emits_seq[OF emits_depth], rule emits_put) auto

lemma emits_mono: "emits m bs f G \<Longrightarrow> (\<And>d. H d \<Longrightarrow> G d) \<Longrightarrow> emits m bs f H"
  by (simp add: emits_def)

lemma emits_all:
  "(\<And>n. n \<in> set ns \<Longrightarrow> emits (pack_node iw n) (enc_node n) (\<lambda>d. d) G) \<Longrightarrow>
     emits (pack_nodes iw ns) (enc_nodes ns) (\<lambda>d. d) G"
proof (induction ns)
  case (Cons n ns)
  have "emits (st_seq (pack_node iw n) (pack_nodes iw ns)) (enc_nodes (n # ns)) (\<lambda>d. d) G"
    by (rule emits_seq[where f = "\<lambda>d. d" and g = "\<lambda>d. d" and H = G]) (use Cons in auto)
  then show ?case by simp
qed (simp add: emits_ok)

lemma emits_node:
  "ok_node n \<Longrightarrow> emits (pack_node iw n) (enc_node n) (\<lambda>d. d) (\<lambda>d. d + node_depth n \<le> MAX_DIR_DEPTH + 1)"
proof (induction n)
  case (FileN name data)
  then show ?case using emits_file by simp
next
  case (DirN name children)
  let ?G = "\<lambda>d. 0 < d \<and> d + fold max (map node_depth children) 0 \<le> MAX_DIR_DEPTH + 1"
  have "emits (pack_node iw c) (enc_node c) (\<lambda>d. d) ?G" if "c \<in> set children" for c
    using DirN that fold_max_bound[of "node_depth c" 0 "map node_depth children"]
    by (intro emits_mono[OF DirN.IH]) (auto simp: list_all_iff)
  from emits_seq[OF emits_all[OF this] emits_pop refl refl]
  have rest: "emits (st_seq (pack_nodes iw children) (mem_pop iw)) (enc_nodes children @ [3]) (\<lambda>d. d - 1) ?G" by simp
  have "emits (st_seq (mem_dir iw name) (st_seq (pack_nodes iw children) (mem_pop iw))) (enc_node (DirN name children))
      (\<lambda>d. d) (\<lambda>d. d + node_depth (DirN name children) \<le> MAX_DIR_DEPTH + 1)"
    by (rule emits_seq[OF emits_mono[OF emits_dir] rest]) auto
  then show ?case by simp
qed

end

end
