(* ===== verification/Pearchive_Correct.thy ===== *)
theory Pearchive_Correct
  imports Pearchive_Props
begin

text \<open>
  The properties of packing and unpacking.
\<close>

section \<open>Archives of trees\<close>

lemma vec_packs:
  assumes "list_all ok_node ts" and "list_all (\<lambda>t. node_depth t \<le> MAX_DIR_DEPTH + 1) ts"
  shows "\<exists>p. pack_nodes vec_write ts pack_vec_new = (Ok (), p) \<and> pack_into_vec p = Ok (enc_nodes ts)"
proof -
  have "vec.emits (pack_nodes vec_write ts) (enc_nodes ts) (\<lambda>d. d) (\<lambda>d. d = 0)"
    using vec.emits_node assms by (intro vec.emits_all vec.emits_mono[OF vec.emits_node]) (auto simp: list_all_iff)
  then obtain p where p: "pack_nodes vec_write ts pack_vec_new = (Ok (), p)"
      "w_pos (bw_inner (pk_writer p)) = length (w_data (bw_inner (pk_writer p)))" "vec.accepted_bytes (pk_writer p) = enc_nodes ts"
    unfolding vec.emits_def by (force simp: pack_vec_new_def packer_new_def bw_new_def vec.accepted_bytes_def)
  then show ?thesis using vec.flush_ok[OF p(2)] by (auto simp: pack_into_vec_def packer_into_inner_def)
qed

lemma unpack_encoded:
  assumes "list_all ok_node ts" and "list_all path_names ts"
  shows "unpack_to_hashmap (enc_nodes ts) = Ok (map_of (rev (concat (map (files_of []) ts))))"
proof -
  have "unpack_visitor_loop to_hashmap (join_names []) 0 (enc_nodes ts @ []) Map.empty =
      unpack_visitor_loop to_hashmap (join_names []) 0 [] (map_of (rev (concat (map (files_of []) ts))))"
    using unpack_visitor_nodes(2)[OF assms, of "[]" to_hashmap 0 "[]" Map.empty] visit_hashmap(2)[OF assms(2), of "[]"]
    by simp
  then show ?thesis by (simp add: unpack_to_hashmap_def unpack_visitor_def unpack_visitor_loop.simps)
qed

text \<open>
  (C13) Round trip: a tree of files within the limits of the format is packed into a vector, and
  unpacking the vector yields exactly its files under the paths that lead to them; of two files with
  the same path the later one wins.
\<close>

theorem pack_roundtrip:
  assumes "list_all ok_node ts" and "list_all path_names ts" and "list_all (\<lambda>t. node_depth t \<le> MAX_DIR_DEPTH + 1) ts"
  shows "\<exists>p v. pack_nodes vec_write ts pack_vec_new = (Ok (), p) \<and> pack_into_vec p = Ok v \<and>
    unpack_to_hashmap v = Ok (map_of (rev (concat (map (files_of []) ts))))"
  using vec_packs[OF assms(1,3)] unpack_encoded[OF assms(1,2)] by blast

text \<open>
  (C16) Unpacking a packed tree to a directory makes exactly the system calls of a walk over the tree:
  one \<open>mkdirat\<close> per directory, an open and a write per file, below the descriptor of its parent; and it
  ends with their first error, or with success.
\<close>

theorem unpack_to_dir_walks:
  assumes "list_all ok_node ts"
  shows "unpack_to_dir sys (enc_nodes ts) fd k = make_nodes sys fd ts k"
  using unpack_loop_nodes(2)[OF assms, of sys fd "[]" "[]" k]
  by (auto simp: unpack_to_dir_def unpack_loop.simps split: prod.splits result.splits)

text \<open>
  (C37) Names read from an archive: \<open>read_cstr\<close> accepts only names of 1 to 255 bytes that are followed by
  a zero byte and contain none behind their first byte; what it leaves is the rest of the input.
\<close>

theorem read_cstr_exact:
  "read_cstr input = Ok (name, rest) \<longleftrightarrow>
     input = name @ 0 # rest \<and> name \<noteq> [] \<and> length name \<le> 255 \<and> 0 \<notin> set (tl name)"
proof
  assume "read_cstr input = Ok (name, rest)"
  then obtain i where i: "List.find (\<lambda>i. input ! i = 0) [1..<min (length input) (MAX_NAME_LEN + 1)] = Some i"
      "name = take i input" "rest = drop (i + 1) input"
    by (auto simp: read_cstr_def split: if_splits option.splits)
  from i(1) have "1 \<le> i" "i < length input" "i \<le> 255" "input ! i = 0"
    and before: "\<forall>j. 1 \<le> j \<and> j < i \<longrightarrow> input ! j \<noteq> 0"
    using find_upt_Some[OF i(1)] by (auto simp: MAX_NAME_LEN_def)
  have "input = name @ 0 # rest" using id_take_nth_drop[OF \<open>i < length input\<close>] i(2,3) \<open>input ! i = 0\<close> by simp
  moreover have "0 \<notin> set (tl name)"
    using before \<open>i < length input\<close> i(2) by (auto simp: in_set_conv_nth nth_tl)
  ultimately show "input = name @ 0 # rest \<and> name \<noteq> [] \<and> length name \<le> 255 \<and> 0 \<notin> set (tl name)"
    using i(2) \<open>1 \<le> i\<close> \<open>i < length input\<close> \<open>i \<le> 255\<close> by auto
next
  assume "input = name @ 0 # rest \<and> name \<noteq> [] \<and> length name \<le> 255 \<and> 0 \<notin> set (tl name)"
  then show "read_cstr input = Ok (name, rest)" using read_cstr_accepts[of name rest] by (simp add: MAX_NAME_LEN_def)
qed

text \<open>
  A leading zero byte is accepted as part of a name although it ends the name for the system.
\<close>

lemma leading_nul_accepted:
  "read_cstr (0 # ascii ''foo'' @ [0]) = Ok (0 # ascii ''foo'', [])"
  using read_cstr_accepts[of "0 # ascii ''foo''" "[]"] by (simp add: ascii_def MAX_NAME_LEN_def)

text \<open>
  An archive that ends inside a directory at the top is refused by the visitor and accepted when
  it is unpacked to a directory.
\<close>

lemma truncated_dir_accepted:
  assumes "archive_name name" and "mkdirat sys fd name k = (Ok (), k')"
  shows "unpack_to_dir sys (2 # name @ [0]) fd k = (Ok (), k') \<and>
    unpack_visitor V (2 # name @ [0]) v = (Err PeArchiveTruncated, v)"
  using assms by (simp add: unpack_to_dir_def unpack_visitor_def unpack_loop.simps unpack_visitor_loop.simps read_cstr_name)

section \<open>Packing a directory\<close>

lemma sendfile_all_returns:
  assumes "\<And>n i m i'. 0 < n \<Longrightarrow> send n i = (Ok m, i') \<Longrightarrow> 0 < m"
  shows "\<exists>r i'. sendfile_all send len i = Some (r, i')"
proof (induction len arbitrary: i rule: less_induct)
  case (less len)
  show ?case
    using less assms[of len i]
    by (subst sendfile_all.simps) (auto split: prod.split result.split)
qed

text \<open>
  (C38) A file that became shorter after its size was read makes packing hang: \<open>sendfile\<close> returns zero
  at its end, and the loop does not.
\<close>

theorem shrunk_file_hangs:
  assumes "\<And>n i. send n i = (Ok 0, i)" and "0 < len"
  shows "sendfile_all send len i = None"
proof (rule ccontr)
  assume "sendfile_all send len i \<noteq> None"
  then obtain r where "sendfile_all send len i = Some r" by blast
  then have "send = send \<longrightarrow> len = 0"
    by (rule sendfile_all.raw_induct[of "\<lambda>s l i r. s = send \<longrightarrow> l = 0", rotated])
      (fastforce simp: assms(1) split: if_splits)
  with assms(2) show False by simp
qed

lemma fs_depth:
  "preserves pk_depth (put iw bs)" "preserves pk_depth (fs_flush sys)"
  by (auto simp: preserves_def put_def fs_flush_def split: prod.splits bool.splits)

lemma fs_on_file_depth:
  assumes "\<And>n i m i'. 0 < n \<Longrightarrow> ps_sendfile sys fd n i = (Ok m, i') \<Longrightarrow> 0 < m"
  shows "\<exists>r p'. fs_on_file sys name sz fd p = Some (r, p') \<and> pk_depth p' = pk_depth p"
proof -
  let ?header = "st_seq (put (ps_write sys) [tag_byte TagFile]) (st_seq (put (ps_write sys) (name @ [0]))
      (st_seq (put (ps_write sys) (to_le 4 (of_nat sz :: u32))) (fs_flush sys)))"
  obtain r1 p1 where p1: "?header p = (r1, p1)" by (cases "?header p")
  have "preserves pk_depth ?header" by (intro preserves_intros fs_depth)
  then have "pk_depth (snd (?header p)) = pk_depth p" unfolding preserves_def by (rule spec)
  then have d: "pk_depth p1 = pk_depth p" unfolding p1 by simp
  obtain r i where "sendfile_all (ps_sendfile sys fd) sz (bw_inner (pk_writer p1)) = Some (r, i)"
    using sendfile_all_returns[of "ps_sendfile sys fd" sz] assms by blast
  with d show ?thesis unfolding fs_on_file_def p1 by (cases r1) auto
qed

lemma fs_on_dir_depth:
  assumes "fs_on_dir sys name p = (Ok (), p')"
  shows "pk_depth p \<le> MAX_DIR_DEPTH \<and> pk_depth p' = Suc (pk_depth p)"
proof -
  have "preserves pk_depth (st_seq (put (ps_write sys) [tag_byte TagDir]) (put (ps_write sys) (name @ [0])))"
    by (intro preserves_intros fs_depth)
  then have "pk_depth (snd (st_seq (put (ps_write sys) [tag_byte TagDir]) (put (ps_write sys) (name @ [0])) q)) = pk_depth q" for q
    by (simp add: preserves_def)
  from this[of "p\<lparr>pk_depth := Suc (pk_depth p)\<rparr>"] assms show ?thesis
    by (auto simp: fs_on_dir_def st_run split: if_splits)
qed

lemma fs_leave_dir_depth:
  assumes "fs_leave_dir sys p = (Ok (), p')"
  shows "pk_depth p' = pk_depth p - 1"
proof -
  have "pk_depth (snd (put (ps_write sys) [tag_byte TagPop] q)) = pk_depth q" for q
    using fs_depth(1)[of "ps_write sys"] by (simp add: preserves_def)
  from this[of "p\<lparr>pk_depth := pk_depth p - Suc 0\<rparr>"] assms show ?thesis
    by (auto simp: fs_leave_dir_def st_run split: if_splits)
qed

definition walk_returns :: "('fd, 'i) pack_sys \<Rightarrow> 'fd \<Rightarrow> (raw_dirent, unit) result list \<Rightarrow> 'i packer \<Rightarrow> bool" where
  "walk_returns sys fd es p \<longleftrightarrow>
     (\<exists>r p'. visit_dirc_rec sys (fs_to_writer sys) fd es p = Some (r, p') \<and> (r = Ok () \<longrightarrow> pk_depth p' = pk_depth p))"

lemma walk_directory:
  assumes "rd_type e = FkDirectory" and rest: "\<And>q. pk_depth q = pk_depth p \<Longrightarrow> walk_returns sys fd es q"
    and deeper: "\<And>q fd es. pk_depth q = Suc (pk_depth p) \<Longrightarrow> pk_depth p \<le> MAX_DIR_DEPTH \<Longrightarrow> walk_returns sys fd es q"
  shows "walk_returns sys fd (Ok e # es) p"
proof (cases "rd_name e = dot_name \<or> rd_name e = dotdot_name")
  case True
  with rest[of p] assms(1) show ?thesis unfolding walk_returns_def by (subst visit_dirc_rec.simps) auto
next
  case False
  note step = walk_returns_def[of sys fd "Ok e # es" p] visit_dirc_rec.simps[of sys _ fd "Ok e # es" p]
  show ?thesis
  proof (cases "opendirat sys fd (rd_name e)")
    case (Err u)
    with assms(1) False show ?thesis by (simp add: step)
  next
    case sub: (Ok sub)
    obtain r p1 where p1: "fs_on_dir sys (rd_name e) p = (r, p1)" by fastforce
    show ?thesis
    proof (cases r)
      case (Err u)
      with assms(1) False sub p1 show ?thesis by (simp add: step fs_to_writer_def)
    next
      case (Ok u)
      then have d: "pk_depth p \<le> MAX_DIR_DEPTH" "pk_depth p1 = Suc (pk_depth p)" using fs_on_dir_depth p1 by auto
      from deeper[OF d(2,1)] obtain r2 p2 where
        p2: "visit_dirc_rec sys (fs_to_writer sys) sub (ps_getdents sys sub) p1 = Some (r2, p2)"
          "r2 = Ok () \<Longrightarrow> pk_depth p2 = pk_depth p1" unfolding walk_returns_def by blast
      obtain r3 p3 where p3: "fs_leave_dir sys p2 = (r3, p3)" by fastforce
      have "walk_returns sys fd es p3" if "r2 = Ok ()" "r3 = Ok ()"
        using rest[of p3] fs_leave_dir_depth[of sys p2 p3] p3 p2(2) d(2) that by simp
      moreover have "pk_depth p3 = pk_depth p" if "r2 = Ok ()" "r3 = Ok ()"
        using fs_leave_dir_depth[of sys p2 p3] p3 p2(2) d(2) that by simp
      moreover have "fv_on_dir (fs_to_writer sys) (rd_name e) p = (Ok u, p1)" "fv_leave_dir (fs_to_writer sys) p2 = (r3, p3)"
        using p1 p3 Ok by (simp_all add: fs_to_writer_def)
      ultimately show ?thesis
        using assms(1) False sub p2(1) by (cases r2; cases r3) (auto simp: step walk_returns_def[of sys fd es])
    qed
  qed
qed

lemma walk_entries:
  assumes "\<And>fd n i m i'. 0 < n \<Longrightarrow> ps_sendfile sys fd n i = (Ok m, i') \<Longrightarrow> 0 < m"
    and deeper: "\<And>q fd es. pk_depth q = Suc d \<Longrightarrow> d \<le> MAX_DIR_DEPTH \<Longrightarrow> walk_returns sys fd es q"
  shows "pk_depth p = d \<Longrightarrow> walk_returns sys fd es p"
proof (induction es arbitrary: p)
  case Nil
  then show ?case by (simp add: walk_returns_def visit_dirc_rec.simps)
next
  case (Cons x es)
  show ?case
  proof (cases x)
    case (Err u)
    then show ?thesis
      by (simp add: walk_returns_def[of sys fd "Err () # es"] visit_dirc_rec.simps[of sys _ fd "Err () # es"])
  next
    case (Ok e)
    note step = walk_returns_def[of sys fd "Ok e # es" p] visit_dirc_rec.simps[of sys _ fd "Ok e # es" p]
    show ?thesis
    proof (cases "rd_type e")
      case FkOther
      with Ok Cons.IH[OF Cons.prems] show ?thesis by (simp add: step walk_returns_def[of sys fd es])
    next
      case FkDirectory
      then show ?thesis unfolding Ok by (rule walk_directory) (use Cons deeper in auto)
    next
      case FkRegular
      have one: "\<exists>r p1. fs_on_file sys (rd_name e) n f p = Some (r, p1) \<and> walk_returns sys fd es p1 \<and>
          pk_depth p1 = pk_depth p" for n f
      proof -
        obtain r p1 where "fs_on_file sys (rd_name e) n f p = Some (r, p1)" "pk_depth p1 = pk_depth p"
          using fs_on_file_depth[of sys f "rd_name e" n p] assms(1)[of _ f] by blast
        then show ?thesis using Cons.IH[of p1] Cons.prems by auto
      qed
      show ?thesis
      proof (cases "bindr (openat sys fd (rd_name e)) (\<lambda>f. mapr (\<lambda>n. (f, n)) (file_size sys f))")
        case (Err u)
        with Ok FkRegular show ?thesis by (auto simp: step result_simps)
      next
        case (Ok fn)
        then obtain f n where "openat sys fd (rd_name e) = Ok f" "file_size sys f = Ok n" by (auto simp: result_simps)
        with one[of n f] \<open>x = Ok e\<close> FkRegular show ?thesis
          by (auto simp: step fs_to_writer_def walk_returns_def[of sys fd es] split: result.split)
      qed
    qed
  qed
qed

lemma walk_all:
  assumes "\<And>fd n i m i'. 0 < n \<Longrightarrow> ps_sendfile sys fd n i = (Ok m, i') \<Longrightarrow> 0 < m"
  shows "walk_returns sys fd es p"
proof (induction "MAX_DIR_DEPTH + 1 - pk_depth p" arbitrary: p fd es rule: less_induct)
  case less
  have "walk_returns sys gd fs q" if "pk_depth q = Suc (pk_depth p)" "pk_depth p \<le> MAX_DIR_DEPTH" for q gd fs
    using that by (intro less) simp
  then show ?case using walk_entries[of sys "pk_depth p" p fd es] assms by blast
qed

text \<open>
  (C15) Packing a directory always returns when \<open>sendfile\<close> makes progress, whatever the directories
  look like, even when they contain themselves: the depth limit ends the recursion.
\<close>

theorem pack_dir_returns:
  assumes "\<And>fd n i m i'. 0 < n \<Longrightarrow> ps_sendfile sys fd n i = (Ok m, i') \<Longrightarrow> 0 < m"
  shows "\<exists>r. pack_dir_to_writer sys dir out = Some r"
proof -
  have "\<exists>r p. visit_dirc_rec sys (fs_to_writer sys) fd es (packer_new out) = Some (r, p)" for fd es
    using walk_all[of sys fd es "packer_new out"] assms unfolding walk_returns_def by blast
  then have "\<exists>x. visit_dir sys (fs_to_writer sys) dir (packer_new out) = Some x"
    by (simp add: visit_dir_def visit_dirc_def split: result.split)
  then show ?thesis by (auto simp: pack_dir_to_writer_def)
qed

section \<open>Both packers write the same bytes\<close>

text \<open>\<open>sendfile\<close> copies the rest of a file in pieces: each call appends a non-empty part of it.\<close>

inductive copies ::
    "(nat \<Rightarrow> 'i \<Rightarrow> (nat, int) result \<times> 'i) \<Rightarrow> ('i \<Rightarrow> bool) \<Rightarrow> ('i \<Rightarrow> bytes) \<Rightarrow> bytes \<Rightarrow> 'i \<Rightarrow> bool"
  for send good out where
  copied: "copies send good out [] i"
| piece: "data \<noteq> [] \<Longrightarrow> send (length data) i = (Ok m, i') \<Longrightarrow> 0 < m \<Longrightarrow> m \<le> length data \<Longrightarrow> good i' \<Longrightarrow>
    out i' = out i @ take m data \<Longrightarrow> copies send good out (drop m data) i' \<Longrightarrow> copies send good out data i"

lemma sendfile_all_copies:
  "copies send good out data i \<Longrightarrow> good i \<Longrightarrow>
     \<exists>i'. sendfile_all send (length data) i = Some (Ok (), i') \<and> good i' \<and> out i' = out i @ data"
proof (induction rule: copies.induct)
  case (copied i)
  then show ?case by (simp add: sendfile_all.simps)
next
  case (piece data i m i')
  then show ?case by (auto simp: sendfile_all.simps[of send "length data"])
qed

text \<open>What the system shows of a tree: the entries of a directory, without those that are skipped.\<close>

definition skipped :: "raw_dirent \<Rightarrow> bool" where
  "skipped e \<longleftrightarrow> rd_type e = FkOther \<or> rd_type e = FkDirectory \<and> (rd_name e = dot_name \<or> rd_name e = dotdot_name)"

inductive listed :: "('fd, 'i) pack_sys \<Rightarrow> ('i \<Rightarrow> bool) \<Rightarrow> ('i \<Rightarrow> bytes) \<Rightarrow> 'fd \<Rightarrow> raw_dirent \<Rightarrow> node \<Rightarrow> bool"
and listing :: "('fd, 'i) pack_sys \<Rightarrow> ('i \<Rightarrow> bool) \<Rightarrow> ('i \<Rightarrow> bytes) \<Rightarrow> 'fd \<Rightarrow> raw_dirent list \<Rightarrow> node list \<Rightarrow> bool"
  for sys good out where
  listed_file: "rd_type e = FkRegular \<Longrightarrow> rd_name e = name \<Longrightarrow> openat sys fd name = Ok f \<Longrightarrow>
    file_size sys f = Ok (length data) \<Longrightarrow> (\<And>i. good i \<Longrightarrow> copies (ps_sendfile sys f) good out data i) \<Longrightarrow>
    listed sys good out fd e (FileN name data)"
| listed_dir: "rd_type e = FkDirectory \<Longrightarrow> rd_name e = name \<Longrightarrow> name \<noteq> dot_name \<Longrightarrow> name \<noteq> dotdot_name \<Longrightarrow>
    opendirat sys fd name = Ok sub \<Longrightarrow> ps_getdents sys sub = map Ok es \<Longrightarrow> listing sys good out sub es children \<Longrightarrow>
    listed sys good out fd e (DirN name children)"
| listing_nil: "listing sys good out fd [] []"
| listing_skip: "skipped e \<Longrightarrow> listing sys good out fd es ns \<Longrightarrow> listing sys good out fd (e # es) ns"
| listing_cons: "listed sys good out fd e n \<Longrightarrow> listing sys good out fd es ns \<Longrightarrow> listing sys good out fd (e # es) (n # ns)"

definition flushes :: "('fd, 'i) pack_sys \<Rightarrow> ('i \<Rightarrow> bool) \<Rightarrow> ('i \<Rightarrow> bytes) \<Rightarrow> bool" where
  "flushes sys good out \<longleftrightarrow>
     (\<forall>i. good i \<longrightarrow> (\<exists>i'. ps_flush sys i = (True, i') \<and> good i' \<and> out i' = out i))"

context reliable_sink
begin

lemma fs_flush_ok:
  assumes sys: "ps_write sys = iw" "flushes sys inv out" and "ready p"
  shows "\<exists>p'. fs_flush sys p = (Ok (), p') \<and> ready p' \<and> out (bw_inner (pk_writer p')) = packed p \<and>
    bw_buf (pk_writer p') = [] \<and> pk_depth p' = pk_depth p"
proof -
  from flush_ok[OF assms(3)] obtain w where w: "bw_flush_buf iw (pk_writer p) = (True, w)" "inv (bw_inner w)" "bw_buf w = []"
    "out (bw_inner w) = packed p" by blast
  with sys(2) obtain i where "ps_flush sys (bw_inner w) = (True, i)" "inv i" "out i = packed p"
    unfolding flushes_def by metis
  with w show ?thesis by (auto simp: fs_flush_def sys(1))
qed

lemma fs_file_ok:
  assumes sys: "ps_write sys = iw" "flushes sys inv out" and "ready p" and "length data < 2 ^ 32"
    and "\<And>i. inv i \<Longrightarrow> copies (ps_sendfile sys f) inv out data i"
  shows "\<exists>p'. fs_on_file sys name (length data) f p = Some (Ok (), p') \<and> ready p' \<and>
    packed p' = packed p @ enc_node (FileN name data) \<and> pk_depth p' = pk_depth p"
proof -
  let ?header = "st_seq (put iw [tag_byte TagFile]) (st_seq (put iw (name @ [0])) (put iw (to_le 4 (of_nat (length data) :: u32))))"
  let ?bs = "1 # name @ 0 # to_le 4 (of_nat (length data) :: u32)"
  have "emits ?header ?bs (\<lambda>d. d) (\<lambda>_. True)" by (rule emits_then, rule emits_then, rule emits_put) auto
  then obtain p1 where p1: "?header p = (Ok (), p1)" "ready p1" "packed p1 = packed p @ ?bs" "pk_depth p1 = pk_depth p"
    using assms(3) unfolding emits_def by blast
  from fs_flush_ok[OF sys p1(2)] obtain p2 where p2: "fs_flush sys p1 = (Ok (), p2)" "ready p2"
    "out (bw_inner (pk_writer p2)) = packed p1" "bw_buf (pk_writer p2) = []" "pk_depth p2 = pk_depth p1" by blast
  have run: "st_seq (put iw [tag_byte TagFile]) (st_seq (put iw (name @ [0]))
      (st_seq (put iw (to_le 4 (of_nat (length data) :: u32))) (fs_flush sys))) p = (Ok (), p2)"
    using st_seq_step[of ?header p "()" p1 "fs_flush sys"] p1(1) p2(1) by (simp add: st_seq_assoc)
  from sendfile_all_copies[OF assms(5)[OF p2(2)] p2(2)] obtain i where
    "sendfile_all (ps_sendfile sys f) (length data) (bw_inner (pk_writer p2)) = Some (Ok (), i)" "inv i"
    "out i = packed p1 @ data" using p2(3) by auto
  then show ?thesis
    using assms(4) p1 p2 by (simp add: fs_on_file_def sys(1) run[simplified] accepted_bytes_def)
qed

lemma emits_fs_dir:
  assumes "ps_write sys = iw"
  shows "emits (fs_on_dir sys name) (2 # name @ [0]) Suc (\<lambda>d. d \<le> MAX_DIR_DEPTH)"
  unfolding fs_on_dir_def assms
  by (rule emits_guard, rule emits_seq[OF emits_depth], rule emits_then, rule emits_put) auto

lemma emits_fs_leave:
  assumes "ps_write sys = iw"
  shows "emits (fs_leave_dir sys) [3] (\<lambda>d. d - 1) (\<lambda>d. 0 < d)"
  unfolding fs_leave_dir_def assms
  by (rule emits_guard, rule emits_seq[OF emits_depth], rule emits_put) auto

lemma walk_writes:
  assumes sys: "ps_write sys = iw" "flushes sys inv out"
  shows "listed sys inv out fd e n \<Longrightarrow> ok_node n \<Longrightarrow> ready p \<Longrightarrow> pk_depth p + node_depth n \<le> MAX_DIR_DEPTH + 1 \<Longrightarrow>
      \<exists>p'. visit_dirc_rec sys (fs_to_writer sys) fd (Ok e # es) p = visit_dirc_rec sys (fs_to_writer sys) fd es p' \<and>
        ready p' \<and> packed p' = packed p @ enc_node n \<and> pk_depth p' = pk_depth p"
    and "listing sys inv out fd xs ns \<Longrightarrow> list_all ok_node ns \<Longrightarrow> ready p \<Longrightarrow>
      list_all (\<lambda>n. pk_depth p + node_depth n \<le> MAX_DIR_DEPTH + 1) ns \<Longrightarrow>
      \<exists>p'. visit_dirc_rec sys (fs_to_writer sys) fd (map Ok xs) p = Some (Ok (), p') \<and>
        ready p' \<and> packed p' = packed p @ enc_nodes ns \<and> pk_depth p' = pk_depth p"
proof (induction arbitrary: p es and p rule: listed_listing.inducts)
  case (listed_file e name fd f data)
  from fs_file_ok[OF sys listed_file(7) _ listed_file(5), of name] listed_file(6) obtain p' where
    "fs_on_file sys name (length data) f p = Some (Ok (), p')" "ready p'"
    "packed p' = packed p @ enc_node (FileN name data)" "pk_depth p' = pk_depth p" by auto
  then show ?case
    using listed_file(1-4) by (intro exI[of _ p']) (simp add: visit_dirc_rec.simps[of sys _ fd "Ok e # es"] fs_to_writer_def)
next
  case (listed_dir e name fd sub xs children)
  have d: "pk_depth p \<le> MAX_DIR_DEPTH" using listed_dir.prems(3) by simp
  with emits_fs_dir[OF sys(1), of name] listed_dir.prems(2) obtain p1 where
    p1: "fs_on_dir sys name p = (Ok (), p1)" "ready p1" "packed p1 = packed p @ 2 # name @ [0]" "pk_depth p1 = Suc (pk_depth p)"
    unfolding emits_def by blast
  have "list_all (\<lambda>n. pk_depth p1 + node_depth n \<le> MAX_DIR_DEPTH + 1) children"
    using listed_dir.prems(3) p1(4) fold_max_bound[of _ 0 "map node_depth children"] by (fastforce simp: list_all_iff)
  with listed_dir(8)[OF _ p1(2)] listed_dir.prems(1) obtain p2 where
    p2: "visit_dirc_rec sys (fs_to_writer sys) sub (map Ok xs) p1 = Some (Ok (), p2)" "ready p2"
      "packed p2 = packed p1 @ enc_nodes children" "pk_depth p2 = pk_depth p1" by auto
  with emits_fs_leave[OF sys(1)] p1(4) obtain p3 where
    p3: "fs_leave_dir sys p2 = (Ok (), p3)" "ready p3" "packed p3 = packed p2 @ [3]" "pk_depth p3 = pk_depth p2 - 1"
    unfolding emits_def by (metis zero_less_Suc)
  show ?case
    using listed_dir(1-6) p1 p2 p3
    by (intro exI[of _ p3]) (simp add: visit_dirc_rec.simps[of sys _ fd "Ok e # es"] fs_to_writer_def)
next
  case (listing_nil fd)
  then show ?case by (simp add: visit_dirc_rec.simps)
next
  case (listing_skip e fd xs ns)
  then show ?case
    by (auto simp: visit_dirc_rec.simps[of sys _ fd "Ok e # map Ok xs"] skipped_def split: file_kind.split)
next
  case (listing_cons fd e n xs ns)
  from listing_cons(2)[of p "map Ok xs"] listing_cons.prems obtain p1 where
    p1: "visit_dirc_rec sys (fs_to_writer sys) fd (Ok e # map Ok xs) p = visit_dirc_rec sys (fs_to_writer sys) fd (map Ok xs) p1"
      "ready p1" "packed p1 = packed p @ enc_node n" "pk_depth p1 = pk_depth p" by auto
  with listing_cons(4)[of p1] listing_cons.prems show ?case by auto
qed

end

lemma pack_dir_appends:
  assumes "reliable_sink (ps_write sys) good out" and "flushes sys good out" and "good i"
    and "0 \<notin> set dir" and "opendir sys dir = Ok fd" and "ps_getdents sys fd = map Ok es" and "listing sys good out fd es ts"
    and "list_all ok_node ts" and "list_all (\<lambda>t. node_depth t \<le> MAX_DIR_DEPTH + 1) ts"
  shows "\<exists>i'. pack_dir_to_writer sys dir i = Some (Ok i') \<and> out i' = out i @ enc_nodes ts \<and> good i'"
proof -
  have new: "good (bw_inner (pk_writer (packer_new i)))" "pk_depth (packer_new i) = 0"
    using assms(3) by (simp_all add: packer_new_def bw_new_def)
  from reliable_sink.walk_writes(2)[OF assms(1) refl assms(2,7,8) new(1)] assms(9) new(2) obtain q where
    q: "visit_dirc_rec sys (fs_to_writer sys) fd (map Ok es) (packer_new i) = Some (Ok (), q)"
      "good (bw_inner (pk_writer q))"
      "byte_sink.accepted_bytes out (pk_writer q) = byte_sink.accepted_bytes out (pk_writer (packer_new i)) @ enc_nodes ts"
    by auto
  from reliable_sink.flush_ok[OF assms(1) q(2)] obtain w where
    w: "bw_flush_buf (ps_write sys) (pk_writer q) = (True, w)" "out (bw_inner w) = byte_sink.accepted_bytes out (pk_writer q)" "good (bw_inner w)"
    by blast
  have sink: "byte_sink (ps_write sys) good out" using assms(1) by (simp add: reliable_sink_def)
  have "out (bw_inner w) = out i @ enc_nodes ts"
    using w(2) q(3) by (simp add: byte_sink.accepted_bytes_def[OF sink] packer_new_def bw_new_def)
  moreover have "pack_dir_to_writer sys dir i = Some (Ok (bw_inner w))"
    using q(1) w(1) assms(4-6)
    by (simp add: pack_dir_to_writer_def visit_dir_def visit_dirc_def packer_into_inner_def)
  ultimately show ?thesis using w(3) by blast
qed

text \<open>
  (C14) Both packers agree: packing a directory whose entries show a tree appends to the output exactly
  the bytes that packing the tree from memory puts into a vector.
\<close>

theorem packers_agree:
  assumes "reliable_sink (ps_write sys) good out" and "flushes sys good out" and "good i"
    and "0 \<notin> set dir" and "opendir sys dir = Ok fd" and "ps_getdents sys fd = map Ok es" and "listing sys good out fd es ts"
    and "list_all ok_node ts" and "list_all (\<lambda>t. node_depth t \<le> MAX_DIR_DEPTH + 1) ts"
  shows "\<exists>i' p v. pack_dir_to_writer sys dir i = Some (Ok i') \<and> out i' = out i @ v \<and>
    pack_nodes vec_write ts pack_vec_new = (Ok (), p) \<and> pack_into_vec p = Ok v"
  using pack_dir_appends[OF assms] vec_packs[OF assms(8,9)] by blast

section \<open>Instances\<close>

definition sample_tree :: "node list" where
  "sample_tree = [FileN (ascii ''f'') [7, 7], DirN (ascii ''d'') [FileN (ascii ''g'') []]]"

lemmas sample_simps = sample_tree_def ascii_def archive_name_def MAX_NAME_LEN_def MAX_DIR_DEPTH_def
  normal_name_def dot_name_def dotdot_name_def slash_def

lemma pack_roundtrip_witness:
  "\<exists>p v. pack_nodes vec_write sample_tree pack_vec_new = (Ok (), p) \<and> pack_into_vec p = Ok v \<and>
     unpack_to_hashmap v = Ok (map_of [([Normal (ascii ''d''), Normal (ascii ''g'')], []), ([Normal (ascii ''f'')], [7, 7])])"
  using pack_roundtrip[of sample_tree] by (simp add: sample_simps)

text \<open>Descriptor 0 is a directory with one file, which is descriptor 1.\<close>

definition sample_sys :: "(nat, writer) pack_sys" where
  "sample_sys =
     \<lparr>ps_open = (\<lambda>_ _. Ok 0), ps_openat2 = (\<lambda>_ _ _. Ok 1),
      ps_getdents = (\<lambda>_. [Ok \<lparr>rd_type = FkRegular, rd_name = ascii ''f''\<rparr>]), ps_fstat_size = (\<lambda>_. Some 2),
      ps_write = vec_write, ps_flush = (\<lambda>i. (True, i)),
      ps_sendfile = (\<lambda>_ n i. (Ok n, Erofs_Writer.write_all (replicate n 7) i))\<rparr>"

lemma sample_copies:
  "w_pos i = length (w_data i) \<Longrightarrow>
     copies (ps_sendfile sample_sys 1) (\<lambda>w. w_pos w = length (w_data w)) w_data [7, 7] i"
  by (rule copies.piece[where m = 2 and i' = "Erofs_Writer.write_all [7, 7] i"])
    (auto simp: sample_sys_def Erofs_Writer.write_all_def overwrite_def numeral_2_eq_2 intro: copies.copied)

lemma packers_agree_witness:
  "\<exists>i' p v. pack_dir_to_writer sample_sys (ascii ''/x'') \<lparr>w_data = [], w_pos = 0\<rparr> = Some (Ok i') \<and> w_data i' = v \<and>
     pack_nodes vec_write [FileN (ascii ''f'') [7, 7]] pack_vec_new = (Ok (), p) \<and> pack_into_vec p = Ok v"
proof -
  let ?good = "\<lambda>w. w_pos w = length (w_data w)"
  have sink: "reliable_sink (ps_write sample_sys) ?good w_data"
    using vec.reliable_sink_axioms by (simp add: sample_sys_def)
  have flush: "flushes sample_sys ?good w_data" by (simp add: flushes_def sample_sys_def)
  have "listing sample_sys ?good w_data 0 [\<lparr>rd_type = FkRegular, rd_name = ascii ''f''\<rparr>] [FileN (ascii ''f'') [7, 7]]"
    by (intro listing_cons listing_nil listed_file[where f = 1] sample_copies)
      (simp_all add: openat_def file_size_def sample_sys_def)
  from packers_agree[OF sink flush _ _ _ _ this, of "\<lparr>w_data = [], w_pos = 0\<rparr>" "ascii ''/x''"]
  show ?thesis by (simp add: opendir_def sample_sys_def sample_simps)
qed

text \<open>A directory that contains itself.\<close>

lemma pack_dir_returns_witness:
  "\<exists>r. pack_dir_to_writer (sample_sys\<lparr>ps_getdents := \<lambda>_. [Ok \<lparr>rd_type = FkDirectory, rd_name = ascii ''d''\<rparr>]\<rparr>)
     (ascii ''/x'') \<lparr>w_data = [], w_pos = 0\<rparr> = Some r"
  by (rule pack_dir_returns) (simp add: sample_sys_def)

lemma shrunk_file_hangs_witness: "sendfile_all (\<lambda>n i. (Ok 0, i)) 1 () = None"
  by (rule shrunk_file_hangs) auto

definition quiet_sys :: "(nat, unit) unpack_sys" where
  "quiet_sys = \<lparr>us_openat2 = (\<lambda>_ _ _ k. (Ok 0, k)), us_mkdirat = (\<lambda>_ _ _ k. (Ok (), k)), us_write_all = (\<lambda>_ _ k. (True, k))\<rparr>"

lemma unpack_to_dir_walks_witness:
  "unpack_to_dir quiet_sys (enc_nodes sample_tree) 0 () = (Ok (), ())"
proof -
  have "list_all ok_node sample_tree" by (simp add: sample_simps)
  from unpack_to_dir_walks[OF this, of quiet_sys 0 "()"] show ?thesis
    by (simp add: sample_tree_def st_run st_seq_def st_bind_def openat_w_def openpathat_def mkdirat_def write_file_def
        st_map_err_def quiet_sys_def)
qed

lemma truncated_dir_accepted_witness:
  "unpack_to_dir quiet_sys (2 # ascii ''d'' @ [0]) 0 () = (Ok (), ()) \<and>
   unpack_visitor to_hashmap (2 # ascii ''d'' @ [0]) Map.empty = (Err PeArchiveTruncated, Map.empty)"
  by (rule truncated_dir_accepted)
    (simp_all add: sample_simps mkdirat_def st_map_err_def quiet_sys_def)

end
