(* ===== verification/Io_File.thy ===== *)
theory Io_File
  imports Pearchive
begin

text \<open>
  The file that carries a request into a guest and a response out of it (\<open>peinit/src/lib.rs\<close>), the
  commands of \<open>pearchive\<close> that append an archive to it and unpack one from it, and the forms a server
  gives to requests and responses (\<open>peserver/src/api.rs\<close>). The file is its bytes and a position;
  \<open>bincode\<close> and \<open>serde_json\<close> are arguments, and arithmetic on \<open>u32\<close> wraps as it does in a release build.
\<close>

section \<open>Configurations and responses\<close>

datatype rootfs_kind = Sqfs | Erofs

datatype response_format = PeArchiveV1 | JsonV1

record config =
  cf_oci_runtime_config :: bytes
  cf_timeout :: nat
  cf_stdin :: "bytes option"
  cf_strace :: bool
  cf_crun_debug :: bool
  cf_rootfs_dir :: "bytes option"
  cf_rootfs_kind :: rootfs_kind
  cf_response_format :: response_format
  cf_kernel_inspect :: bool
  cf_manifest_digest :: bytes

datatype siginfo_redux =
    SiExited int | SiKilled int | SiDumped int | SiStopped int | SiTrapped int | SiContinued int
  | SiUnk int int

record timeval =
  tv_sec :: int
  tv_usec :: int

record rusage =
  ru_utime :: timeval
  ru_stime :: timeval
  ru_maxrss :: int
  ru_ixrss :: int
  ru_idrss :: int
  ru_isrss :: int
  ru_minflt :: int
  ru_majflt :: int
  ru_nswap :: int
  ru_inblock :: int
  ru_oublock :: int
  ru_msgsnd :: int
  ru_msgrcv :: int
  ru_nsignals :: int
  ru_nvcsw :: int
  ru_nivcsw :: int

datatype response =
    RespOk siginfo_redux rusage "bytes option" "bytes option" bytes
  | RespOvertime siginfo_redux rusage "bytes option" "bytes option" bytes
  | RespPanic bytes

text \<open>\<open>Path::extension\<close>: what is behind the last dot of the file name, unless that dot is its first byte.\<close>

definition path_extension :: "bytes \<Rightarrow> bytes option" where
  "path_extension p =
     (case path_file_name p of
        None \<Rightarrow> None
      | Some name \<Rightarrow>
          (let ext = rev (takeWhile (\<lambda>b. b \<noteq> 0x2e) (rev name)); stem_len = length name - length ext - 1
           in if 0x2e \<in> set name \<and> 0 < stem_len then Some ext else None))"

definition try_from_path_name :: "bytes \<Rightarrow> rootfs_kind option" where
  "try_from_path_name p =
     (case path_extension p of
        Some e \<Rightarrow> if e = ascii ''sqfs'' then Some Sqfs else if e = ascii ''erofs'' then Some Erofs else None
      | None \<Rightarrow> None)"

section \<open>The file\<close>

datatype io_error = IoErr | IoSer | IoPanic

definition io_write :: "'i inner_write \<Rightarrow> bytes \<Rightarrow> (unit, io_error, 'i) st" where
  "io_write iw bs i = (case iw bs i of (ok, i') \<Rightarrow> (if ok then Ok () else Err IoErr, i'))"

definition io_seek_start :: "nat \<Rightarrow> (unit, io_error, writer) st" where
  "io_seek_start off f = (Ok (), seek_start off f)"

definition read_exact :: "nat \<Rightarrow> (bytes, io_error, writer) st" where
  "read_exact n f =
     (if n = 0 \<or> w_pos f + n \<le> length (w_data f)
      then (Ok (take n (drop (w_pos f) (w_data f))), f\<lparr>w_pos := w_pos f + n\<rparr>)
      else (Err IoErr, f\<lparr>w_pos := max (w_pos f) (length (w_data f))\<rparr>))"

fun write_u32_le_slice :: "'i inner_write \<Rightarrow> u32 list \<Rightarrow> (unit, io_error, 'i) st" where
  "write_u32_le_slice iw [] = st_ok ()"
| "write_u32_le_slice iw (x # xs) = st_seq (io_write iw (to_le 4 x)) (write_u32_le_slice iw xs)"

definition read_u32_le_slice :: "nat \<Rightarrow> (u32 list, io_error, writer) st" where
  "read_u32_le_slice n =
     st_bind (read_exact (4 * n)) (\<lambda>buf. st_ok (map (\<lambda>i. of_nat (from_le (take 4 (drop (4 * i) buf)))) [0..<n]))"

definition read_u32_le_pair :: "(u32 \<times> u32, io_error, writer) st" where
  "read_u32_le_pair = st_bind (read_u32_le_slice 2) (\<lambda>buf. st_ok (buf ! 0, buf ! 1))"

section \<open>Into the guest\<close>

definition write_io_file_config ::
    "('c \<Rightarrow> bytes option) \<Rightarrow> 'i inner_write \<Rightarrow> 'c \<Rightarrow> u32 \<Rightarrow> (unit, io_error, 'i) st" where
  "write_io_file_config encode iw config archive_size =
     (case encode config of
        None \<Rightarrow> st_err IoSer
      | Some config_bytes \<Rightarrow>
          if length config_bytes < 2 ^ 32
          then st_seq (write_u32_le_slice iw [archive_size, of_nat (length config_bytes)]) (io_write iw config_bytes)
          else st_err IoPanic)"

definition read_io_file_config :: "(bytes \<Rightarrow> 'c option) \<Rightarrow> (u32 \<times> 'c, io_error, writer) st" where
  "read_io_file_config decode =
     st_bind read_u32_le_pair (\<lambda>(archive_size, response_size).
     st_bind (read_exact (unat response_size)) (\<lambda>buf.
     st_bind (st_lift (ok_or IoSer (decode buf))) (\<lambda>config. st_ok (archive_size, config))))"

section \<open>Out of the guest\<close>

definition write_io_file_response ::
    "('r \<Rightarrow> bytes option) \<Rightarrow> 'i inner_write \<Rightarrow> 'r \<Rightarrow> (unit, io_error, 'i) st" where
  "write_io_file_response to_json iw response =
     (case to_json response of
        None \<Rightarrow> st_err IoSer
      | Some response_bytes \<Rightarrow>
          if length response_bytes < 2 ^ 32
          then st_seq (write_u32_le_slice iw [0, of_nat (length response_bytes)]) (io_write iw response_bytes)
          else st_err IoPanic)"

definition read_io_file_response_bytes :: "(u32 \<times> bytes, io_error, writer) st" where
  "read_io_file_response_bytes =
     st_seq (io_seek_start 0)
     (st_bind read_u32_le_pair (\<lambda>(archive_size, response_size).
      st_bind (read_exact (unat response_size)) (\<lambda>ret. st_ok (archive_size, ret))))"

definition read_io_file_response_archive_bytes :: "(bytes, io_error, writer) st" where
  "read_io_file_response_archive_bytes =
     st_seq (io_seek_start 0)
     (st_bind read_u32_le_pair (\<lambda>(archive_size, response_size).
        let ret = overwrite (replicate (unat (4 + response_size + archive_size)) 0) 0 (to_le 4 response_size)
        in st_bind (read_exact (length ret - 4)) (\<lambda>rest. st_ok (take 4 ret @ rest))))"

definition read_io_file_response :: "(bytes \<Rightarrow> 'r option) \<Rightarrow> (u32 \<times> 'r, io_error, writer) st" where
  "read_io_file_response from_json =
     st_bind read_io_file_response_bytes (\<lambda>(archive_size, response_bytes).
     st_bind (st_lift (ok_or IoSer (from_json response_bytes))) (\<lambda>response. st_ok (archive_size, response)))"

section \<open>The commands on an open file\<close>

text \<open>
  \<open>packfd\<close> appends the archive of a directory at the position of the file and stores its size at the
  start; \<open>None\<close> stands for a pack that does not return, \<open>IoPanic\<close> for a failed assertion or unwrap.
  The final \<open>sync_data\<close>, which changes no byte, is taken to succeed; parsing the arguments is left out.
\<close>

definition packfd :: "('fd, writer) pack_sys \<Rightarrow> bool \<Rightarrow> bytes \<Rightarrow> writer \<Rightarrow> (writer, io_error) result option" where
  "packfd sys is_dir indir fileout =
     (if \<not> is_dir then Some (Err IoPanic)
      else map_option (\<lambda>r.
        case r of
          Err _ \<Rightarrow> Err IoPanic
        | Ok fileout' \<Rightarrow>
            if w_pos fileout < w_pos fileout'
            then (let archive_size = w_pos fileout' - w_pos fileout
                  in if archive_size < 2 ^ 32
                     then (case io_write (ps_write sys) (to_le 4 (of_nat archive_size :: u32)) (seek_start 0 fileout') of
                             (Ok _, f) \<Rightarrow> Ok f
                           | (Err _, _) \<Rightarrow> Err IoPanic)
                     else Err IoPanic)
            else Err IoPanic) (pack_dir_to_file sys indir fileout))"

text \<open>\<open>mmap\<close> maps \<open>len\<close> bytes at an offset of the file.\<close>

definition unpackfd ::
    "(nat \<Rightarrow> nat \<Rightarrow> bytes option) \<Rightarrow> ('fd, 'k) sandbox_sys \<Rightarrow> bool \<Rightarrow> bytes \<Rightarrow> nat \<Rightarrow> writer \<Rightarrow> (unit, io_error, 'k) st" where
  "unpackfd mmap sys is_dir outname len file k =
     (if \<not> is_dir then (Err IoPanic, k)
      else case mmap (w_pos file) len of
             None \<Rightarrow> (Err IoPanic, k)
           | Some data \<Rightarrow>
               (case unpack_data_to_dir_with_unshare_chroot sys data outname k of
                  (Err _, k') \<Rightarrow> (Err IoPanic, k')
                | (Ok _, k') \<Rightarrow> (Ok (), k')))"

section \<open>Requests and responses of the server\<close>

datatype content_type = ApplicationJson | PeArchiveContent

definition APPLICATION_JSON :: bytes where "APPLICATION_JSON = ascii ''application/json''"
definition APPLICATION_X_PE_ARCHIVEV1 :: bytes where "APPLICATION_X_PE_ARCHIVEV1 = ascii ''application/x.pe.archivev1''"

definition content_type_of :: "bytes \<Rightarrow> content_type option" where
  "content_type_of s =
     (if s = APPLICATION_JSON then Some ApplicationJson
      else if s = APPLICATION_X_PE_ARCHIVEV1 then Some PeArchiveContent else None)"

fun content_type_name :: "content_type \<Rightarrow> bytes" where
  "content_type_name ApplicationJson = APPLICATION_JSON"
| "content_type_name PeArchiveContent = APPLICATION_X_PE_ARCHIVEV1"

definition RUNI_PREFIX :: bytes where "RUNI_PREFIX = ascii ''/api/v2/runi/''"

text \<open>The parsers of architectures and systems belong to the crate \<open>oci_spec\<close>.\<close>

record ('arch, 'os) parsed_path =
  pp_reference :: bytes
  pp_arch :: 'arch
  pp_os :: 'os

definition parse_path ::
    "(bytes \<Rightarrow> 'arch option) \<Rightarrow> (bytes \<Rightarrow> 'os option) \<Rightarrow> bytes \<Rightarrow> ('arch, 'os) parsed_path option" where
  "parse_path arch_of os_of s =
     Option.bind (strip_prefix RUNI_PREFIX s) (\<lambda>rest.
     Option.bind (split_once slash rest) (\<lambda>(arch, rest).
     Option.bind (split_once slash rest) (\<lambda>(os, reference).
       if 255 < length reference then None
       else Option.bind (arch_of arch) (\<lambda>a.
            Option.bind (os_of os) (\<lambda>o'. Some \<lparr>pp_reference = reference, pp_arch = a, pp_os = o'\<rparr>)))))"

definition parse_request ::
    "(bytes \<Rightarrow> 'q option) \<Rightarrow> bytes \<Rightarrow> content_type \<Rightarrow> (nat \<times> 'q) option" where
  "parse_request from_json body ct =
     (case ct of
        ApplicationJson \<Rightarrow> map_option (\<lambda>req. (0, req)) (from_json body)
      | PeArchiveContent \<Rightarrow>
          if length body < 4 then None
          else (let json_size = from_le (take 4 body)
                in Option.bind (get_range 4 (4 + json_size) body) (\<lambda>slice.
                   map_option (\<lambda>req. (4 + json_size, req)) (from_json slice))))"

definition parse_response :: "(bytes \<Rightarrow> 'r option) \<Rightarrow> bytes \<Rightarrow> ('r \<times> bytes) option" where
  "parse_response from_json body =
     (if length body < 4 then None
      else (let json_size = from_le (take 4 body)
            in Option.bind (get_range 4 (4 + json_size) body) (\<lambda>slice.
               Option.bind (from_json slice) (\<lambda>response.
               Option.bind (get_from (4 + json_size) body) (\<lambda>rem. Some (response, rem))))))"

end
