(* ===== verification/Io_File_Props.thy ===== *)
theory Io_File_Props
  imports Io_File Pearchive_Correct
begin

text \<open>
  Requests reach the guest and responses reach the client: what is written to the file at one end is
  what is read at the other.
\<close>

section \<open>Writing and reading the file\<close>

text \<open>What is in front of the position.\<close>

definition front :: "writer \<Rightarrow> bytes" where
  "front f = take (w_pos f) (w_data f)"

definition within :: "writer \<Rightarrow> bool" where
  "within f \<longleftrightarrow> w_pos f \<le> length (w_data f)"

lemma overwrite_inside:
  "off \<le> length img \<Longrightarrow> overwrite img off bs = take off img @ bs @ drop (off + length bs) img"
  by (simp add: overwrite_def)

lemma write_front:
  assumes "within f"
  shows "within (Erofs_Writer.write_all bs f)" "front (Erofs_Writer.write_all bs f) = front f @ bs"
  using assms by (auto simp: within_def front_def Erofs_Writer.write_all_def overwrite_inside)

interpretation iof: reliable_sink vec_write within front
  by unfold_locales (auto simp: vec_write_def write_front)

lemma io_write_vec: "io_write vec_write bs f = (Ok (), Erofs_Writer.write_all bs f)"
  by (simp add: io_write_def vec_write_def)

lemma write_u32s:
  "within f \<Longrightarrow> \<exists>f'. write_u32_le_slice vec_write xs f = (Ok (), f') \<and> within f' \<and>
     front f' = front f @ concat (map (to_le 4) xs) \<and> w_pos f' = w_pos f + 4 * length xs"
proof (induction xs arbitrary: f)
  case (Cons x xs)
  let ?g = "Erofs_Writer.write_all (to_le 4 x) f"
  from Cons.IH[of ?g] write_front[OF Cons.prems, of "to_le 4 x"] show ?case
    by (auto simp: st_seq_step[OF io_write_vec])
qed (auto simp: st_run)

text \<open>Both messages have the same form: two sizes and the bytes they announce.\<close>

lemma write_message:
  assumes "w_pos f = 0"
  shows "\<exists>f'. st_seq (write_u32_le_slice vec_write [a, of_nat (length bs)]) (io_write vec_write bs) f = (Ok (), f') \<and>
    within f' \<and> front f' = to_le 4 a @ to_le 4 (of_nat (length bs) :: u32) @ bs \<and> w_pos f' = 8 + length bs"
proof -
  have "within f" "front f = []" using assms by (simp_all add: within_def front_def)
  with write_u32s[of f "[a, of_nat (length bs)]"] assms obtain f1 where
    f1: "write_u32_le_slice vec_write [a, of_nat (length bs)] f = (Ok (), f1)" "within f1"
      "front f1 = to_le 4 a @ to_le 4 (of_nat (length bs) :: u32)" "w_pos f1 = 8" by auto
  from write_front[OF f1(2), of bs] f1 show ?thesis
    by (simp add: st_seq_step[of "write_u32_le_slice vec_write [a, of_nat (length bs)]", OF f1(1)] io_write_vec
        del: write_u32_le_slice.simps)
qed

lemma read_exact_here:
  "drop (w_pos f) (w_data f) = bs @ rest \<Longrightarrow> n = length bs \<Longrightarrow> read_exact n f = (Ok bs, f\<lparr>w_pos := w_pos f + n\<rparr>)"
proof -
  assume rest: "drop (w_pos f) (w_data f) = bs @ rest" and n: "n = length bs"
  from arg_cong[OF rest, of length] have "length (w_data f) - w_pos f = length bs + length rest" by simp
  with n show ?thesis by (cases "bs = []") (auto simp: read_exact_def rest neq_Nil_conv)
qed

lemma read_pair_here:
  assumes "drop (w_pos f) (w_data f) = to_le 4 (a :: u32) @ to_le 4 (b :: u32) @ rest"
  shows "read_u32_le_pair f = (Ok (a, b), f\<lparr>w_pos := w_pos f + 8\<rparr>)"
proof -
  have "read_exact 8 f = (Ok (to_le 4 a @ to_le 4 b), f\<lparr>w_pos := w_pos f + 8\<rparr>)"
    by (rule read_exact_here[where rest = rest]) (simp_all add: assms)
  then show ?thesis
    by (simp add: read_u32_le_pair_def read_u32_le_slice_def st_bind_def st_run from_le_to_le_exact numeral_2_eq_2)
qed

section \<open>Requests\<close>

text \<open>
  (C25) A configuration written for the guest is read back with the size of the archive, provided the
  serializer reads what it writes, and the file is left at the first byte of the archive.
\<close>

theorem config_roundtrip:
  assumes "encode config = Some bs" and "decode bs = Some config" and "length bs < 2 ^ 32" and "w_pos f = 0"
  shows "\<exists>f1 f2. write_io_file_config encode vec_write config archive_size f = (Ok (), f1) \<and>
    read_io_file_config decode (seek_start 0 (Erofs_Writer.write_all archive f1)) = (Ok (archive_size, config), f2) \<and>
    take (length archive) (drop (w_pos f2) (w_data f2)) = archive"
proof -
  let ?n = "of_nat (length bs) :: u32"
  from write_message[OF assms(4), of archive_size bs] obtain f1 where
    f1: "st_seq (write_u32_le_slice vec_write [archive_size, ?n]) (io_write vec_write bs) f = (Ok (), f1)"
      "within f1" "front f1 = to_le 4 archive_size @ to_le 4 ?n @ bs" "w_pos f1 = 8 + length bs" by blast
  let ?g = "Erofs_Writer.write_all archive f1"
  obtain rest where rest: "w_data ?g = to_le 4 archive_size @ to_le 4 ?n @ bs @ archive @ rest"
    using write_front(2)[OF f1(2), of archive] f1(3) unfolding front_def by (metis append.assoc append_take_drop_id)
  let ?f = "seek_start 0 ?g"
  have "read_u32_le_pair ?f = (Ok (archive_size, ?n), ?f\<lparr>w_pos := 8\<rparr>)"
    using read_pair_here[of ?f archive_size ?n "bs @ archive @ rest"] rest by simp
  moreover have "read_exact (length bs) (?f\<lparr>w_pos := 8\<rparr>) = (Ok bs, ?f\<lparr>w_pos := 8 + length bs\<rparr>)"
    using read_exact_here[of "?f\<lparr>w_pos := 8\<rparr>" bs "archive @ rest" "length bs"] rest by simp
  ultimately have "read_io_file_config decode ?f = (Ok (archive_size, config), ?f\<lparr>w_pos := 8 + length bs\<rparr>)"
    using assms(2,3) by (simp add: read_io_file_config_def st_bind_def st_run unat_of_nat_less)
  with f1(1) rest assms(1,3) show ?thesis by (auto simp: write_io_file_config_def)
qed

section \<open>Responses\<close>

lemma read_archive_bytes:
  assumes "w_data f = to_le 4 a @ to_le 4 r @ js @ archive @ rest" and "unat (r :: u32) = length js"
    and "unat (a :: u32) = length archive" and "4 + length js + length archive < 2 ^ 32"
  shows "\<exists>f'. read_io_file_response_archive_bytes f = (Ok (to_le 4 r @ js @ archive), f')"
proof -
  let ?f = "seek_start 0 f"
  have len: "unat (4 + r + a) = 4 + length js + length archive"
    using assms(2-4) by (simp add: unat_word_ariths mod_less)
  let ?ret = "overwrite (replicate (unat (4 + r + a)) 0) 0 (to_le 4 r)"
  have ret: "length ?ret = 4 + length js + length archive" "take 4 ?ret = to_le 4 r"
    unfolding len by (simp_all add: overwrite_def)
  have "read_u32_le_pair ?f = (Ok (a, r), ?f\<lparr>w_pos := 8\<rparr>)"
    using read_pair_here[of ?f a r "js @ archive @ rest"] assms(1) by simp
  moreover have "read_exact (length ?ret - 4) (?f\<lparr>w_pos := 8\<rparr>) =
      (Ok (js @ archive), ?f\<lparr>w_pos := 8 + (length js + length archive)\<rparr>)"
    using read_exact_here[of "?f\<lparr>w_pos := 8\<rparr>" "js @ archive" rest "length ?ret - 4"] assms(1) ret(1) by simp
  ultimately show ?thesis
    using ret(2) by (simp add: read_io_file_response_archive_bytes_def io_seek_start_def st_seq_def st_bind_def st_run Let_def)
qed

lemma parse_response_bytes:
  assumes "from_json js = Some r" and "length js < 2 ^ 32"
  shows "parse_response from_json (to_le 4 (of_nat (length js) :: u32) @ js @ archive) = Some (r, archive)"
  using assms by (simp add: parse_response_def from_le_to_le_exact unat_of_nat_less get_range_def get_from_def Let_def)

text \<open>The archive behind the response, and its size at the start.\<close>

lemma packfd_file:
  assumes "ps_write sys = vec_write" and "flushes sys within front" and "0 \<notin> set dir" and "opendir sys dir = Ok fd"
    and "ps_getdents sys fd = map Ok es" and "listing sys within front fd es ts" and "list_all ok_node ts"
    and "list_all (\<lambda>t. node_depth t \<le> MAX_DIR_DEPTH + 1) ts" and "ts \<noteq> []" and "length (enc_nodes ts) < 2 ^ 32"
    and "within f" and "4 \<le> w_pos f"
  shows "\<exists>f' rest. packfd sys True dir f = Some (Ok f') \<and>
    w_data f' = to_le 4 (of_nat (length (enc_nodes ts)) :: u32) @ drop 4 (front f) @ enc_nodes ts @ rest"
proof -
  have sink: "reliable_sink (ps_write sys) within front" using iof.reliable_sink_axioms assms(1) by simp
  from pack_dir_appends[OF sink assms(2,11,3-8)] obtain g where
    g: "pack_dir_to_writer sys dir f = Some (Ok g)" "front g = front f @ enc_nodes ts" "within g" by blast
  have "w_pos x = length (front x)" if "within x" for x using that by (simp add: front_def within_def)
  then have pos: "w_pos g = w_pos f + length (enc_nodes ts)" using g(2,3) assms(11) by simp
  obtain t ts' where "ts = t # ts'" using assms(9) by (cases ts) auto
  then have "enc_nodes ts \<noteq> []" by (cases t) auto
  let ?bs = "to_le 4 (of_nat (length (enc_nodes ts)) :: u32)"
  let ?f = "Erofs_Writer.write_all ?bs (seek_start 0 g)"
  have "w_data ?f = ?bs @ drop 4 (front g) @ drop (w_pos g) (w_data g)"
  proof -
    have "?bs \<noteq> []" using length_to_le[of 4 "of_nat (length (enc_nodes ts)) :: u32"] by force
    then have "w_data ?f = ?bs @ drop 4 (w_data g)" by (simp add: Erofs_Writer.write_all_def seek_start_def overwrite_inside)
    moreover have "drop 4 (take (w_pos g) (w_data g) @ drop (w_pos g) (w_data g)) =
        drop 4 (front g) @ drop (w_pos g) (w_data g)"
      using g(3) pos assms(12) unfolding drop_append by (simp add: front_def within_def)
    ultimately show ?thesis by simp
  qed
  moreover have "drop 4 (front g) = drop 4 (front f) @ enc_nodes ts"
    using g(2) assms(11,12) by (simp add: front_def within_def)
  moreover have "packfd sys True dir f = Some (Ok ?f)"
    using g(1) pos \<open>enc_nodes ts \<noteq> []\<close> assms(1,10)
    by (simp add: packfd_def pack_dir_to_file_def io_write_vec)
  ultimately show ?thesis by auto
qed

text \<open>
  (C6) From the guest to the client: when the guest writes a response and appends the archive of its
  output directory, the bytes the host takes from the file parse at the client into that response and
  an archive that unpacks to the files of the directory.
\<close>

theorem response_reaches_client:
  assumes "to_json r = Some js" and "from_json js = Some r" and "4 + length js + length (enc_nodes ts) < 2 ^ 32"
    and "ps_write sys = vec_write" and "flushes sys within front" and "0 \<notin> set dir" and "opendir sys dir = Ok fd"
    and "ps_getdents sys fd = map Ok es" and "listing sys within front fd es ts" and "list_all ok_node ts"
    and "list_all (\<lambda>t. node_depth t \<le> MAX_DIR_DEPTH + 1) ts" and "list_all path_names ts" and "ts \<noteq> []" and "w_pos f = 0"
  shows "\<exists>f1 f2 f3 b archive. write_io_file_response to_json vec_write r f = (Ok (), f1) \<and>
    packfd sys True dir f1 = Some (Ok f2) \<and> read_io_file_response_archive_bytes f2 = (Ok b, f3) \<and>
    parse_response from_json b = Some (r, archive) \<and>
    unpack_to_hashmap archive = Ok (map_of (rev (concat (map (files_of []) ts))))"
proof -
  let ?n = "of_nat (length js) :: u32" and ?a = "of_nat (length (enc_nodes ts)) :: u32"
  from write_message[OF assms(14), of 0 js] obtain f1 where
    f1: "st_seq (write_u32_le_slice vec_write [0, ?n]) (io_write vec_write js) f = (Ok (), f1)"
      "within f1" "front f1 = to_le 4 (0 :: u32) @ to_le 4 ?n @ js" "w_pos f1 = 8 + length js" by blast
  have "length (enc_nodes ts) < 2 ^ 32" "length js < 2 ^ 32" "4 \<le> w_pos f1" using assms(3) f1(4) by auto
  with packfd_file[OF assms(4-11,13) _ f1(2)] f1(3) obtain f2 rest where
    f2: "packfd sys True dir f1 = Some (Ok f2)" "w_data f2 = to_le 4 ?a @ to_le 4 ?n @ js @ enc_nodes ts @ rest"
    by auto
  have sizes: "unat ?n = length js" "unat ?a = length (enc_nodes ts)" using assms(3) by (simp_all add: unat_of_nat_less)
  from read_archive_bytes[OF f2(2) sizes assms(3)] obtain f3 where
    "read_io_file_response_archive_bytes f2 = (Ok (to_le 4 ?n @ js @ enc_nodes ts), f3)" by blast
  with f1(1) f2(1) parse_response_bytes[of from_json js r "enc_nodes ts"] assms(1-3) unpack_encoded[OF assms(10,12)]
  show ?thesis by (auto simp: write_io_file_response_def)
qed

text \<open>
  (C39) Sizes that do not fit: when the two sizes at the start of the file exceed what a \<open>u32\<close> can add up,
  the host returns fewer bytes than they announce, and no error.
\<close>

theorem archive_sizes_wrap:
  assumes "drop 8 (w_data f) = js @ rest" and "take 8 (w_data f) = to_le 4 a @ to_le 4 r"
    and "2 ^ 32 \<le> 4 + unat (r :: u32) + unat (a :: u32)" and "length js = unat (4 + r + a) - 4"
  shows "\<exists>f'. read_io_file_response_archive_bytes f = (Ok (to_le 4 r @ js), f') \<and> length js < unat r + unat a"
proof -
  let ?f = "seek_start 0 f"
  let ?ret = "overwrite (replicate (unat (4 + r + a)) 0) 0 (to_le 4 r)"
  have ret: "length ?ret - 4 = length js" "take 4 ?ret = to_le 4 r" using assms(4) by (simp_all add: overwrite_def)
  have data: "w_data f = to_le 4 a @ to_le 4 r @ js @ rest" using assms(1,2) by (metis append.assoc append_take_drop_id)
  have "read_u32_le_pair ?f = (Ok (a, r), ?f\<lparr>w_pos := 8\<rparr>)"
    using read_pair_here[of ?f a r "js @ rest"] data by simp
  moreover have "read_exact (length ?ret - 4) (?f\<lparr>w_pos := 8\<rparr>) = (Ok js, ?f\<lparr>w_pos := 8 + length js\<rparr>)"
    using read_exact_here[of "?f\<lparr>w_pos := 8\<rparr>" js rest "length ?ret - 4"] data ret(1) by simp
  moreover have "length js < unat r + unat a"
  proof -
    have "unat (4 + r + a) = (4 + unat r + unat a) mod 2 ^ 32" by (simp add: unat_word_ariths mod_simps)
    also have "\<dots> \<le> 4 + unat r + unat a - 2 ^ 32" using assms(3) by (metis le_mod_geq mod_less_eq_dividend)
    finally show ?thesis using assms(3,4) by simp
  qed
  ultimately show ?thesis
    using ret(2) by (simp add: read_io_file_response_archive_bytes_def io_seek_start_def st_seq_def st_bind_def st_run Let_def)
qed

section \<open>Paths\<close>

text \<open>
  (C27) The path of a run request names architecture, system and image: a path built from them is
  parsed back into them, and every parsed path has that form.
\<close>

theorem parse_path_exact:
  "parse_path arch_of os_of s = Some pp \<longleftrightarrow>
     (\<exists>arch os. s = RUNI_PREFIX @ arch @ slash # os @ slash # pp_reference pp \<and> slash \<notin> set arch \<and> slash \<notin> set os \<and>
        length (pp_reference pp) \<le> 255 \<and> arch_of arch = Some (pp_arch pp) \<and> os_of os = Some (pp_os pp))"
proof
  assume "parse_path arch_of os_of s = Some pp"
  then show "\<exists>arch os. s = RUNI_PREFIX @ arch @ slash # os @ slash # pp_reference pp \<and> slash \<notin> set arch \<and>
      slash \<notin> set os \<and> length (pp_reference pp) \<le> 255 \<and> arch_of arch = Some (pp_arch pp) \<and> os_of os = Some (pp_os pp)"
    unfolding parse_path_def bind_eq_Some_conv strip_prefix_Some
    by (auto simp: split_once_Some bind_eq_Some_conv split: if_splits prod.splits) blast
qed (auto simp: parse_path_def strip_prefix_def split_once_at)

section \<open>Instances\<close>

lemma config_roundtrip_witness:
  "\<exists>f1 f2. write_io_file_config (\<lambda>_. Some [1, 2]) vec_write () 3 \<lparr>w_data = [], w_pos = 0\<rparr> = (Ok (), f1) \<and>
     read_io_file_config (\<lambda>_. Some ()) (seek_start 0 (Erofs_Writer.write_all [7, 8, 9] f1)) = (Ok (3, ()), f2) \<and>
     take (length [7, 8, 9 :: u8]) (drop (w_pos f2) (w_data f2)) = [7, 8, 9]"
  by (rule config_roundtrip[where bs = "[1, 2]"]) simp_all

lemma sample_copies_file: "within i \<Longrightarrow> copies (ps_sendfile sample_sys 1) within front [7, 7] i"
  by (rule copies.piece[where m = 2 and i' = "Erofs_Writer.write_all [7, 7] i"])
    (auto simp: sample_sys_def write_front numeral_2_eq_2 intro: copies.copied)

lemma response_reaches_client_witness:
  "\<exists>f1 f2 f3 b archive. write_io_file_response (\<lambda>_. Some [0x7b, 0x7d]) vec_write () \<lparr>w_data = replicate 64 1, w_pos = 0\<rparr> = (Ok (), f1) \<and>
     packfd sample_sys True (ascii ''/x'') f1 = Some (Ok f2) \<and> read_io_file_response_archive_bytes f2 = (Ok b, f3) \<and>
     parse_response (\<lambda>_. Some ()) b = Some ((), archive) \<and>
     unpack_to_hashmap archive = Ok (map_of (rev (concat (map (files_of []) [FileN (ascii ''f'') [7, 7]]))))"
proof (rule response_reaches_client[where js = "[0x7b, 0x7d]"])
  show "listing sample_sys within front 0 [\<lparr>rd_type = FkRegular, rd_name = ascii ''f''\<rparr>] [FileN (ascii ''f'') [7, 7]]"
    by (intro listing_cons listing_nil listed_file[where f = 1] sample_copies_file)
      (simp_all add: openat_def file_size_def sample_sys_def)
qed (simp_all add: opendir_def sample_sys_def flushes_def sample_simps)

lemma archive_sizes_wrap_witness:
  "\<exists>f'. read_io_file_response_archive_bytes \<lparr>w_data = to_le 4 (0xffffffff :: u32) @ to_le 4 (4 :: u32) @ [1, 2, 3], w_pos = 0\<rparr> =
     (Ok (to_le 4 (4 :: u32) @ [1, 2, 3]), f') \<and> length [1, 2, 3 :: u8] < unat (4 :: u32) + unat (0xffffffff :: u32)"
  by (rule archive_sizes_wrap[where rest = "[]"]) simp_all

end
