(* ===== verification/Image_Spec.thy ===== *)
theory Image_Spec
  imports Squash Io_File_Props
begin

text \<open>
  Image manifests and configurations as the cache stores them (\<open>peoci/src/spec.rs\<close>) and the choice of
  a decompressor for a layer (\<open>peoci/src/compression.rs\<close>). The crates \<open>oci_spec\<close> and \<open>hex\<close> are outside
  the repository: their types appear with the variants and accessors the code names, and \<open>to_string\<close>,
  the hexadecimal codec, the digest parser and \<open>Descriptor::new\<close> are arguments.
\<close>

section \<open>Types\<close>

datatype spec_error =
    UnhandledMediaType bytes | BadDigest | UnhandledDigest bytes | UnhandledOs bytes | UnhandledArch bytes

datatype os = OsLinux
datatype arch = Amd64 | Arm64
datatype media_type = ImageLayer | ImageLayerGzip | ImageLayerZstd | DockerImageLayerGzip
datatype digest = Sha256 bytes

record layer_descriptor =
  ld_media_type :: media_type
  ld_digest :: digest
  ld_size :: u64

record image_manifest =
  mf_layers :: "layer_descriptor list"

record image_config =
  ic_user :: "bytes option"
  ic_exposed_ports :: "bytes list option"
  ic_env :: "bytes list option"
  ic_entrypoint :: "bytes list option"
  ic_cmd :: "bytes list option"
  ic_working_dir :: "bytes option"
  ic_stop_signal :: "bytes option"

record image_configuration =
  im_architecture :: arch
  im_os :: os
  im_config :: "image_config option"

text \<open>
  The types of \<open>oci_spec\<close>. A variant the code does not name is one of the \<open>Else\<close> constructors, which
  tell such variants apart by a string.
\<close>

datatype oci_os = OLinux | OOsElse bytes
datatype oci_arch = OAmd64 | OARM64 | OArchElse bytes
datatype oci_media_type = MImageLayer | MImageLayerGzip | MImageLayerZstd | MOther bytes | MElse bytes
datatype oci_digest_algorithm = ASha256 | AElse bytes

record oci_digest =
  dg_algorithm :: oci_digest_algorithm
  dg_digest :: bytes

record oci_descriptor =
  od_media_type :: oci_media_type
  od_artifact_type :: "oci_media_type option"
  od_digest :: oci_digest
  od_size :: u64

record oci_config =
  oc_user :: "bytes option"
  oc_exposed_ports :: "bytes list option"
  oc_env :: "bytes list option"
  oc_entrypoint :: "bytes list option"
  oc_cmd :: "bytes list option"
  oc_working_dir :: "bytes option"
  oc_stop_signal :: "bytes option"

record oci_image_configuration =
  oi_architecture :: oci_arch
  oi_os :: oci_os
  oi_config :: "oci_config option"

section \<open>Conversions from the crate's types\<close>

fun os_of_oci :: "(oci_os \<Rightarrow> bytes) \<Rightarrow> oci_os \<Rightarrow> (os, spec_error) result" where
  "os_of_oci to_string OLinux = Ok OsLinux"
| "os_of_oci to_string oo = Err (UnhandledOs (to_string oo))"

fun arch_of_oci :: "(oci_arch \<Rightarrow> bytes) \<Rightarrow> oci_arch \<Rightarrow> (arch, spec_error) result" where
  "arch_of_oci to_string OAmd64 = Ok Amd64"
| "arch_of_oci to_string OARM64 = Ok Arm64"
| "arch_of_oci to_string a = Err (UnhandledArch (to_string a))"

definition DOCKER_LAYER_GZIP :: bytes where
  "DOCKER_LAYER_GZIP = ascii ''application/vnd.docker.image.rootfs.diff.tar.gzip''"

definition media_type_of_oci ::
    "(oci_media_type \<Rightarrow> bytes) \<Rightarrow> oci_media_type \<Rightarrow> (media_type, spec_error) result" where
  "media_type_of_oci to_string mt =
     (case mt of
        MImageLayer \<Rightarrow> Ok ImageLayer
      | MImageLayerGzip \<Rightarrow> Ok ImageLayerGzip
      | MImageLayerZstd \<Rightarrow> Ok ImageLayerZstd
      | MOther s \<Rightarrow>
          if s = DOCKER_LAYER_GZIP then Ok DockerImageLayerGzip else Err (UnhandledMediaType (to_string mt))
      | MElse _ \<Rightarrow> Err (UnhandledMediaType (to_string mt)))"

text \<open>\<open>hex n s\<close> is \<open>hex::decode_to_slice\<close> into a buffer of \<open>n\<close> bytes.\<close>

definition hex_decode :: "(nat \<Rightarrow> bytes \<Rightarrow> bytes option) \<Rightarrow> nat \<Rightarrow> bytes \<Rightarrow> (bytes, spec_error) result" where
  "hex_decode hex n s = ok_or BadDigest (hex n s)"

definition digest_of_oci ::
    "(oci_digest_algorithm \<Rightarrow> bytes) \<Rightarrow> (nat \<Rightarrow> bytes \<Rightarrow> bytes option) \<Rightarrow> oci_digest \<Rightarrow>
       (digest, spec_error) result" where
  "digest_of_oci to_string hex d =
     (case dg_algorithm d of
        ASha256 \<Rightarrow> mapr Sha256 (hex_decode hex 32 (dg_digest d))
      | a \<Rightarrow> Err (UnhandledDigest (to_string a)))"

definition digest_of_str :: "(nat \<Rightarrow> bytes \<Rightarrow> bytes option) \<Rightarrow> bytes \<Rightarrow> (digest, spec_error) result" where
  "digest_of_str hex s =
     (case split_once 0x3a s of
        Some (a, data) \<Rightarrow>
          if a = ascii ''sha256'' then mapr Sha256 (hex_decode hex 32 data) else Err (UnhandledDigest a)
      | None \<Rightarrow> Err BadDigest)"

text \<open>What the conversions use of the two crates.\<close>

record oci_crate =
  os_string :: "oci_os \<Rightarrow> bytes"
  arch_string :: "oci_arch \<Rightarrow> bytes"
  media_string :: "oci_media_type \<Rightarrow> bytes"
  algorithm_string :: "oci_digest_algorithm \<Rightarrow> bytes"
  hex_decode_to_slice :: "nat \<Rightarrow> bytes \<Rightarrow> bytes option"
  hex_encode :: "bytes \<Rightarrow> bytes"
  sha256_parse :: "bytes \<Rightarrow> oci_digest option"
  descriptor_new :: "oci_media_type \<Rightarrow> u64 \<Rightarrow> oci_digest \<Rightarrow> oci_descriptor"

definition layer_of_oci :: "oci_crate \<Rightarrow> oci_descriptor \<Rightarrow> (layer_descriptor, spec_error) result" where
  "layer_of_oci cr d =
     bindr (media_type_of_oci (media_string cr) (od_media_type d)) (\<lambda>mt.
     bindr (digest_of_oci (algorithm_string cr) (hex_decode_to_slice cr) (od_digest d)) (\<lambda>dg.
       Ok \<lparr>ld_media_type = mt, ld_digest = dg, ld_size = od_size d\<rparr>))"

text \<open>Collecting an iterator of results stops at the first error.\<close>

fun collect_layers :: "oci_crate \<Rightarrow> oci_descriptor list \<Rightarrow> (layer_descriptor list, spec_error) result" where
  "collect_layers cr [] = Ok []"
| "collect_layers cr (d # ds) =
     bindr (layer_of_oci cr d) (\<lambda>l. bindr (collect_layers cr ds) (\<lambda>ls. Ok (l # ls)))"

definition manifest_of_oci :: "oci_crate \<Rightarrow> oci_descriptor list \<Rightarrow> (image_manifest, spec_error) result" where
  "manifest_of_oci cr layers = mapr (\<lambda>ls. \<lparr>mf_layers = ls\<rparr>) (collect_layers cr layers)"

definition config_of_oci :: "oci_config \<Rightarrow> (image_config, spec_error) result" where
  "config_of_oci c =
     Ok \<lparr>ic_user = oc_user c, ic_exposed_ports = oc_exposed_ports c, ic_env = oc_env c,
         ic_entrypoint = oc_entrypoint c, ic_cmd = oc_cmd c, ic_working_dir = oc_working_dir c,
         ic_stop_signal = oc_stop_signal c\<rparr>"

definition configuration_of_oci ::
    "oci_crate \<Rightarrow> oci_image_configuration \<Rightarrow> (image_configuration, spec_error) result" where
  "configuration_of_oci cr ic =
     bindr (arch_of_oci (arch_string cr) (oi_architecture ic)) (\<lambda>a.
     bindr (os_of_oci (os_string cr) (oi_os ic)) (\<lambda>oo.
     bindr (case oi_config ic of None \<Rightarrow> Ok None | Some c \<Rightarrow> mapr Some (config_of_oci c)) (\<lambda>cfg.
       Ok \<lparr>im_architecture = a, im_os = oo, im_config = cfg\<rparr>)))"

section \<open>Conversions to the crate's types\<close>

fun oci_of_media_type :: "media_type \<Rightarrow> oci_media_type" where
  "oci_of_media_type ImageLayer = MImageLayer"
| "oci_of_media_type ImageLayerGzip = MImageLayerGzip"
| "oci_of_media_type ImageLayerZstd = MImageLayerZstd"
| "oci_of_media_type DockerImageLayerGzip = MOther DOCKER_LAYER_GZIP"

text \<open>None is the panic of the \<open>unwrap\<close>.\<close>

fun oci_of_digest :: "oci_crate \<Rightarrow> digest \<Rightarrow> oci_digest option" where
  "oci_of_digest cr (Sha256 d) = sha256_parse cr (hex_encode cr d)"

definition oci_of_layer :: "oci_crate \<Rightarrow> layer_descriptor \<Rightarrow> oci_descriptor option" where
  "oci_of_layer cr l =
     map_option (descriptor_new cr (oci_of_media_type (ld_media_type l)) (ld_size l))
       (oci_of_digest cr (ld_digest l))"

section \<open>Compression of a layer\<close>

fun compression_of_layer :: "layer_descriptor \<Rightarrow> compression" where
  "compression_of_layer l =
     (case ld_media_type l of
        ImageLayer \<Rightarrow> CompNone
      | ImageLayerGzip \<Rightarrow> CompGzip
      | DockerImageLayerGzip \<Rightarrow> CompGzip
      | ImageLayerZstd \<Rightarrow> CompZstd)"

record compression_error =
  ce_media_type :: oci_media_type
  ce_artifact_type :: "oci_media_type option"

definition compression_of_descriptor :: "oci_descriptor \<Rightarrow> (compression, compression_error) result" where
  "compression_of_descriptor d =
     (let unhandled = Err \<lparr>ce_media_type = od_media_type d, ce_artifact_type = od_artifact_type d\<rparr>
      in case od_media_type d of
           MOther s \<Rightarrow> if s = DOCKER_LAYER_GZIP then Ok CompGzip else unhandled
         | MImageLayer \<Rightarrow> Ok CompNone
         | MImageLayerGzip \<Rightarrow> Ok CompGzip
         | MImageLayerZstd \<Rightarrow> Ok CompZstd
         | MElse _ \<Rightarrow> unhandled)"

section \<open>Lemmas\<close>

lemma media_type_of_oci_iff:
  "media_type_of_oci ts m = Ok mt \<longleftrightarrow> m = oci_of_media_type mt"
  by (cases mt) (auto simp: media_type_of_oci_def split: oci_media_type.splits if_splits)

lemma compression_agrees:
  assumes "layer_of_oci cr d = Ok l"
  shows "compression_of_descriptor d = Ok (compression_of_layer l)"
  using assms
  by (auto simp: layer_of_oci_def result_simps media_type_of_oci_iff compression_of_descriptor_def
      split: media_type.splits)

text \<open>A stored digest is the 32 bytes of its array type.\<close>

fun digest_wf :: "digest \<Rightarrow> bool" where
  "digest_wf (Sha256 d) = (length d = 32)"

text \<open>The documented behaviour of the crates: the decoder fills its buffer.\<close>

definition hex_fills :: "oci_crate \<Rightarrow> bool" where
  "hex_fills cr = (\<forall>n s d. hex_decode_to_slice cr n s = Some d \<longrightarrow> length d = n)"

definition hex_inverse :: "oci_crate \<Rightarrow> bool" where
  "hex_inverse cr = (\<forall>d. hex_decode_to_slice cr (length d) (hex_encode cr d) = Some d)"

definition sha256_parses :: "oci_crate \<Rightarrow> bool" where
  "sha256_parses cr =
     (\<forall>d. length d = 32 \<longrightarrow>
        sha256_parse cr (hex_encode cr d) = Some \<lparr>dg_algorithm = ASha256, dg_digest = hex_encode cr d\<rparr>)"

definition descriptor_keeps :: "oci_crate \<Rightarrow> bool" where
  "descriptor_keeps cr =
     (\<forall>m n d. od_media_type (descriptor_new cr m n d) = m \<and> od_size (descriptor_new cr m n d) = n \<and>
              od_digest (descriptor_new cr m n d) = d)"

lemma digest_of_oci_wf:
  assumes "digest_of_oci ts (hex_decode_to_slice cr) d = Ok dg" "hex_fills cr"
  shows "digest_wf dg"
  using assms
  by (auto simp: digest_of_oci_def hex_decode_def hex_fills_def result_simps split: oci_digest_algorithm.splits)

lemma layer_of_oci_wf:
  assumes "layer_of_oci cr d = Ok l" "hex_fills cr"
  shows "digest_wf (ld_digest l)" "ld_size l = od_size d"
    "od_media_type d = oci_of_media_type (ld_media_type l)"
  using assms by (auto simp: layer_of_oci_def result_simps media_type_of_oci_iff intro: digest_of_oci_wf)

lemma layer_roundtrip:
  assumes "hex_inverse cr" "sha256_parses cr" "descriptor_keeps cr" "digest_wf (ld_digest l)"
  shows "\<exists>d. oci_of_layer cr l = Some d \<and> layer_of_oci cr d = Ok l"
proof (cases "ld_digest l")
  case (Sha256 bs)
  then have "hex_decode_to_slice cr 32 (hex_encode cr bs) = Some bs"
    using assms(1,4) unfolding hex_inverse_def by (metis digest_wf.simps)
  then show ?thesis
    using assms Sha256
    by (simp add: oci_of_layer_def layer_of_oci_def sha256_parses_def descriptor_keeps_def
        media_type_of_oci_iff [THEN iffD2] digest_of_oci_def hex_decode_def)
qed

text \<open>
  (C24) Whatever manifest the registry sends, one that is accepted is stored with a 32-byte digest, the
  size and the media type of every layer, in the order of the layers, and the decompressor chosen for a
  stored layer is the one the registry's own descriptor asks for.
\<close>

theorem manifest_typed:
  assumes "manifest_of_oci cr ds = Ok m" and "hex_fills cr"
  shows "list_all2 (\<lambda>d l. digest_wf (ld_digest l) \<and> ld_size l = od_size d \<and>
           od_media_type d = oci_of_media_type (ld_media_type l) \<and>
           compression_of_descriptor d = Ok (compression_of_layer l)) ds (mf_layers m)"
proof -
  have "list_all2 (\<lambda>d l. layer_of_oci cr d = Ok l) ds ls" if "collect_layers cr ds = Ok ls" for ls
    using that by (induction ds arbitrary: ls) (auto simp: result_simps)
  then have "list_all2 (\<lambda>d l. layer_of_oci cr d = Ok l) ds (mf_layers m)"
    using assms(1) by (auto simp: manifest_of_oci_def result_simps)
  then show ?thesis
    by (rule list_all2_mono) (use assms(2) in \<open>auto simp del: compression_of_layer.simps dest: layer_of_oci_wf compression_agrees\<close>)
qed

section \<open>A hexadecimal codec\<close>

text \<open>Lower-case hexadecimal digits, an instance of what the conversions ask of their crates.\<close>

definition hex_digit :: "u8 \<Rightarrow> u8" where
  "hex_digit v = (if v < 10 then v + 48 else v + 87)"

definition hex_value :: "u8 \<Rightarrow> u8 option" where
  "hex_value b =
     (if 48 \<le> b \<and> b \<le> 57 then Some (b - 48) else if 97 \<le> b \<and> b \<le> 102 then Some (b - 87) else None)"

fun lower_hex :: "bytes \<Rightarrow> bytes" where
  "lower_hex [] = []"
| "lower_hex (b # bs) = (hex_digit (b div 16)) # (hex_digit (b mod 16)) # lower_hex bs"

fun unhex :: "bytes \<Rightarrow> bytes option" where
  "unhex [] = Some []"
| "unhex [b] = None"
| "unhex (a # b # s) =
     (case (hex_value a, hex_value b, unhex s) of
        (Some x, Some y, Some bs) \<Rightarrow> Some ((x * 16 + y) # bs) | _ \<Rightarrow> None)"

lemma hex_value_digit: "v < 16 \<Longrightarrow> hex_value (hex_digit v) = Some v"
  by (auto simp: hex_value_def hex_digit_def word_less_nat_alt word_le_nat_alt unat_word_ariths)

lemma nibbles: "(b :: u8) div 16 < 16" "b mod 16 < 16"
proof -
  have "unat b < 256"
    using unsigned_less [of b] by simp
  then show "b div 16 < 16" "b mod 16 < 16"
    by (simp_all add: word_less_nat_alt unat_div unat_mod)
qed

lemma unhex_lower_hex: "unhex (lower_hex bs) = Some bs"
  by (induction bs) (simp_all add: hex_value_digit nibbles div_mult_mod_eq)

definition plain_crate :: oci_crate where
  "plain_crate =
     \<lparr>os_string = (\<lambda>_. []), arch_string = (\<lambda>_. []), media_string = (\<lambda>_. []), algorithm_string = (\<lambda>_. []),
      hex_decode_to_slice =
        (\<lambda>n s. case unhex s of Some d \<Rightarrow> if length d = n then Some d else None | None \<Rightarrow> None),
      hex_encode = lower_hex,
      sha256_parse = (\<lambda>s. if length s = 64 then Some \<lparr>dg_algorithm = ASha256, dg_digest = s\<rparr> else None),
      descriptor_new =
        (\<lambda>m n d. \<lparr>od_media_type = m, od_artifact_type = None, od_digest = d, od_size = n\<rparr>)\<rparr>"

lemma length_lower_hex: "length (lower_hex bs) = 2 * length bs"
  by (induction bs) simp_all

lemma plain_crate_laws:
  "hex_fills plain_crate" "hex_inverse plain_crate" "sha256_parses plain_crate" "descriptor_keeps plain_crate"
  by (auto simp: plain_crate_def hex_fills_def hex_inverse_def sha256_parses_def descriptor_keeps_def
      unhex_lower_hex length_lower_hex split: option.splits if_splits)

definition sample_layer :: oci_descriptor where
  "sample_layer =
     \<lparr>od_media_type = MOther DOCKER_LAYER_GZIP, od_artifact_type = None,
      od_digest = \<lparr>dg_algorithm = ASha256, dg_digest = lower_hex (replicate 32 0xa7)\<rparr>, od_size = 77\<rparr>"

lemma sample_manifest:
  "manifest_of_oci plain_crate [sample_layer] =
     Ok \<lparr>mf_layers = [\<lparr>ld_media_type = DockerImageLayerGzip, ld_digest = Sha256 (replicate 32 0xa7), ld_size = 77\<rparr>]\<rparr>"
  by (simp add: manifest_of_oci_def layer_of_oci_def sample_layer_def media_type_of_oci_def digest_of_oci_def
      hex_decode_def plain_crate_def unhex_lower_hex)

theorem manifest_typed_witness:
  "compression_of_descriptor sample_layer = Ok CompGzip \<and> digest_wf (Sha256 (replicate 32 0xa7))"
  using manifest_typed [OF sample_manifest plain_crate_laws(1)] by simp

end
