(* ===== verification/Runtime_Spec.thy ===== *)
theory Runtime_Spec
  imports Image_Spec
begin

text \<open>
  The runtime specification a container is started with (\<open>perunner/src/lib.rs\<close>). The records of the
  crate \<open>oci_spec\<close> have the fields the code reads or sets; the default specification, the builders and the
  parsed seccomp policy come from outside the repository and are arguments.
\<close>

section \<open>Users\<close>

text \<open>\<open>RuntimePanic\<close> stands for the panic of an \<open>unwrap\<close>; the other values are those of \<open>Error\<close>.\<close>

datatype runtime_error = BadArch | BadOs | BadArgs | EmptyUser | UnhandledUser | OciUser | RuntimePanic

definition UID :: u32 where "UID = 1000"
definition NIDS :: u32 where "NIDS = 65534"

definition parse_u32 :: "bytes \<Rightarrow> u32 option" where
  "parse_u32 s = map_option of_nat (parse_unsigned (2 ^ 32) s)"

record oci_user =
  us_uid :: u32
  us_gid :: u32

definition parse_user_string ::
    "(u32 \<Rightarrow> u32 \<Rightarrow> oci_user option) \<Rightarrow> bytes \<Rightarrow> (oci_user, runtime_error) result" where
  "parse_user_string build s =
     (if s = [] then Err EmptyUser
      else case parse_u32 s of
             Some uid \<Rightarrow> ok_or OciUser (build uid uid)
           | None \<Rightarrow>
               (case split_once 0x3a s of
                  None \<Rightarrow> Err UnhandledUser
                | Some (a, b) \<Rightarrow>
                    (case (parse_u32 a, parse_u32 b) of
                       (Some uid, Some gid) \<Rightarrow> ok_or OciUser (build uid gid)
                     | _ \<Rightarrow> Err UnhandledUser)))"

section \<open>The types of the specification\<close>

record id_mapping =
  idm_host_id :: u32
  idm_container_id :: u32
  idm_size :: u32

datatype namespace_type = NsNetwork | NsElse bytes

record namespace =
  ns_typ :: namespace_type

record oci_mount =
  mt_destination :: bytes
  mt_typ :: "bytes option"
  mt_source :: "bytes option"
  mt_options :: "bytes list option"

record 's linux =
  lx_uid_mappings :: "id_mapping list option"
  lx_gid_mappings :: "id_mapping list option"
  lx_namespaces :: "namespace list option"
  lx_seccomp :: "'s option"

record oci_process =
  pr_args :: "bytes list option"
  pr_env :: "bytes list option"
  pr_user :: oci_user
  pr_cwd :: bytes

record 's oci_spec =
  sp_hostname :: "bytes option"
  sp_linux :: "'s linux option"
  sp_mounts :: "oci_mount list option"
  sp_process :: "oci_process option"

text \<open>
  What the code uses of the crate. A builder returns None where its \<open>build\<close> fails; the mount builder
  takes the destination, the type, the source where one is set, and the options.
\<close>

record 's oci_runtime =
  rootless :: "u32 \<Rightarrow> u32 \<Rightarrow> 's oci_spec"
  seccomp_policy :: "'s option"
  build_id_mapping :: "u32 \<Rightarrow> u32 \<Rightarrow> u32 \<Rightarrow> id_mapping option"
  build_namespace :: "namespace_type \<Rightarrow> namespace option"
  build_mount :: "bytes \<Rightarrow> bytes \<Rightarrow> bytes option \<Rightarrow> bytes list \<Rightarrow> oci_mount option"
  build_user :: "u32 \<Rightarrow> u32 \<Rightarrow> oci_user option"

section \<open>Building the specification\<close>

definition unwrap :: "'a option \<Rightarrow> ('a, runtime_error) result" where
  "unwrap m = ok_or RuntimePanic m"

definition confine_linux :: "'s oci_runtime \<Rightarrow> 's linux option \<Rightarrow> ('s linux, runtime_error) result" where
  "confine_linux rt linux =
     bindr (unwrap (build_id_mapping rt UID 0 NIDS)) (\<lambda>map.
     bindr (unwrap linux) (\<lambda>lx.
     bindr (unwrap (lx_namespaces lx)) (\<lambda>ns.
     bindr (unwrap (build_namespace rt NsNetwork)) (\<lambda>net.
     bindr (unwrap (seccomp_policy rt)) (\<lambda>policy.
       Ok (lx\<lparr>lx_uid_mappings := Some [map], lx_gid_mappings := Some [map],
              lx_namespaces := Some (ns @ [net]), lx_seccomp := Some policy\<rparr>))))))"

definition add_mounts :: "'s oci_runtime \<Rightarrow> oci_mount list option \<Rightarrow> (oci_mount list, runtime_error) result" where
  "add_mounts rt mounts =
     bindr (unwrap mounts) (\<lambda>ms.
     bindr (unwrap (build_mount rt (ascii ''/tmp'') (ascii ''tmpfs'') None
       [ascii ''size=50%'', ascii ''mode=777''])) (\<lambda>tmp.
     bindr (unwrap (build_mount rt (ascii ''/run/pe/input'') (ascii ''bind'') (Some (ascii ''/run/input''))
       [ascii ''rw'', ascii ''rbind''])) (\<lambda>input.
     bindr (unwrap (build_mount rt (ascii ''/run/pe/output'') (ascii ''bind'') (Some (ascii ''/run/output/dir''))
       [ascii ''rw'', ascii ''rbind''])) (\<lambda>output.
       Ok (ms @ [tmp, input, output])))))"

definition resolve_args :: "image_config option \<Rightarrow> bytes list option \<Rightarrow> bytes list option \<Rightarrow> bytes list" where
  "resolve_args cfg entrypoint cmd =
     (case cfg of
        Some c \<Rightarrow>
          (case (entrypoint, ic_entrypoint c) of (Some xs, _) \<Rightarrow> xs | (None, Some xs) \<Rightarrow> xs | _ \<Rightarrow> []) @
          (case (cmd, ic_cmd c) of (Some xs, _) \<Rightarrow> xs | (None, Some xs) \<Rightarrow> xs | _ \<Rightarrow> [])
      | None \<Rightarrow>
          (case entrypoint of Some xs \<Rightarrow> xs | None \<Rightarrow> []) @ (case cmd of Some xs \<Rightarrow> xs | None \<Rightarrow> []))"

definition default_path :: bytes where
  "default_path = ascii ''PATH=/usr/local/sbin:/usr/local/bin:/usr/sbin:/usr/bin:/sbin:/bin''"

definition resolve_env :: "image_config option \<Rightarrow> bytes list option \<Rightarrow> bytes list" where
  "resolve_env cfg env =
     default_path #
       (case env of
          Some xs \<Rightarrow> xs
        | None \<Rightarrow> (case cfg of Some c \<Rightarrow> (case ic_env c of Some xs \<Rightarrow> xs | None \<Rightarrow> []) | None \<Rightarrow> []))"

definition set_user_and_cwd ::
    "'s oci_runtime \<Rightarrow> image_config option \<Rightarrow> oci_process \<Rightarrow> (oci_process, runtime_error) result" where
  "set_user_and_cwd rt cfg p =
     (case cfg of
        None \<Rightarrow> Ok p
      | Some c \<Rightarrow>
          bindr
            (case ic_user c of
               Some s \<Rightarrow>
                 if s \<noteq> [] then mapr (\<lambda>u. p\<lparr>pr_user := u\<rparr>) (parse_user_string (build_user rt) s) else Ok p
             | None \<Rightarrow> Ok p)
            (\<lambda>p'. Ok (case ic_working_dir c of
                        Some cwd \<Rightarrow> if cwd \<noteq> [] then p'\<lparr>pr_cwd := cwd\<rparr> else p' | None \<Rightarrow> p')))"

definition create_runtime_spec ::
    "'s oci_runtime \<Rightarrow> image_configuration \<Rightarrow> bytes list option \<Rightarrow> bytes list option \<Rightarrow> bytes list option \<Rightarrow>
       ('s oci_spec, runtime_error) result" where
  "create_runtime_spec rt im entrypoint cmd env =
     (if im_architecture im \<noteq> Amd64 then Err BadArch
      else if im_os im \<noteq> OsLinux then Err BadOs
      else let sp = (rootless rt UID UID)\<lparr>sp_hostname := Some (ascii ''programexplorer'')\<rparr>
           in bindr (confine_linux rt (sp_linux sp)) (\<lambda>lx.
              bindr (add_mounts rt (sp_mounts sp)) (\<lambda>mounts.
              bindr (unwrap (sp_process sp)) (\<lambda>p.
                let args = resolve_args (im_config im) entrypoint cmd
                in if args = [] then Err BadArgs
                   else bindr (set_user_and_cwd rt (im_config im)
                          (p\<lparr>pr_args := Some args, pr_env := Some (resolve_env (im_config im) env)\<rparr>)) (\<lambda>p'.
                        Ok (sp\<lparr>sp_linux := Some lx, sp_mounts := Some mounts, sp_process := Some p'\<rparr>))))))"

section \<open>Lemmas\<close>

text \<open>The documented behaviour of the builders: what they build has the values they were given.\<close>

definition builders_keep :: "'s oci_runtime \<Rightarrow> bool" where
  "builders_keep rt =
     ((\<forall>h c n m. build_id_mapping rt h c n = Some m \<longrightarrow>
         m = \<lparr>idm_host_id = h, idm_container_id = c, idm_size = n\<rparr>) \<and>
      (\<forall>t n. build_namespace rt t = Some n \<longrightarrow> ns_typ n = t) \<and>
      (\<forall>d t s os m. build_mount rt d t s os = Some m \<longrightarrow>
         m = \<lparr>mt_destination = d, mt_typ = Some t, mt_source = s, mt_options = Some os\<rparr>))"

lemma unwrap_eq_Ok [result_simps]: "unwrap m = Ok x \<longleftrightarrow> m = Some x"
  by (simp add: unwrap_def result_simps)

lemma confine_linux_ok:
  assumes "confine_linux rt linux = Ok lx" "builders_keep rt"
  shows "lx_uid_mappings lx = Some [\<lparr>idm_host_id = 1000, idm_container_id = 0, idm_size = 65534\<rparr>]"
    "lx_gid_mappings lx = lx_uid_mappings lx" "lx_seccomp lx = seccomp_policy rt"
    "\<exists>ns. lx_namespaces lx = Some ns \<and> NsNetwork \<in> ns_typ ` set ns"
  using assms by (auto simp: confine_linux_def builders_keep_def result_simps UID_def NIDS_def)

definition pe_mounts :: "oci_mount list" where
  "pe_mounts =
     [\<lparr>mt_destination = ascii ''/tmp'', mt_typ = Some (ascii ''tmpfs''), mt_source = None,
       mt_options = Some [ascii ''size=50%'', ascii ''mode=777'']\<rparr>,
      \<lparr>mt_destination = ascii ''/run/pe/input'', mt_typ = Some (ascii ''bind''),
       mt_source = Some (ascii ''/run/input''), mt_options = Some [ascii ''rw'', ascii ''rbind'']\<rparr>,
      \<lparr>mt_destination = ascii ''/run/pe/output'', mt_typ = Some (ascii ''bind''),
       mt_source = Some (ascii ''/run/output/dir''), mt_options = Some [ascii ''rw'', ascii ''rbind'']\<rparr>]"

lemma add_mounts_ok:
  assumes "add_mounts rt mounts = Ok ms" "builders_keep rt"
  shows "\<exists>ms0. mounts = Some ms0 \<and> ms = ms0 @ pe_mounts"
  using assms unfolding add_mounts_def builders_keep_def pe_mounts_def by (auto simp: result_simps)

lemma set_user_keeps:
  assumes "(case user of
              Some s \<Rightarrow> if s \<noteq> [] then mapr (\<lambda>u. p\<lparr>pr_user := u\<rparr>) (parse_user_string build s) else Ok p
            | None \<Rightarrow> Ok p) = Ok q"
  shows "pr_args q = pr_args p" "pr_env q = pr_env p"
  using assms by (cases user; cases "parse_user_string build (the user)"; force split: if_split_asm)+

lemma set_user_and_cwd_keeps:
  assumes "set_user_and_cwd rt cfg p = Ok p'"
  shows "pr_args p' = pr_args p" "pr_env p' = pr_env p"
proof -
  have "pr_args p' = pr_args p \<and> pr_env p' = pr_env p"
  proof (cases cfg)
    case (Some c)
    then obtain q where q: "(case ic_user c of
          Some s \<Rightarrow> if s \<noteq> [] then mapr (\<lambda>u. p\<lparr>pr_user := u\<rparr>) (parse_user_string (build_user rt) s) else Ok p
        | None \<Rightarrow> Ok p) = Ok q"
      and p': "p' = (case ic_working_dir c of
          Some cwd \<Rightarrow> if cwd \<noteq> [] then q\<lparr>pr_cwd := cwd\<rparr> else q | None \<Rightarrow> q)"
      using assms unfolding set_user_and_cwd_def by (simp only: option.case bindr_eq_Ok result.inject) blast
    show ?thesis
      unfolding p' by (simp add: set_user_keeps [OF q] split: option.split)
  qed (use assms in \<open>simp add: set_user_and_cwd_def\<close>)
  then show "pr_args p' = pr_args p" "pr_env p' = pr_env p"
    by simp_all
qed

text \<open>A number without a group is both the user and the group; with one, each is what it says.\<close>

lemma parse_user_numeric:
  "parse_u32 s = Some uid \<Longrightarrow> parse_user_string build s = ok_or OciUser (build uid uid)"
  by (auto simp: parse_user_string_def parse_u32_def parse_unsigned_def)

lemma parse_user_no_name:
  assumes "parse_user_string build s = Ok u"
  shows "\<exists>uid gid. build uid gid = Some u \<and>
    (parse_u32 s = Some uid \<and> gid = uid \<or>
     (\<exists>a b. split_once 0x3a s = Some (a, b) \<and> parse_u32 a = Some uid \<and> parse_u32 b = Some gid))"
  using assms by (auto simp: parse_user_string_def result_simps split: if_splits option.splits)

text \<open>What an image says about a part of its command or environment; nothing is the empty list.\<close>

definition image_part :: "(image_config \<Rightarrow> bytes list option) \<Rightarrow> image_configuration \<Rightarrow> bytes list" where
  "image_part field im =
     (case im_config im of None \<Rightarrow> [] | Some c \<Rightarrow> (case field c of None \<Rightarrow> [] | Some xs \<Rightarrow> xs))"

lemma resolve_args_parts:
  "resolve_args (im_config im) entrypoint cmd =
     (if entrypoint = None then image_part ic_entrypoint im else the entrypoint) @
     (if cmd = None then image_part ic_cmd im else the cmd)"
  by (auto simp: resolve_args_def image_part_def split: option.split)

lemma resolve_env_parts:
  "resolve_env (im_config im) env = default_path # (if env = None then image_part ic_env im else the env)"
  by (auto simp: resolve_env_def image_part_def split: option.split)

text \<open>The user and the directory of the process, where the image says one.\<close>

lemma set_user_and_cwd_ok:
  assumes "set_user_and_cwd rt (Some c) p = Ok p'"
  shows "ic_user c = Some s \<Longrightarrow> s \<noteq> [] \<Longrightarrow> parse_user_string (build_user rt) s = Ok (pr_user p')"
    "ic_working_dir c = Some d \<Longrightarrow> d \<noteq> [] \<Longrightarrow> pr_cwd p' = d"
proof -
  obtain q where q: "(case ic_user c of
        Some s \<Rightarrow> if s \<noteq> [] then mapr (\<lambda>u. p\<lparr>pr_user := u\<rparr>) (parse_user_string (build_user rt) s) else Ok p
      | None \<Rightarrow> Ok p) = Ok q"
    and p': "p' = (case ic_working_dir c of
        Some cwd \<Rightarrow> if cwd \<noteq> [] then q\<lparr>pr_cwd := cwd\<rparr> else q | None \<Rightarrow> q)"
    using assms unfolding set_user_and_cwd_def by (simp only: option.case bindr_eq_Ok result.inject) blast
  show "pr_cwd p' = d" if "ic_working_dir c = Some d" "d \<noteq> []" using p' that by simp
  have user: "pr_user p' = pr_user q" unfolding p' by (simp split: option.split)
  show "parse_user_string (build_user rt) s = Ok (pr_user p')" if "ic_user c = Some s" "s \<noteq> []"
    using q that unfolding user by (cases "parse_user_string (build_user rt) s") auto
qed

text \<open>The process a request asks for: its command, its environment, and what the image says of user and directory.\<close>

definition numeric_user :: "bytes \<Rightarrow> u32 \<Rightarrow> u32 \<Rightarrow> bool" where
  "numeric_user s uid gid \<longleftrightarrow>
     parse_u32 s = Some uid \<and> gid = uid \<or>
     (\<exists>a b. split_once 0x3a s = Some (a, b) \<and> parse_u32 a = Some uid \<and> parse_u32 b = Some gid)"

definition command_asked ::
    "image_configuration \<Rightarrow> bytes list option \<Rightarrow> bytes list option \<Rightarrow> bytes list option \<Rightarrow> oci_process \<Rightarrow> bool" where
  "command_asked im entrypoint cmd env p \<longleftrightarrow>
     (\<exists>front back vars. pr_args p = Some (front @ back) \<and> front @ back \<noteq> [] \<and>
       (\<forall>xs. entrypoint = Some xs \<longrightarrow> front = xs) \<and> (entrypoint = None \<longrightarrow> front = image_part ic_entrypoint im) \<and>
       (\<forall>xs. cmd = Some xs \<longrightarrow> back = xs) \<and> (cmd = None \<longrightarrow> back = image_part ic_cmd im) \<and>
       pr_env p = Some (ascii ''PATH=/usr/local/sbin:/usr/local/bin:/usr/sbin:/usr/bin:/sbin:/bin'' # vars) \<and>
       (\<forall>xs. env = Some xs \<longrightarrow> vars = xs) \<and> (env = None \<longrightarrow> vars = image_part ic_env im))"

definition user_and_cwd_of :: "(u32 \<Rightarrow> u32 \<Rightarrow> oci_user option) \<Rightarrow> image_configuration \<Rightarrow> oci_process \<Rightarrow> bool" where
  "user_and_cwd_of build im p \<longleftrightarrow>
     (\<forall>c s. im_config im = Some c \<longrightarrow> ic_user c = Some s \<longrightarrow> s \<noteq> [] \<longrightarrow>
        (\<exists>uid gid. numeric_user s uid gid \<and> build uid gid = Some (pr_user p))) \<and>
     (\<forall>c d. im_config im = Some c \<longrightarrow> ic_working_dir c = Some d \<longrightarrow> d \<noteq> [] \<longrightarrow> pr_cwd p = d)"

lemma command_asked_parts:
  assumes "pr_args p = Some (resolve_args (im_config im) entrypoint cmd)" and "resolve_args (im_config im) entrypoint cmd \<noteq> []"
    and "pr_env p = Some (resolve_env (im_config im) env)"
  shows "command_asked im entrypoint cmd env p"
  unfolding command_asked_def
  by (intro exI [of _ "if entrypoint = None then image_part ic_entrypoint im else the entrypoint"]
      exI [of _ "if cmd = None then image_part ic_cmd im else the cmd"] exI [of _ "if env = None then image_part ic_env im else the env"])
    (use assms in \<open>simp add: resolve_args_parts resolve_env_parts default_path_def\<close>)

lemma user_and_cwd_set:
  assumes "set_user_and_cwd rt (im_config im) p = Ok p'"
  shows "user_and_cwd_of (build_user rt) im p'"
proof -
  have "\<exists>uid gid. numeric_user s uid gid \<and> build_user rt uid gid = Some (pr_user p')"
    if "im_config im = Some c" "ic_user c = Some s" "s \<noteq> []" for c s
  proof -
    have "parse_user_string (build_user rt) s = Ok (pr_user p')" using set_user_and_cwd_ok(1) [of rt c p p' s] assms that by simp
    from parse_user_no_name [OF this] show ?thesis unfolding numeric_user_def by blast
  qed
  moreover have "pr_cwd p' = d" if "im_config im = Some c" "ic_working_dir c = Some d" "d \<noteq> []" for c d
    using set_user_and_cwd_ok(2) [of rt c p p' d] assms that by simp
  ultimately show ?thesis unfolding user_and_cwd_of_def by blast
qed

text \<open>
  (C7) Every specification that is built confines its container: it runs an amd64 image, container ids
  start at 0 and map to host ids from 1000 on, 65534 of them, there is a network namespace and
  the seccomp policy, and the three mounts of the service follow those of the default. The command is not
  empty: it is the requested entrypoint, or the image's where none is requested, followed by the requested
  arguments, or the image's. The environment is the default PATH followed by the requested variables, or
  the image's. The process runs as the numeric user of the image and in its directory, where it has them.
\<close>

theorem runtime_spec_confined:
  assumes "create_runtime_spec rt im entrypoint cmd env = Ok sp" and "builders_keep rt"
  shows "im_architecture im = Amd64 \<and> sp_hostname sp = Some (ascii ''programexplorer'') \<and>
    (\<exists>lx ns. sp_linux sp = Some lx \<and>
       lx_uid_mappings lx = Some [\<lparr>idm_host_id = 1000, idm_container_id = 0, idm_size = 65534\<rparr>] \<and>
       lx_gid_mappings lx = lx_uid_mappings lx \<and> seccomp_policy rt \<noteq> None \<and> lx_seccomp lx = seccomp_policy rt \<and>
       lx_namespaces lx = Some ns \<and> NsNetwork \<in> ns_typ ` set ns) \<and>
    (\<exists>ms. sp_mounts (rootless rt UID UID) = Some ms \<and> sp_mounts sp = Some (ms @ pe_mounts)) \<and>
    (\<exists>p. sp_process sp = Some p \<and> command_asked im entrypoint cmd env p \<and> user_and_cwd_of (build_user rt) im p)"
proof -
  obtain lx mounts p p' where lx: "confine_linux rt (sp_linux (rootless rt UID UID)) = Ok lx"
    and mounts: "add_mounts rt (sp_mounts (rootless rt UID UID)) = Ok mounts"
    and p': "set_user_and_cwd rt (im_config im) (p\<lparr>pr_args := Some (resolve_args (im_config im) entrypoint cmd),
        pr_env := Some (resolve_env (im_config im) env)\<rparr>) = Ok p'"
    and rest: "im_architecture im = Amd64" "resolve_args (im_config im) entrypoint cmd \<noteq> []"
      "sp = (rootless rt UID UID)\<lparr>sp_hostname := Some (ascii ''programexplorer''), sp_linux := Some lx,
         sp_mounts := Some mounts, sp_process := Some p'\<rparr>"
    using assms(1) by (auto simp: create_runtime_spec_def Let_def result_simps split: if_splits)
  have "seccomp_policy rt \<noteq> None"
    using lx by (auto simp: confine_linux_def result_simps)
  moreover have "command_asked im entrypoint cmd env p'"
    by (rule command_asked_parts) (simp_all add: set_user_and_cwd_keeps [OF p'] rest(2))
  ultimately show ?thesis
    using rest confine_linux_ok [OF lx assms(2)] add_mounts_ok [OF mounts assms(2)] user_and_cwd_set [OF p']
    by auto
qed

definition plain_runtime :: "unit oci_runtime" where
  "plain_runtime =
     \<lparr>rootless = (\<lambda>u g. \<lparr>sp_hostname = None,
        sp_linux = Some \<lparr>lx_uid_mappings = None, lx_gid_mappings = None, lx_namespaces = Some [], lx_seccomp = None\<rparr>,
        sp_mounts = Some [],
        sp_process = Some \<lparr>pr_args = None, pr_env = None, pr_user = \<lparr>us_uid = u, us_gid = g\<rparr>, pr_cwd = ascii ''/''\<rparr>\<rparr>),
      seccomp_policy = Some (),
      build_id_mapping = (\<lambda>h c n. Some \<lparr>idm_host_id = h, idm_container_id = c, idm_size = n\<rparr>),
      build_namespace = (\<lambda>t. Some \<lparr>ns_typ = t\<rparr>),
      build_mount = (\<lambda>d t s os. Some \<lparr>mt_destination = d, mt_typ = Some t, mt_source = s, mt_options = Some os\<rparr>),
      build_user = (\<lambda>u g. Some \<lparr>us_uid = u, us_gid = g\<rparr>)\<rparr>"

definition busybox :: image_configuration where
  "busybox =
     \<lparr>im_architecture = Amd64, im_os = OsLinux,
      im_config = Some \<lparr>ic_user = Some (ascii ''7:8''), ic_exposed_ports = None, ic_env = Some [ascii ''A=1''],
        ic_entrypoint = None, ic_cmd = Some [ascii ''sh''], ic_working_dir = Some (ascii ''/w''), ic_stop_signal = None\<rparr>\<rparr>"

lemma plain_runtime_keeps: "builders_keep plain_runtime"
  by (simp add: builders_keep_def plain_runtime_def)

lemma busybox_spec:
  "\<exists>sp p. create_runtime_spec plain_runtime busybox None None None = Ok sp \<and> sp_process sp = Some p \<and>
     pr_user p = \<lparr>us_uid = 7, us_gid = 8\<rparr> \<and> pr_cwd p = ascii ''/w''"
  by (simp add: create_runtime_spec_def plain_runtime_def busybox_def confine_linux_def add_mounts_def unwrap_def
      resolve_args_def set_user_and_cwd_def parse_user_string_def parse_u32_def parse_unsigned_def digit_value_def split_once_def
      ascii_def Let_def)

theorem runtime_spec_confined_witness:
  "\<exists>sp p. create_runtime_spec plain_runtime busybox None None None = Ok sp \<and> sp_process sp = Some p \<and>
     pr_args p = Some [ascii ''sh''] \<and> pr_env p = Some [default_path, ascii ''A=1'']"
proof -
  obtain sp where sp: "create_runtime_spec plain_runtime busybox None None None = Ok sp"
    using busybox_spec by blast
  show ?thesis
    using sp runtime_spec_confined [OF sp plain_runtime_keeps]
    by (auto simp: command_asked_def image_part_def default_path_def busybox_def)
qed

end
