(* ===== verification/Cpu_Sets.thy ===== *)
theory Cpu_Sets
  imports Str_Ops
begin

text \<open>
  Which cores the server and its workers run on: the arguments of \<open>peserver/src/worker.rs\<close> and the sets
  of \<open>perunner/src/worker.rs\<close>. A \<open>CpuSet\<close> of the crate \<open>rustix\<close> is the set of its cores; \<open>affinity\<close> is the
  result of \<open>sched_getaffinity\<close>. Core numbers are far below the range of \<open>usize\<close>.
\<close>

section \<open>Arguments\<close>

definition parse_usize :: "bytes \<Rightarrow> nat option" where
  "parse_usize s = parse_unsigned (2 ^ 64) s"

text \<open>Pieces behind the third are not looked at.\<close>

definition parse_cpuset_colon :: "bytes \<Rightarrow> (nat \<times> nat \<times> nat) option" where
  "parse_cpuset_colon x =
     (case split_all 0x3a x of
        a # b # c # _ \<Rightarrow>
          Option.bind (parse_usize a) (\<lambda>a'. Option.bind (parse_usize b) (\<lambda>b'.
          Option.bind (parse_usize c) (\<lambda>c'. Some (a', b', c'))))
      | _ \<Rightarrow> None)"

definition parse_cpuset_range :: "bytes \<Rightarrow> (nat \<times> nat option) option" where
  "parse_cpuset_range x =
     (case split_all 0x2d x of
        a # parts \<Rightarrow>
          Option.bind (parse_usize a) (\<lambda>a'.
            case parts of
              [] \<Rightarrow> Some (a', None)
            | b # _ \<Rightarrow> if b = [] then Some (a', None) else map_option (\<lambda>b'. (a', Some b')) (parse_usize b))
      | [] \<Rightarrow> None)"

section \<open>Sets of cores\<close>

fun cpuset_cores :: "nat set \<Rightarrow> nat list \<Rightarrow> nat set \<Rightarrow> nat set option" where
  "cpuset_cores allowed [] c = Some c"
| "cpuset_cores allowed (k # ks) c =
     (if k \<notin> allowed then None else cpuset_cores allowed ks (insert k c))"

fun cpuset_workers :: "nat set \<Rightarrow> nat \<Rightarrow> nat \<Rightarrow> nat list \<Rightarrow> nat set list option" where
  "cpuset_workers allowed core_offset n [] = Some []"
| "cpuset_workers allowed core_offset n (i # is) =
     Option.bind (cpuset_cores allowed (map (\<lambda>j. core_offset + i * n + j) [0..<n]) {}) (\<lambda>c.
     Option.bind (cpuset_workers allowed core_offset n is) (\<lambda>cs. Some (c # cs)))"

definition cpuset :: "nat set option \<Rightarrow> nat \<Rightarrow> nat \<Rightarrow> nat \<Rightarrow> nat set list option" where
  "cpuset affinity core_offset n_workers n_cores_per_worker =
     (if core_offset mod 2 = 1 then None
      else if n_cores_per_worker mod 2 = 1 then None
      else Option.bind affinity (\<lambda>allowed.
        cpuset_workers allowed core_offset n_cores_per_worker [0..<n_workers]))"

definition cpuset_range :: "nat set option \<Rightarrow> nat \<Rightarrow> nat option \<Rightarrow> nat set option" where
  "cpuset_range affinity begn end' =
     Option.bind affinity (\<lambda>allowed.
       case end' of
         Some e \<Rightarrow> if begn > e then None else cpuset_cores allowed [begn..<Suc e] {}
       | None \<Rightarrow> Some (set (filter (\<lambda>i. i \<in> allowed) [begn..<card allowed])))"

section \<open>Lemmas\<close>

lemma cpuset_cores_run:
  "cpuset_cores allowed ks c = (if set ks \<subseteq> allowed then Some (set ks \<union> c) else None)"
  by (induction ks arbitrary: c) auto

definition core_block :: "nat \<Rightarrow> nat \<Rightarrow> nat \<Rightarrow> nat set" where
  "core_block off n i = {off + i * n..<off + i * n + n}"

lemma cpuset_block:
  "cpuset_cores allowed (map (\<lambda>j. off + i * n + j) [0..<n]) {} =
     (if core_block off n i \<subseteq> allowed then Some (core_block off n i) else None)"
proof -
  have "set (map (\<lambda>j. off + i * n + j) [0..<n]) = core_block off n i"
    using image_add_atLeastLessThan [of "off + i * n" 0 n]
    by (simp only: set_map set_upt add_0 add.commute [of n "off + i * n"] core_block_def)
  then show ?thesis by (simp only: cpuset_cores_run Un_empty_right)
qed

lemma cpuset_workers_run:
  "cpuset_workers allowed off n is =
     (if \<forall>i \<in> set is. core_block off n i \<subseteq> allowed then Some (map (core_block off n) is) else None)"
  by (induction "is") (simp_all add: cpuset_block)

lemma even_interval: "even a \<Longrightarrow> even n \<Longrightarrow> 2 * k \<in> {a..<a + n} \<longleftrightarrow> 2 * k + 1 \<in> {a..<a + n :: nat}"
  by (elim evenE) (simp, presburger)

text \<open>
  (C23) The workers of a pool share no core: worker \<open>i\<close> gets the \<open>i\<close>-th block of cores behind the offset, all
  of them allowed, blocks of different workers are disjoint, and the two threads of a physical core
  (an even number and its successor) belong to the same worker.
\<close>

theorem cpusets_disjoint:
  assumes "cpuset affinity off w n = Some cs"
  shows "length cs = w \<and> (\<forall>i. i < w \<longrightarrow> cs ! i = {off + i * n..<off + i * n + n}) \<and>
    (\<exists>allowed. affinity = Some allowed \<and> \<Union> (set cs) \<subseteq> allowed) \<and>
    (\<forall>i j. i < w \<longrightarrow> j < w \<longrightarrow> i \<noteq> j \<longrightarrow> cs ! i \<inter> cs ! j = {}) \<and>
    (\<forall>c \<in> set cs. \<forall>k. 2 * k \<in> c \<longleftrightarrow> 2 * k + 1 \<in> c)"
proof -
  obtain allowed where allowed: "affinity = Some allowed" "cs = map (core_block off n) [0..<w]"
    "\<forall>c \<in> set cs. c \<subseteq> allowed" and even: "even off" "even n"
    using assms by (auto simp: cpuset_def bind_eq_Some_conv cpuset_workers_run even_iff_mod_2_eq_zero split: if_splits)
  have blocks: "cs ! i = {off + i * n..<off + i * n + n}" if "i < w" for i
    using that allowed(2) by (simp add: core_block_def)
  have "cs ! i \<inter> cs ! j = {}" if "i < w" "j < w" "i < j" for i j
  proof -
    have "Suc i * n \<le> j * n" using that(3) by (intro mult_le_mono1) simp
    then show ?thesis using blocks that by auto
  qed
  then have disjoint: "cs ! i \<inter> cs ! j = {}" if "i < w" "j < w" "i \<noteq> j" for i j
    using that by (metis Int_commute linorder_neqE_nat)
  have pairs: "2 * k \<in> c \<longleftrightarrow> 2 * k + 1 \<in> c" if c: "c \<in> set cs" for c k
  proof -
    obtain i where "c = core_block off n i" using c allowed(2) by auto
    then show ?thesis using even_interval [of "off + i * n" n k] even by (simp add: core_block_def)
  qed
  have "length cs = w" "\<Union> (set cs) \<subseteq> allowed" using allowed(2,3) by (simp, blast)
  then show ?thesis
    using allowed(1) by (intro conjI allI impI ballI exI [of _ allowed]) (assumption | erule blocks disjoint pairs | rule blocks disjoint pairs)+
qed

lemma cpusets_disjoint_witness:
  "\<exists>cs. cpuset (Some {0..<8}) 4 2 2 = Some cs \<and> length cs = 2 \<and> cs ! 0 \<inter> cs ! 1 = {}"
proof -
  have "cpuset (Some {0..<8}) 4 2 2 = Some (map (core_block 4 2) [0..<2])"
    by (auto simp: cpuset_def cpuset_workers_run core_block_def)
  then obtain cs where cs: "cpuset (Some {0..<8}) 4 2 2 = Some cs" by blast
  note all = cpusets_disjoint [OF cs]
  have "length cs = 2" by (rule conjunct1 [OF all])
  moreover have disjoint: "\<forall>i j. i < 2 \<longrightarrow> j < 2 \<longrightarrow> i \<noteq> j \<longrightarrow> cs ! i \<inter> cs ! j = {}"
    by (rule all [THEN conjunct2, THEN conjunct2, THEN conjunct2, THEN conjunct1])
  moreover have "cs ! 0 \<inter> cs ! 1 = {}" using disjoint [rule_format, of 0 1] by simp
  ultimately show ?thesis using cs by blast
qed

lemma cpuset_range_exact:
  "cpuset_range affinity a (Some b) = Some c \<longleftrightarrow>
     a \<le> b \<and> (\<exists>allowed. affinity = Some allowed \<and> {a..b} \<subseteq> allowed) \<and> c = {a..b}"
  by (auto simp: cpuset_range_def bind_eq_Some_conv cpuset_cores_run atLeastLessThanSuc_atLeastAtMost simp del: upt_Suc)

text \<open>
  Without an end the range stops at the number of allowed cores, not behind the last of them: cores with
  higher numbers are left out.
\<close>

lemma open_range_stops_at_count:
  "cpuset_range (Some {0, 1, 8, 9}) 2 None = Some {}"
  by code_simp

text \<open>Both arguments accept trailing pieces.\<close>

lemma trailing_pieces_accepted:
  "parse_cpuset_range (ascii ''4-8-x'') = Some (4, Some 8)"
  "parse_cpuset_colon (ascii ''4:2:2:x'') = Some (4, 2, 2)"
  by (simp_all add: parse_cpuset_range_def parse_cpuset_colon_def parse_usize_def parse_unsigned_def digit_value_def ascii_def)

end
