(* ===== verification/Waitid.thy ===== *)
theory Waitid
  imports Io_File State_Ops
begin

text \<open>
  Waiting for a process with a time limit (\<open>waitid_timeout/src/lib.rs\<close>) and the response a guest makes
  of the outcome (\<open>peinit/src/main.rs\<close>). The system calls and the crates \<open>mio\<close> and \<open>mio_pidfd\<close> are
  arguments.
\<close>

section \<open>Waiting\<close>

record siginfo_t =
  si_pid :: int
  si_code :: int
  si_status :: int

datatype wait_error = WaitOs int | WaitFdConversion

datatype waitid_data = WdExited siginfo_t rusage | WdNotExited

datatype waitid_data_overtime =
    WoExited siginfo_t rusage | WoExitedOvertime siginfo_t rusage | WoNotExited

datatype siginfo =
    SigExited int | SigKilled int | SigDumped int | SigTrapped int | SigStopped int | SigContinued int | SigUnk

definition CLD_EXITED :: int where "CLD_EXITED = 1"
definition CLD_KILLED :: int where "CLD_KILLED = 2"
definition CLD_DUMPED :: int where "CLD_DUMPED = 3"
definition CLD_TRAPPED :: int where "CLD_TRAPPED = 4"
definition CLD_STOPPED :: int where "CLD_STOPPED = 5"
definition CLD_CONTINUED :: int where "CLD_CONTINUED = 6"

lemmas CLD_defs = CLD_EXITED_def CLD_KILLED_def CLD_DUMPED_def CLD_TRAPPED_def CLD_STOPPED_def CLD_CONTINUED_def

definition siginfo_of :: "siginfo_t \<Rightarrow> siginfo" where
  "siginfo_of x =
     (let status = si_status x; code = si_code x
      in if code = CLD_EXITED then SigExited status
         else if code = CLD_KILLED then SigKilled status
         else if code = CLD_DUMPED then SigDumped status
         else if code = CLD_TRAPPED then SigTrapped status
         else if code = CLD_STOPPED then SigStopped status
         else if code = CLD_CONTINUED then SigContinued status
         else SigUnk)"

datatype idtype = P_PID | P_PIDFD

datatype wait_option = WEXITED | WNOHANG

text \<open>
  \<open>waitid\<close> returns a code, with the error in \<open>errno\<close>, and fills in the two structures; \<open>poll\<close> waits for
  the process to become readable and tells whether it did.
\<close>

record 'k wait_sys =
  ws_waitid :: "idtype \<Rightarrow> u32 \<Rightarrow> wait_option list \<Rightarrow> 'k \<Rightarrow> (siginfo_t \<times> rusage, int) result \<times> 'k"
  ws_poll :: "nat \<Rightarrow> 'k \<Rightarrow> (bool, int) result \<times> 'k"
  ws_kill :: "int \<Rightarrow> 'k \<Rightarrow> (unit, int) result \<times> 'k"
  ws_register :: "'k \<Rightarrow> (unit, int) result \<times> 'k"
  ws_pidfd_new :: "'k \<Rightarrow> (int, int) result \<times> 'k"

definition SIGKILL :: int where "SIGKILL = 9"

definition os_call :: "('k \<Rightarrow> ('a, int) result \<times> 'k) \<Rightarrow> ('a, wait_error, 'k) st" where
  "os_call call k = (case call k of (r, k') \<Rightarrow> (map_err WaitOs r, k'))"

definition waitid :: "'k wait_sys \<Rightarrow> idtype \<Rightarrow> u32 \<Rightarrow> wait_option list \<Rightarrow> (waitid_data, wait_error, 'k) st" where
  "waitid sys idt pid options =
     st_bind (os_call (ws_waitid sys idt pid options)) (\<lambda>(si, ru).
       st_ok (if si_pid si = 0 then WdNotExited else WdExited si ru))"

definition pidfd_to_u32 :: "int \<Rightarrow> (u32, wait_error, 'k) st" where
  "pidfd_to_u32 fd = (if 0 \<le> fd then st_ok (of_int fd) else st_err WaitFdConversion)"

definition waitid_pidfd_exited_nohang :: "'k wait_sys \<Rightarrow> int \<Rightarrow> (waitid_data, wait_error, 'k) st" where
  "waitid_pidfd_exited_nohang sys pidfd =
     st_bind (pidfd_to_u32 pidfd) (\<lambda>fd. waitid sys P_PIDFD fd [WEXITED, WNOHANG])"

definition waitid_pidfd_exited_hang :: "'k wait_sys \<Rightarrow> int \<Rightarrow> (waitid_data, wait_error, 'k) st" where
  "waitid_pidfd_exited_hang sys pidfd =
     st_bind (pidfd_to_u32 pidfd) (\<lambda>fd. waitid sys P_PIDFD fd [WEXITED])"

definition waitid_pid_exited_nohang :: "'k wait_sys \<Rightarrow> u32 \<Rightarrow> (waitid_data, wait_error, 'k) st" where
  "waitid_pid_exited_nohang sys pid = waitid sys P_PID pid [WEXITED, WNOHANG]"

definition waiter_new :: "'k wait_sys \<Rightarrow> (unit, wait_error, 'k) st" where
  "waiter_new sys = os_call (ws_register sys)"

definition waiter_kill :: "'k wait_sys \<Rightarrow> int \<Rightarrow> (unit, wait_error, 'k) st" where
  "waiter_kill sys signal = os_call (ws_kill sys signal)"

definition wait_timeout :: "'k wait_sys \<Rightarrow> int \<Rightarrow> nat \<Rightarrow> (waitid_data, wait_error, 'k) st" where
  "wait_timeout sys pidfd duration =
     st_bind (os_call (ws_poll sys duration)) (\<lambda>event.
       if \<not> event then st_ok WdNotExited else waitid_pidfd_exited_nohang sys pidfd)"

definition wait_timeout_or_kill :: "'k wait_sys \<Rightarrow> int \<Rightarrow> nat \<Rightarrow> (waitid_data_overtime, wait_error, 'k) st" where
  "wait_timeout_or_kill sys pidfd duration =
     st_bind (wait_timeout sys pidfd duration) (\<lambda>d.
       case d of
         WdNotExited \<Rightarrow>
           st_seq (waiter_kill sys SIGKILL)
           (st_bind (waitid_pidfd_exited_hang sys pidfd) (\<lambda>d'.
              st_ok (case d' of WdExited si ru \<Rightarrow> WoExitedOvertime si ru | WdNotExited \<Rightarrow> WoNotExited)))
       | WdExited si ru \<Rightarrow> st_ok (WoExited si ru))"

definition child_wait_timeout :: "'k wait_sys \<Rightarrow> nat \<Rightarrow> (waitid_data, wait_error, 'k) st" where
  "child_wait_timeout sys duration =
     st_bind (os_call (ws_pidfd_new sys)) (\<lambda>pidfd. st_seq (waiter_new sys) (wait_timeout sys pidfd duration))"

definition child_wait_timeout_or_kill :: "'k wait_sys \<Rightarrow> nat \<Rightarrow> (waitid_data_overtime, wait_error, 'k) st" where
  "child_wait_timeout_or_kill sys duration =
     st_bind (os_call (ws_pidfd_new sys)) (\<lambda>pidfd. st_seq (waiter_new sys) (wait_timeout_or_kill sys pidfd duration))"

text \<open>What every call of the kernel keeps is kept by a wait.\<close>

definition wait_keeps :: "('k \<Rightarrow> bool) \<Rightarrow> 'k wait_sys \<Rightarrow> bool" where
  "wait_keeps I sys \<longleftrightarrow>
     (\<forall>t i os. st_keeps I (ws_waitid sys t i os)) \<and> (\<forall>d. st_keeps I (ws_poll sys d)) \<and> (\<forall>s. st_keeps I (ws_kill sys s)) \<and>
     st_keeps I (ws_register sys) \<and> st_keeps I (ws_pidfd_new sys)"

lemma keeps_os_call: "st_keeps I m \<Longrightarrow> st_keeps I (os_call m)"
  by (auto simp: st_keeps_def os_call_def split: prod.split)

lemma keeps_waiting:
  assumes "wait_keeps I sys"
  shows "st_keeps I (wait_timeout_or_kill sys pidfd d)" "st_keeps I (waiter_new sys)" "st_keeps I (os_call (ws_pidfd_new sys))"
    "st_keeps I (child_wait_timeout_or_kill sys d)"
proof -
  note ws = assms [unfolded wait_keeps_def]
  have fd: "st_keeps I (pidfd_to_u32 p)" for p by (simp add: pidfd_to_u32_def keeps_basic)
  have wait: "st_keeps I (waitid sys t i os)" for t i os
    unfolding waitid_def using ws by (auto intro!: keeps_intros intro: keeps_os_call)
  show run: "st_keeps I (wait_timeout_or_kill sys pidfd d)" for pidfd
    unfolding wait_timeout_or_kill_def wait_timeout_def waiter_kill_def waitid_pidfd_exited_nohang_def
      waitid_pidfd_exited_hang_def using ws
    by (auto intro!: keeps_intros wait fd keeps_os_call split: waitid_data.split)
  show new: "st_keeps I (waiter_new sys)" "st_keeps I (os_call (ws_pidfd_new sys))"
    unfolding waiter_new_def using ws by (auto intro: keeps_os_call)
  show "st_keeps I (child_wait_timeout_or_kill sys d)"
    unfolding child_wait_timeout_or_kill_def by (intro keeps_intros run new)
qed

text \<open>An exit is reported when the process became readable within the time and is then found to have ended.\<close>

lemma child_wait_exited:
  assumes "child_wait_timeout_or_kill sys d k = (Ok (WoExited si ru), k')"
  shows "\<exists>n k1 k2. ws_poll sys d k1 = (Ok True, k2) \<and> ws_waitid sys P_PIDFD n [WEXITED, WNOHANG] k2 = (Ok (si, ru), k') \<and> si_pid si \<noteq> 0"
proof -
  obtain pidfd k1 where run: "wait_timeout_or_kill sys pidfd d k1 = (Ok (WoExited si ru), k')"
    using assms by (auto simp: child_wait_timeout_or_kill_def st_bind_Ok st_seq_Ok)
  obtain r k2 where r: "wait_timeout sys pidfd d k1 = (r, k2)" by fastforce
  have "r = Ok (WdExited si ru) \<and> k2 = k'"
  proof (cases r)
    case (Ok x)
    then show ?thesis using run r
      by (cases x) (auto simp: wait_timeout_or_kill_def st_bind_def st_seq_def st_run split: prod.splits result.splits waitid_data.splits)
  qed (use run r in \<open>simp add: wait_timeout_or_kill_def st_bind_def\<close>)
  with r have "wait_timeout sys pidfd d k1 = (Ok (WdExited si ru), k')" by simp
  then show ?thesis
    by (auto simp: wait_timeout_def st_bind_Ok st_run waitid_pidfd_exited_nohang_def waitid_def pidfd_to_u32_def os_call_def
        result_simps split: if_split_asm prod.split_asm)
qed

section \<open>The response of the guest\<close>

definition siginfo_redux_of :: "siginfo_t \<Rightarrow> siginfo_redux" where
  "siginfo_redux_of x =
     (let status = si_status x; code = si_code x
      in if code = CLD_EXITED then SiExited status
         else if code = CLD_KILLED then SiKilled status
         else if code = CLD_DUMPED then SiDumped status
         else if code = CLD_TRAPPED then SiTrapped status
         else if code = CLD_CONTINUED then SiContinued status
         else SiUnk status code)"

text \<open>\<open>read\<close> stands for \<open>read_if_exists_max_len_lossy\<close> on the two output files, \<open>debug\<close> for the format of an error.\<close>

definition guest_response ::
    "(wait_error \<Rightarrow> bytes) \<Rightarrow> (bytes \<Rightarrow> nat \<Rightarrow> bytes option) \<Rightarrow> config \<Rightarrow>
       (waitid_data_overtime, wait_error) result \<Rightarrow> response" where
  "guest_response debug read cf container_output =
     (let (stdout, stderr) =
            (case cf_response_format cf of
               PeArchiveV1 \<Rightarrow> (None, None)
             | JsonV1 \<Rightarrow> (read (ascii ''/run/output/stdout'') 1024, read (ascii ''/run/output/stderr'') 1024))
      in case container_output of
           Err e \<Rightarrow> RespPanic (debug e)
         | Ok WoNotExited \<Rightarrow> RespPanic (ascii ''ch not exited overtime'')
         | Ok (WoExited si ru) \<Rightarrow> RespOk (siginfo_redux_of si) ru stdout stderr (cf_manifest_digest cf)
         | Ok (WoExitedOvertime si ru) \<Rightarrow> RespOvertime (siginfo_redux_of si) ru stdout stderr (cf_manifest_digest cf))"

section \<open>What a response tells\<close>

text \<open>
  (C8) A response tells what happened to the process: \<open>Ok\<close> means that it ended by itself and was never
  killed, \<open>Overtime\<close> that it was killed once, after the time was over. When a blocking wait returns only
  for an ended process, the response never claims that the killed process is still there.
\<close>

theorem response_tells_kill:
  fixes kills :: "'k \<Rightarrow> nat"
  assumes poll: "\<And>d k r k'. ws_poll sys d k = (r, k') \<Longrightarrow> kills k' = kills k"
    and wait: "\<And>t i os k r k'. ws_waitid sys t i os k = (r, k') \<Longrightarrow> kills k' = kills k"
    and kill: "\<And>s k k'. ws_kill sys s k = (Ok (), k') \<Longrightarrow> kills k' = kills k + 1"
    and blocking: "\<And>t i k si ru k'. ws_waitid sys t i [WEXITED] k = (Ok (si, ru), k') \<Longrightarrow> si_pid si \<noteq> 0"
    and run: "wait_timeout_or_kill sys pidfd duration k = (outcome, k')"
  shows "case guest_response debug read cf outcome of
      RespOk _ _ _ _ _ \<Rightarrow> kills k' = kills k
    | RespOvertime _ _ _ _ _ \<Rightarrow> kills k' = kills k + 1
    | RespPanic message \<Rightarrow> \<exists>e. outcome = Err e \<and> message = debug e"
proof -
  have waitid: "kills j' = kills j" if "waitid sys t i os j = (r, j')" for t i os j r j'
    using that wait[of t i os j]
    by (auto simp: waitid_def os_call_def st_bind_def st_run split: prod.splits result.splits)
  have nohang: "kills j' = kills j" if "waitid_pidfd_exited_nohang sys pidfd j = (r, j')" for j r j'
    using that waitid by (auto simp: waitid_pidfd_exited_nohang_def pidfd_to_u32_def st_run split: if_splits)
  have timeout: "kills j' = kills j" if "wait_timeout sys pidfd duration j = (r, j')" for j r j'
    using that nohang poll[of duration j]
    by (auto simp: wait_timeout_def os_call_def st_bind_def st_run split: prod.splits result.splits if_splits)
  have hang: "kills j' = kills j \<and> r \<noteq> Ok WdNotExited" if "waitid_pidfd_exited_hang sys pidfd j = (r, j')" for j r j'
    using that wait[of P_PIDFD _ "[WEXITED]" j] blocking[of P_PIDFD _ j]
    by (auto simp: result_simps waitid_pidfd_exited_hang_def waitid_def os_call_def pidfd_to_u32_def st_bind_def st_run
        split: prod.splits result.splits if_splits)
  obtain r k1 where k1: "wait_timeout sys pidfd duration k = (r, k1)" by fastforce
  show ?thesis
  proof (cases r)
    case (Err e)
    then show ?thesis using run k1
      by (auto simp: wait_timeout_or_kill_def st_bind_def guest_response_def split: prod.split response_format.split)
  next
    case (Ok d)
    show ?thesis
    proof (cases d)
      case (WdExited si ru)
      then show ?thesis using run k1 Ok timeout[OF k1]
        by (auto simp: wait_timeout_or_kill_def st_bind_def st_run guest_response_def split: prod.split response_format.split)
    next
      case WdNotExited
      obtain r2 k2 where k2: "ws_kill sys SIGKILL k1 = (r2, k2)" by fastforce
      obtain r3 k3 where k3: "waitid_pidfd_exited_hang sys pidfd k2 = (r3, k3)" by fastforce
      show ?thesis
        using run k1 Ok WdNotExited k2 k3 timeout[OF k1] kill[of SIGKILL k1 k2] hang[OF k3]
        by (cases r2; cases r3)
          (auto simp: wait_timeout_or_kill_def waiter_kill_def os_call_def st_seq_def st_bind_def st_run guest_response_def
            split: prod.split response_format.split waitid_data.split)
    qed
  qed
qed

text \<open>
  A stopped process is reported as stopped by one of the two translations of \<open>siginfo_t\<close> and as
  unknown by the other, although both have a constructor for it.
\<close>

lemma stopped_is_unknown:
  "siginfo_of \<lparr>si_pid = p, si_code = CLD_STOPPED, si_status = s\<rparr> = SigStopped s \<and>
   siginfo_redux_of \<lparr>si_pid = p, si_code = CLD_STOPPED, si_status = s\<rparr> = SiUnk s CLD_STOPPED \<and>
   (\<forall>x n. siginfo_redux_of x \<noteq> SiStopped n)"
  by (simp add: siginfo_of_def siginfo_redux_of_def CLD_defs Let_def)

section \<open>Instances\<close>

text \<open>A kernel whose state counts the kills; the process ends by itself after five units of time.\<close>

definition counting_sys :: "nat wait_sys" where
  "counting_sys =
     \<lparr>ws_waitid = (\<lambda>_ _ _ k. (Ok (\<lparr>si_pid = 42, si_code = CLD_EXITED, si_status = 0\<rparr>,
          \<lparr>ru_utime = \<lparr>tv_sec = 0, tv_usec = 0\<rparr>, ru_stime = \<lparr>tv_sec = 0, tv_usec = 0\<rparr>, ru_maxrss = 0, ru_ixrss = 0,
           ru_idrss = 0, ru_isrss = 0, ru_minflt = 0, ru_majflt = 0, ru_nswap = 0, ru_inblock = 0, ru_oublock = 0,
           ru_msgsnd = 0, ru_msgrcv = 0, ru_nsignals = 0, ru_nvcsw = 0, ru_nivcsw = 0\<rparr>), k)),
      ws_poll = (\<lambda>d k. (Ok (5 \<le> d), k)), ws_kill = (\<lambda>_ k. (Ok (), k + 1)), ws_register = (\<lambda>k. (Ok (), k)),
      ws_pidfd_new = (\<lambda>k. (Ok 3, k))\<rparr>"

lemma response_tells_kill_witness:
  "\<forall>cf. \<exists>outcome. wait_timeout_or_kill counting_sys 3 2 0 = (outcome, 1) \<and>
     (case guest_response (\<lambda>_. []) (\<lambda>_ _. None) cf outcome of
        RespOk _ _ _ _ _ \<Rightarrow> (1 :: nat) = 0 | RespOvertime _ _ _ _ _ \<Rightarrow> 1 = (0 :: nat) + 1
      | RespPanic message \<Rightarrow> \<exists>e. outcome = Err e \<and> message = [])"
proof -
  have run: "wait_timeout_or_kill counting_sys 3 2 0 = (fst (wait_timeout_or_kill counting_sys 3 2 0), 1)"
    by (simp add: wait_timeout_or_kill_def wait_timeout_def waiter_kill_def waitid_pidfd_exited_hang_def waitid_def
        pidfd_to_u32_def os_call_def st_seq_def st_bind_def st_run counting_sys_def)
  show ?thesis
    by (rule allI, rule exI[of _ "fst (wait_timeout_or_kill counting_sys 3 2 0)"], rule conjI[OF run],
      rule response_tells_kill[OF _ _ _ _ run, where kills = "\<lambda>k. k"]) (auto simp: counting_sys_def)
qed

end
