(* ===== verification/Hypervisor.thy ===== *)
theory Hypervisor
  imports Waitid
begin

text \<open>
  One run of a virtual machine on the host: the memory file that carries a request
  (\<open>perunner/src/iofile.rs\<close>), the command line of the hypervisor (\<open>perunner/src/cloudhypervisor.rs\<close>) and
  the function that starts it, waits and reports (\<open>perunner/src/worker.rs\<close>). System calls, temporary files
  and the start of a process are arguments.
\<close>

section \<open>The io file\<close>

definition PMEM_ALIGN_SIZE :: nat where "PMEM_ALIGN_SIZE = 0x200000"

text \<open>\<open>div_ceil\<close> and a product in \<open>u64\<close>.\<close>

definition round_up_size :: "nat \<Rightarrow> nat \<Rightarrow> nat" where
  "round_up_size n x = (if x = 0 then n else (x + n - 1) div n * n mod 2 ^ 64)"

datatype seal = SealShrink | SealGrow | SealSeal

text \<open>The file is its bytes and position; the calls are those of the crate \<open>rustix\<close>.\<close>

record 'e memfd_sys =
  ms_memfd_create :: "(writer, 'e) result"
  ms_fstat_size :: "writer \<Rightarrow> (int, 'e) result"
  ms_ftruncate :: "nat \<Rightarrow> (unit, 'e, writer) st"
  ms_add_seals :: "seal list \<Rightarrow> (unit, 'e, writer) st"

definition io_file_builder_new :: "'e memfd_sys \<Rightarrow> (writer, 'e) result" where
  "io_file_builder_new sys = ms_memfd_create sys"

definition round_up_file_to_pmem_size :: "'e memfd_sys \<Rightarrow> (nat, 'e, writer) st" where
  "round_up_file_to_pmem_size sys =
     st_bind (\<lambda>f. (ms_fstat_size sys f, f)) (\<lambda>st_size.
       let cur = (if 0 \<le> st_size then nat st_size else 0); newlen = round_up_size PMEM_ALIGN_SIZE cur
       in if cur \<noteq> newlen then st_seq (ms_ftruncate sys newlen) (st_ok newlen) else st_ok newlen)"

definition io_file_builder_finish :: "'e memfd_sys \<Rightarrow> (unit, 'e, writer) st" where
  "io_file_builder_finish sys =
     st_bind (round_up_file_to_pmem_size sys) (\<lambda>_.
     st_seq (ms_add_seals sys [SealShrink, SealGrow]) (ms_add_seals sys [SealSeal]))"

section \<open>The command\<close>

text \<open>\<open>ChPanic\<close> stands for the panic of an \<open>unwrap\<close>; the other values are those of \<open>Error\<close>.\<close>

datatype ch_error =
    ChUnk | TempfileSetup | Spawn | SpawnWithArgs "bytes list" | Socket | ChOvertime | ChWait | BadExit | FdSetup
  | ChPanic

datatype ch_log_level = LogWarn | LogInfo | LogDebug | LogTrace

definition ch_log_level_of :: "bytes \<Rightarrow> ch_log_level option" where
  "ch_log_level_of x =
     (if x = ascii ''warn'' then Some LogWarn
      else if x = ascii ''info'' then Some LogInfo
      else if x = ascii ''debug'' then Some LogDebug
      else if x = ascii ''trace'' then Some LogTrace else None)"

datatype pmem_mode = PmemReadOnly | PmemReadWrite

fun discard_writes :: "pmem_mode \<Rightarrow> bytes" where
  "discard_writes PmemReadOnly = ascii ''on''"
| "discard_writes PmemReadWrite = ascii ''off''"

datatype 'fd path_or_fd = PathBuf bytes | OwnedFd 'fd

fun path_or_fd_try_clone :: "('fd \<Rightarrow> 'fd option) \<Rightarrow> 'fd path_or_fd \<Rightarrow> 'fd path_or_fd option" where
  "path_or_fd_try_clone dup (PathBuf p) = Some (PathBuf p)"
| "path_or_fd_try_clone dup (OwnedFd fd) = map_option OwnedFd (dup fd)"

record ch_config =
  cc_bin :: bytes
  cc_kernel :: bytes
  cc_initramfs :: bytes
  cc_console :: bool
  cc_log_level :: "ch_log_level option"
  cc_keep_args :: bool
  cc_event_monitor :: bool

text \<open>Files are named by their paths.\<close>

record 'child cloud_hypervisor =
  ch_log_file :: "bytes option"
  ch_con_file :: "bytes option"
  ch_err_file :: bytes
  ch_child :: 'child
  ch_args :: "bytes list"

record ch_logs =
  cl_log_file :: "bytes option"
  cl_con_file :: "bytes option"
  cl_err_file :: "bytes option"

record ch_postmortem =
  cp_error :: ch_error
  cp_logs :: ch_logs
  cp_args :: "bytes list option"

definition postmortem_of_error :: "ch_error \<Rightarrow> ch_postmortem" where
  "postmortem_of_error e =
     \<lparr>cp_error = e, cp_logs = \<lparr>cl_log_file = None, cl_con_file = None, cl_err_file = None\<rparr>, cp_args = None\<rparr>"

record 'fd command =
  cmd_bin :: bytes
  cmd_args :: "bytes list"
  cmd_fds :: "('fd \<times> nat) list"

text \<open>
  \<open>chs_fd_mappings\<close> tells whether the crate \<open>command_fds\<close> accepts the mappings, \<open>chs_wait\<close> what the kernel offers
  for waiting for a child.
\<close>

record ('fd, 'child, 'k) ch_sys =
  chs_tempfile :: "bytes \<Rightarrow> (bytes, unit, 'k) st"
  chs_reopen :: "bytes \<Rightarrow> (unit, unit, 'k) st"
  chs_dup :: "'fd \<Rightarrow> ('fd, unit, 'k) st"
  chs_fd_mappings :: "('fd \<times> nat) list \<Rightarrow> bool"
  chs_spawn :: "'fd command \<Rightarrow> ('child, unit, 'k) st"
  chs_kill :: "'child \<Rightarrow> (unit, unit, 'k) st"
  chs_wait :: "'child \<Rightarrow> 'k wait_sys"

text \<open>The loop over the devices: every descriptor gets the next number of the child, from 3 on.\<close>

fun assign_fds :: "nat \<Rightarrow> ('fd path_or_fd \<times> pmem_mode) list \<Rightarrow> (bytes \<times> pmem_mode) list \<times> ('fd \<times> nat) list" where
  "assign_fds cur [] = ([], [])"
| "assign_fds cur ((PathBuf p, mode) # ps) =
     (case assign_fds cur ps of (paths, fds) \<Rightarrow> ((p, mode) # paths, fds))"
| "assign_fds cur ((OwnedFd fd, mode) # ps) =
     (case assign_fds (cur + 1) ps of
        (paths, fds) \<Rightarrow> ((ascii ''/dev/fd/'' @ decimal cur, mode) # paths, (fd, cur) # fds))"

text \<open>\<open>debug\<close> is the \<open>Debug\<close> format of a path.\<close>

definition pmem_arg :: "(bytes \<Rightarrow> bytes) \<Rightarrow> bytes \<times> pmem_mode \<Rightarrow> bytes" where
  "pmem_arg debug pm = ascii ''file='' @ debug (fst pm) @ ascii '',discard_writes='' @ discard_writes (snd pm)"

definition command_args ::
    "(bytes \<Rightarrow> bytes) \<Rightarrow> ch_config \<Rightarrow> bytes \<Rightarrow> bytes \<Rightarrow> (bytes \<times> pmem_mode) list \<Rightarrow> bytes list" where
  "command_args debug config con_file log_file pmems =
     [ascii ''--kernel'', cc_kernel config, ascii ''--initramfs'', cc_initramfs config,
      ascii ''--cpus'', ascii ''boot=1'', ascii ''--memory'', ascii ''size=1024M''] @
     (if cc_console config
      then [ascii ''--cmdline'', ascii ''console=hvc0'', ascii ''--console'', ascii ''file='' @ debug con_file]
      else [ascii ''--console'', ascii ''off'']) @
     (if cc_event_monitor config then [ascii ''--event-monitor'', ascii ''fd=2''] else []) @
     (case cc_log_level config of
        None \<Rightarrow> []
      | Some level \<Rightarrow>
          [ascii ''--log-file'', log_file] @
          (case level of
             LogWarn \<Rightarrow> [] | LogInfo \<Rightarrow> [ascii ''-v''] | LogDebug \<Rightarrow> [ascii ''-vv''] | LogTrace \<Rightarrow> [ascii ''-vvv''])) @
     (if pmems \<noteq> [] then [ascii ''--pmem''] else []) @ map (pmem_arg debug) pmems"

definition ch_start ::
    "('fd, 'child, 'k) ch_sys \<Rightarrow> (bytes \<Rightarrow> bytes) \<Rightarrow> ch_config \<Rightarrow> ('fd path_or_fd \<times> pmem_mode) list \<Rightarrow>
       ('child cloud_hypervisor, ch_error, 'k) st" where
  "ch_start sys debug config pmems =
     st_bind (st_map_err (\<lambda>_. TempfileSetup) (chs_tempfile sys (ascii ''err-''))) (\<lambda>err_file.
     st_bind (st_map_err (\<lambda>_. TempfileSetup) (chs_tempfile sys (ascii ''log-''))) (\<lambda>log_file.
     st_bind (st_map_err (\<lambda>_. TempfileSetup) (chs_tempfile sys (ascii ''con-''))) (\<lambda>con_file.
       case assign_fds 3 pmems of
         (pmem_paths_modes, fd_mappings) \<Rightarrow>
           (let all_args = command_args debug config con_file log_file pmem_paths_modes;
                args = (if cc_keep_args config then all_args else [])
            in st_seq (st_map_err (\<lambda>_. ChPanic) (chs_reopen sys err_file))
                 (if \<not> chs_fd_mappings sys fd_mappings then st_err FdSetup
                  else st_bind (st_map_err (\<lambda>_. SpawnWithArgs args)
                         (chs_spawn sys \<lparr>cmd_bin = cc_bin config, cmd_args = all_args, cmd_fds = fd_mappings\<rparr>)) (\<lambda>child.
                       st_ok \<lparr>ch_log_file = (if cc_log_level config \<noteq> None then Some log_file else None),
                              ch_con_file = (if cc_console config then Some con_file else None),
                              ch_err_file = err_file, ch_child = child, ch_args = args\<rparr>))))))"

definition ch_wait_timeout_or_kill ::
    "('fd, 'child, 'k) ch_sys \<Rightarrow> 'child cloud_hypervisor \<Rightarrow> nat \<Rightarrow> (waitid_data_overtime, wait_error, 'k) st" where
  "ch_wait_timeout_or_kill sys ch duration = child_wait_timeout_or_kill (chs_wait sys (ch_child ch)) duration"

definition ch_into_logs :: "('fd, 'child, 'k) ch_sys \<Rightarrow> 'child cloud_hypervisor \<Rightarrow> 'k \<Rightarrow> ch_logs \<times> 'k" where
  "ch_into_logs sys ch k =
     (\<lparr>cl_log_file = ch_log_file ch, cl_con_file = ch_con_file ch, cl_err_file = Some (ch_err_file ch)\<rparr>,
      snd (chs_kill sys (ch_child ch) k))"

definition ch_post_mortem ::
    "('fd, 'child, 'k) ch_sys \<Rightarrow> 'child cloud_hypervisor \<Rightarrow> ch_error \<Rightarrow> 'k \<Rightarrow> ch_postmortem \<times> 'k" where
  "ch_post_mortem sys ch e k =
     (case ch_into_logs sys ch k of (logs, k') \<Rightarrow> (\<lparr>cp_error = e, cp_logs = logs, cp_args = Some (ch_args ch)\<rparr>, k'))"

section \<open>A run\<close>

record 'fd worker_input =
  wi_id :: nat
  wi_ch_config :: ch_config
  wi_image :: "'fd path_or_fd"
  wi_io_file :: 'fd
  wi_ch_timeout :: nat

record 'fd worker_output =
  wo_id :: nat
  wo_io_file :: 'fd
  wo_ch_logs :: ch_logs

datatype run_failure = RunPanic | RunPostmortem ch_postmortem

definition run_fail ::
    "('fd, 'child, 'k) ch_sys \<Rightarrow> 'child cloud_hypervisor \<Rightarrow> ch_error \<Rightarrow> ('a, run_failure, 'k) st" where
  "run_fail sys ch e k = (case ch_post_mortem sys ch e k of (pm, k') \<Rightarrow> (Err (RunPostmortem pm), k'))"

definition run_finish ::
    "('fd, 'child, 'k) ch_sys \<Rightarrow> 'fd worker_input \<Rightarrow> 'child cloud_hypervisor \<Rightarrow> ('fd worker_output, run_failure, 'k) st" where
  "run_finish sys input ch k =
     (case ch_into_logs sys ch k of
        (logs, k') \<Rightarrow> (Ok \<lparr>wo_id = wi_id input, wo_io_file = wi_io_file input, wo_ch_logs = logs\<rparr>, k'))"

definition run_pmems :: "'fd worker_input \<Rightarrow> 'fd \<Rightarrow> ('fd path_or_fd \<times> pmem_mode) list" where
  "run_pmems input fd = [(wi_image input, PmemReadOnly), (OwnedFd fd, PmemReadWrite)]"

definition worker_run ::
    "('fd, 'child, 'k) ch_sys \<Rightarrow> (bytes \<Rightarrow> bytes) \<Rightarrow> 'fd worker_input \<Rightarrow> ('fd worker_output, run_failure, 'k) st" where
  "worker_run sys debug input =
     st_bind (st_map_err (\<lambda>_. RunPanic) (chs_dup sys (wi_io_file input))) (\<lambda>fd.
     st_bind (st_map_err (\<lambda>e. if e = ChPanic then RunPanic else RunPostmortem (postmortem_of_error e))
       (ch_start sys debug (wi_ch_config input) (run_pmems input fd))) (\<lambda>ch k.
       case ch_wait_timeout_or_kill sys ch (wi_ch_timeout input) k of
         (Err _, k') \<Rightarrow> run_fail sys ch ChWait k'
       | (Ok WoNotExited, k') \<Rightarrow> (Err RunPanic, k')
       | (Ok (WoExited si ru), k') \<Rightarrow>
           if siginfo_of si \<noteq> SigExited 0 then run_fail sys ch BadExit k' else run_finish sys input ch k'
       | (Ok (WoExitedOvertime si ru), k') \<Rightarrow> run_fail sys ch ChOvertime k'))"

section \<open>Pool sizes\<close>

text \<open>
  One worker per set of cores and a channel for twice as many inputs; the server announces twice the number
  of workers as the connections it takes.
\<close>

definition pool_len :: "nat set list \<Rightarrow> nat" where "pool_len cores = length cores"

definition pool_capacity :: "nat set list \<Rightarrow> nat" where "pool_capacity cores = length cores * 2"

definition server_max_conn :: "nat set list \<Rightarrow> nat" where "server_max_conn cores = pool_len cores * 2"

section \<open>Lemmas\<close>

lemma round_up_size_fits:
  assumes "0 < n" and "x + n \<le> 2 ^ 64"
  shows "n dvd round_up_size n x" "x \<le> round_up_size n x" "0 < round_up_size n x" "round_up_size n x \<le> x + n"
proof -
  define y where "y = (x + n - 1) div n * n"
  have "y \<le> x + n - 1" "x + n - 1 < y + n"
    using div_times_less_eq_dividend [of "x + n - 1" n] dividend_less_div_times [of n "x + n - 1"] assms(1)
    unfolding y_def by (simp_all only: add.commute)
  then have y: "x \<le> y" "y \<le> x + n" "y < 2 ^ 64" using assms by linarith+
  have up: "round_up_size n x = (if x = 0 then n else y)"
    using y(3) by (simp only: round_up_size_def y_def mod_less)
  show "n dvd round_up_size n x" unfolding up y_def by simp
  show "x \<le> round_up_size n x" "0 < round_up_size n x" "round_up_size n x \<le> x + n"
    using y assms(1) unfolding up by auto
qed

text \<open>The documented behaviour of the calls on a memory file.\<close>

definition memfd_works :: "'e memfd_sys \<Rightarrow> bool" where
  "memfd_works sys \<longleftrightarrow>
     ms_memfd_create sys = Ok \<lparr>w_data = [], w_pos = 0\<rparr> \<and>
     (\<forall>f. ms_fstat_size sys f = Ok (int (length (w_data f)))) \<and>
     (\<forall>n f. ms_ftruncate sys n f = (Ok (), f\<lparr>w_data := take n (w_data f) @ replicate (n - length (w_data f)) 0\<rparr>)) \<and>
     (\<forall>ss f. ms_add_seals sys ss f = (Ok (), f))"

lemma finish_pads:
  assumes "memfd_works sys" and "length (w_data f) + PMEM_ALIGN_SIZE \<le> 2 ^ 64"
  shows "\<exists>m. io_file_builder_finish sys f = (Ok (), f\<lparr>w_data := w_data f @ replicate m 0\<rparr>) \<and>
    PMEM_ALIGN_SIZE dvd length (w_data f) + m \<and> 0 < length (w_data f) + m \<and> m \<le> PMEM_ALIGN_SIZE"
proof -
  let ?n = "round_up_size PMEM_ALIGN_SIZE (length (w_data f))"
  let ?m = "?n - length (w_data f)"
  note up = round_up_size_fits [of PMEM_ALIGN_SIZE, OF _ assms(2)]
  have pos: "0 < PMEM_ALIGN_SIZE" by (simp add: PMEM_ALIGN_SIZE_def)
  have "io_file_builder_finish sys f = (Ok (), f\<lparr>w_data := w_data f @ replicate ?m 0\<rparr>)"
    using assms(1) up(2) [OF pos]
    by (auto simp: io_file_builder_finish_def round_up_file_to_pmem_size_def memfd_works_def st_bind_def st_seq_def st_run Let_def)
  moreover have "PMEM_ALIGN_SIZE dvd length (w_data f) + ?m \<and> 0 < length (w_data f) + ?m \<and> ?m \<le> PMEM_ALIGN_SIZE"
    using up [OF pos] by simp
  ultimately show ?thesis by blast
qed

lemma ch_start_Ok:
  assumes "ch_start sys debug config pmems k = (Ok ch, k')"
  shows "\<exists>con_file log_file k0 k1 k2. chs_tempfile sys (ascii ''err-'') k = (Ok (ch_err_file ch), k0) \<and>
    st_bind (chs_tempfile sys (ascii ''log-'')) (\<lambda>l. st_bind (chs_tempfile sys (ascii ''con-'')) (\<lambda>c. st_ok (l, c))) k0 =
      (Ok (log_file, con_file), k1) \<and> chs_reopen sys (ch_err_file ch) k1 = (Ok (), k2) \<and>
    chs_spawn sys \<lparr>cmd_bin = cc_bin config, cmd_args = command_args debug config con_file log_file (fst (assign_fds 3 pmems)),
      cmd_fds = snd (assign_fds 3 pmems)\<rparr> k2 = (Ok (ch_child ch), k')"
proof -
  obtain paths fds where ps: "assign_fds 3 pmems = (paths, fds)" by fastforce
  obtain err_file k0 log_file ka con_file k1 u k2 child args where
    "chs_tempfile sys (ascii ''err-'') k = (Ok err_file, k0)" "chs_tempfile sys (ascii ''log-'') k0 = (Ok log_file, ka)"
    "chs_tempfile sys (ascii ''con-'') ka = (Ok con_file, k1)" "chs_reopen sys err_file k1 = (Ok u, k2)"
    "chs_spawn sys \<lparr>cmd_bin = cc_bin config, cmd_args = command_args debug config con_file log_file paths, cmd_fds = fds\<rparr> k2
       = (Ok child, k')"
    "ch = \<lparr>ch_log_file = (if cc_log_level config \<noteq> None then Some log_file else None),
           ch_con_file = (if cc_console config then Some con_file else None),
           ch_err_file = err_file, ch_child = child, ch_args = args\<rparr>"
    using assms unfolding ch_start_def ps prod.case Let_def st_bind_Ok st_seq_Ok st_map_err_Ok
    by (cases "chs_fd_mappings sys fds") (simp_all only: simp_thms if_True if_False st_run st_bind_Ok st_map_err_Ok, blast+)
  then show ?thesis by (auto simp: ps st_bind_Ok st_run)
qed

lemma run_fail_not_Ok [simp]: "run_fail sys ch e k \<noteq> (Ok x, k')"
  by (simp add: run_fail_def split: prod.splits)

lemma siginfo_exited: "siginfo_of si = SigExited n \<longleftrightarrow> si_code si = CLD_EXITED \<and> si_status si = n"
  by (auto simp: siginfo_of_def Let_def CLD_defs)

text \<open>
  The command of a run, in full: besides kernel, memory, console and logs it has the image as a device whose
  writes are discarded and the io file as a device whose writes are kept.
\<close>

definition isolated_command :: "(bytes \<Rightarrow> bytes) \<Rightarrow> 'fd worker_input \<Rightarrow> 'fd \<Rightarrow> 'fd command \<Rightarrow> bool" where
  "isolated_command debug input fd cmd \<longleftrightarrow>
     (\<exists>console monitor logging con_file log_file image io.
        cmd_bin cmd = cc_bin (wi_ch_config input) \<and>
        cmd_args cmd =
          [ascii ''--kernel'', cc_kernel (wi_ch_config input), ascii ''--initramfs'', cc_initramfs (wi_ch_config input),
           ascii ''--cpus'', ascii ''boot=1'', ascii ''--memory'', ascii ''size=1024M''] @ console @ monitor @ logging @
          [ascii ''--pmem'', ascii ''file='' @ debug image @ ascii '',discard_writes=on'',
           ascii ''file='' @ debug io @ ascii '',discard_writes=off''] \<and>
        console \<in> {[ascii ''--console'', ascii ''off''],
          [ascii ''--cmdline'', ascii ''console=hvc0'', ascii ''--console'', ascii ''file='' @ debug con_file]} \<and>
        monitor \<in> {[], [ascii ''--event-monitor'', ascii ''fd=2'']} \<and>
        (logging = [] \<or> (\<exists>v \<in> {[], [ascii ''-v''], [ascii ''-vv''], [ascii ''-vvv'']}. logging = [ascii ''--log-file'', log_file] @ v)) \<and>
        (case wi_image input of
           PathBuf p \<Rightarrow> image = p \<and> io = ascii ''/dev/fd/3'' \<and> cmd_fds cmd = [(fd, 3)]
         | OwnedFd img \<Rightarrow> image = ascii ''/dev/fd/3'' \<and> io = ascii ''/dev/fd/4'' \<and> cmd_fds cmd = [(img, 3), (fd, 4)]))"

lemma run_command_isolated:
  "isolated_command debug input fd
     \<lparr>cmd_bin = cc_bin (wi_ch_config input),
      cmd_args = command_args debug (wi_ch_config input) con_file log_file (fst (assign_fds 3 (run_pmems input fd))),
      cmd_fds = snd (assign_fds 3 (run_pmems input fd))\<rparr>"
proof -
  let ?cf = "wi_ch_config input"
  let ?console = "if cc_console ?cf
      then [ascii ''--cmdline'', ascii ''console=hvc0'', ascii ''--console'', ascii ''file='' @ debug con_file]
      else [ascii ''--console'', ascii ''off'']"
  let ?monitor = "if cc_event_monitor ?cf then [ascii ''--event-monitor'', ascii ''fd=2''] else []"
  let ?logging = "case cc_log_level ?cf of None \<Rightarrow> []
      | Some level \<Rightarrow> [ascii ''--log-file'', log_file] @
          (case level of LogWarn \<Rightarrow> [] | LogInfo \<Rightarrow> [ascii ''-v''] | LogDebug \<Rightarrow> [ascii ''-vv''] | LogTrace \<Rightarrow> [ascii ''-vvv''])"
  have logs: "?logging = [] \<or> (\<exists>v \<in> {[], [ascii ''-v''], [ascii ''-vv''], [ascii ''-vvv'']}. ?logging = [ascii ''--log-file'', log_file] @ v)"
    by (simp split: option.split ch_log_level.split)
  have num: "decimal 3 = ascii ''3''" "decimal 4 = ascii ''4''" by (simp_all add: decimal.simps ascii_def)
  show ?thesis
  proof (cases "wi_image input")
    case (PathBuf p)
    show ?thesis
      unfolding isolated_command_def
      by (rule exI [of _ ?console], rule exI [of _ ?monitor], rule exI [of _ ?logging], rule exI [of _ con_file], rule exI [of _ log_file],
          rule exI [of _ p], rule exI [of _ "ascii ''/dev/fd/3''"])
        (use logs in \<open>simp add: PathBuf run_pmems_def command_args_def pmem_arg_def num ascii_def\<close>)
  next
    case (OwnedFd img)
    show ?thesis
      unfolding isolated_command_def
      by (rule exI [of _ ?console], rule exI [of _ ?monitor], rule exI [of _ ?logging], rule exI [of _ con_file], rule exI [of _ log_file],
          rule exI [of _ "ascii ''/dev/fd/3''"], rule exI [of _ "ascii ''/dev/fd/4''"])
        (use logs in \<open>simp add: OwnedFd run_pmems_def command_args_def pmem_arg_def num ascii_def\<close>)
  qed
qed

text \<open>The commands that were started, as a log that only the start of a process extends.\<close>

definition logs_starts :: "('fd, 'child, 'k) ch_sys \<Rightarrow> ('k \<Rightarrow> 'fd command list) \<Rightarrow> bool" where
  "logs_starts sys started \<longleftrightarrow>
     (\<forall>F. (\<forall>p. st_keeps (\<lambda>k. started k = F) (chs_tempfile sys p)) \<and> (\<forall>p. st_keeps (\<lambda>k. started k = F) (chs_reopen sys p)) \<and>
        (\<forall>fd. st_keeps (\<lambda>k. started k = F) (chs_dup sys fd)) \<and> (\<forall>c. st_keeps (\<lambda>k. started k = F) (chs_kill sys c)) \<and>
        (\<forall>c. wait_keeps (\<lambda>k. started k = F) (chs_wait sys c))) \<and>
     (\<forall>cmd k c k'. chs_spawn sys cmd k = (Ok c, k') \<longrightarrow> started k' = started k @ [cmd])"

lemma start_logged:
  assumes "logs_starts sys started" and "ch_start sys debug config pmems k = (Ok ch, k')"
  shows "\<exists>con_file log_file k2. let cmd = \<lparr>cmd_bin = cc_bin config,
      cmd_args = command_args debug config con_file log_file (fst (assign_fds 3 pmems)), cmd_fds = snd (assign_fds 3 pmems)\<rparr>
    in chs_spawn sys cmd k2 = (Ok (ch_child ch), k') \<and> started k' = started k @ [cmd]"
proof -
  from ch_start_Ok [OF assms(2)] obtain con_file log_file k0 k1 k2 where
    k0: "chs_tempfile sys (ascii ''err-'') k = (Ok (ch_err_file ch), k0)"
    and k1: "st_bind (chs_tempfile sys (ascii ''log-'')) (\<lambda>l. st_bind (chs_tempfile sys (ascii ''con-'')) (\<lambda>c. st_ok (l, c))) k0 =
      (Ok (log_file, con_file), k1)"
    and k2: "chs_reopen sys (ch_err_file ch) k1 = (Ok (), k2)"
    and k': "chs_spawn sys \<lparr>cmd_bin = cc_bin config, cmd_args = command_args debug config con_file log_file (fst (assign_fds 3 pmems)),
      cmd_fds = snd (assign_fds 3 pmems)\<rparr> k2 = (Ok (ch_child ch), k')"
    by blast
  have temp: "st_keeps (\<lambda>k. started k = F) (chs_tempfile sys p)" and reopen: "st_keeps (\<lambda>k. started k = F) (chs_reopen sys p)" for F p
    using assms(1) unfolding logs_starts_def by blast+
  have "started k0 = started k" by (rule keeps_run [OF temp refl k0])
  moreover have "st_keeps (\<lambda>k. started k = started k0)
      (st_bind (chs_tempfile sys (ascii ''log-'')) (\<lambda>l. st_bind (chs_tempfile sys (ascii ''con-'')) (\<lambda>c. st_ok (l, c))))"
    by (intro keeps_intros temp)
  from keeps_run [OF this refl k1] have "started k1 = started k0" .
  moreover have "started k2 = started k1" by (rule keeps_run [OF reopen refl k2])
  ultimately show ?thesis using k' assms(1) unfolding logs_starts_def Let_def by (intro exI [of _ con_file] exI [of _ log_file] exI [of _ k2]) simp
qed

text \<open>
  (C12) A run that reports an output started exactly one machine, with the image as a device whose writes are
  discarded, the io file of the request as the only other device and no descriptor but theirs; within the
  time limit the kernel reported that this machine exited with status 0. The output carries the io file of
  the input.
\<close>

theorem run_isolates_image:
  assumes "worker_run sys debug input k = (Ok out, k')" and "logs_starts sys started"
  shows "\<exists>fd cmd child k1 k2 k3 k4 k5 k6 n si ru.
    chs_dup sys (wi_io_file input) k = (Ok fd, k1) \<and> started k' = started k @ [cmd] \<and> isolated_command debug input fd cmd \<and>
    chs_spawn sys cmd k2 = (Ok child, k3) \<and>
    ws_poll (chs_wait sys child) (wi_ch_timeout input) k4 = (Ok True, k5) \<and>
    ws_waitid (chs_wait sys child) P_PIDFD n [WEXITED, WNOHANG] k5 = (Ok (si, ru), k6) \<and>
    si_pid si \<noteq> 0 \<and> si_code si = CLD_EXITED \<and> si_status si = 0 \<and>
    wo_io_file out = wi_io_file input \<and> wo_id out = wi_id input"
proof -
  obtain fd k1 ch k3 where fd: "chs_dup sys (wi_io_file input) k = (Ok fd, k1)"
    and ch: "ch_start sys debug (wi_ch_config input) (run_pmems input fd) k1 = (Ok ch, k3)"
    and rest: "(case ch_wait_timeout_or_kill sys ch (wi_ch_timeout input) k3 of
         (Err _, k') \<Rightarrow> run_fail sys ch ChWait k'
       | (Ok WoNotExited, k') \<Rightarrow> (Err RunPanic, k')
       | (Ok (WoExited si ru), k') \<Rightarrow>
           if siginfo_of si \<noteq> SigExited 0 then run_fail sys ch BadExit k' else run_finish sys input ch k'
       | (Ok (WoExitedOvertime si ru), k') \<Rightarrow> run_fail sys ch ChOvertime k') = (Ok out, k')"
    using assms(1) unfolding worker_run_def st_bind_Ok st_map_err_Ok by blast
  obtain si ru k4 where w: "child_wait_timeout_or_kill (chs_wait sys (ch_child ch)) (wi_ch_timeout input) k3 = (Ok (WoExited si ru), k4)"
    and si: "siginfo_of si = SigExited 0" and fin: "run_finish sys input ch k4 = (Ok out, k')"
    using rest by (auto simp: ch_wait_timeout_or_kill_def split: prod.splits result.splits waitid_data_overtime.splits if_splits)
  obtain con_file log_file k2 cmd where
    cmd: "cmd = \<lparr>cmd_bin = cc_bin (wi_ch_config input),
      cmd_args = command_args debug (wi_ch_config input) con_file log_file (fst (assign_fds 3 (run_pmems input fd))),
      cmd_fds = snd (assign_fds 3 (run_pmems input fd))\<rparr>"
    and sp: "chs_spawn sys cmd k2 = (Ok (ch_child ch), k3)" "started k3 = started k1 @ [cmd]"
    using start_logged [OF assms(2) ch] unfolding Let_def by blast
  have "st_keeps (\<lambda>k. started k = F) (chs_dup sys x)" "st_keeps (\<lambda>k. started k = F) (chs_kill sys c)"
    "wait_keeps (\<lambda>k. started k = F) (chs_wait sys c)" for F x c
    using assms(2) unfolding logs_starts_def by blast+
  note keeps = this
  have "started k1 = started k" by (rule keeps_run [OF keeps(1) refl fd])
  moreover have "started k4 = started k3" by (rule keeps_run [OF keeps_waiting(4) [OF keeps(3)] refl w])
  moreover have "k' = snd (chs_kill sys (ch_child ch) k4)" "wo_io_file out = wi_io_file input" "wo_id out = wi_id input"
    using fin by (auto simp: run_finish_def ch_into_logs_def)
  moreover have "started (snd (chs_kill sys (ch_child ch) k4)) = started k4"
    using keeps(2) unfolding st_keeps_def by blast
  moreover have "isolated_command debug input fd cmd" unfolding cmd by (rule run_command_isolated)
  moreover from child_wait_exited [OF w] obtain n ka kb where "ws_poll (chs_wait sys (ch_child ch)) (wi_ch_timeout input) ka = (Ok True, kb)"
    "ws_waitid (chs_wait sys (ch_child ch)) P_PIDFD n [WEXITED, WNOHANG] kb = (Ok (si, ru), k4)" "si_pid si \<noteq> 0" by blast
  ultimately show ?thesis using fd sp si unfolding siginfo_exited by simp blast
qed

text \<open>A host whose state is the log; its temporary files have their prefixes as names.\<close>

definition small_host :: "(nat, unit, nat command list) ch_sys" where
  "small_host =
     \<lparr>chs_tempfile = (\<lambda>p. st_ok p), chs_reopen = (\<lambda>_. st_ok ()), chs_dup = (\<lambda>fd. st_ok (fd + 1)),
      chs_fd_mappings = (\<lambda>_. True), chs_spawn = (\<lambda>cmd k. (Ok (), k @ [cmd])), chs_kill = (\<lambda>_. st_ok ()),
      chs_wait = (\<lambda>_. \<lparr>ws_waitid = (\<lambda>t i os k. (fst (ws_waitid counting_sys t i os 0), k)), ws_poll = (\<lambda>d. st_ok (5 \<le> d)),
        ws_kill = (\<lambda>_. st_ok ()), ws_register = st_ok (), ws_pidfd_new = st_ok 3\<rparr>)\<rparr>"

definition small_input :: "nat worker_input" where
  "small_input =
     \<lparr>wi_id = 1, wi_ch_config = \<lparr>cc_bin = ascii ''ch'', cc_kernel = ascii ''k'', cc_initramfs = ascii ''i'', cc_console = False,
        cc_log_level = None, cc_keep_args = False, cc_event_monitor = False\<rparr>,
      wi_image = OwnedFd 5, wi_io_file = 7, wi_ch_timeout = 6\<rparr>"

lemma small_host_logs: "logs_starts small_host (\<lambda>k. k)"
  by (simp add: logs_starts_def small_host_def wait_keeps_def keeps_basic) (simp add: st_keeps_def)

lemma small_host_run:
  "fst (worker_run small_host (\<lambda>p. p) small_input []) =
     Ok \<lparr>wo_id = 1, wo_io_file = 7, wo_ch_logs = \<lparr>cl_log_file = None, cl_con_file = None, cl_err_file = Some (ascii ''err-'')\<rparr>\<rparr>"
  by (simp add: worker_run_def small_host_def small_input_def st_bind_def st_seq_def st_run st_map_err_def ch_start_def
      run_pmems_def Let_def ch_wait_timeout_or_kill_def child_wait_timeout_or_kill_def
      wait_timeout_or_kill_def wait_timeout_def waiter_new_def waitid_pidfd_exited_nohang_def waitid_def
      pidfd_to_u32_def os_call_def counting_sys_def siginfo_exited CLD_defs run_finish_def ch_into_logs_def)

lemma run_isolates_image_witness:
  "\<exists>cmd. snd (worker_run small_host (\<lambda>p. p) small_input []) = [cmd] \<and> isolated_command (\<lambda>p. p) small_input 8 cmd"
proof -
  have "worker_run small_host (\<lambda>p. p) small_input [] = (Ok \<lparr>wo_id = 1, wo_io_file = 7,
      wo_ch_logs = \<lparr>cl_log_file = None, cl_con_file = None, cl_err_file = Some (ascii ''err-'')\<rparr>\<rparr>,
      snd (worker_run small_host (\<lambda>p. p) small_input []))"
    using small_host_run by (metis prod.collapse)
  from run_isolates_image [OF this small_host_logs] show ?thesis by (auto simp: small_host_def small_input_def st_run)
qed

end
