(* ===== verification/Pack_Frame.thy ===== *)
theory Pack_Frame
  imports Pearchive
begin

text \<open>What a pack leaves alone of the file it appends to.\<close>

text \<open>A property of the file that single writes, flushes and transfers keep is kept by a whole pack.\<close>

definition pack_keeps :: "('fd, 'i) pack_sys \<Rightarrow> ('i \<Rightarrow> bool) \<Rightarrow> bool" where
  "pack_keeps sys I \<longleftrightarrow>
     (\<forall>bs i. I i \<longrightarrow> I (snd (ps_write sys bs i))) \<and> (\<forall>i. I i \<longrightarrow> I (snd (ps_flush sys i))) \<and>
     (\<forall>fd n i. I i \<longrightarrow> I (snd (ps_sendfile sys fd n i)))"

definition packer_in :: "('i \<Rightarrow> bool) \<Rightarrow> 'i packer \<Rightarrow> bool" where
  "packer_in I p \<longleftrightarrow> I (bw_inner (pk_writer p))"

lemma keeps_flush_buf:
  "pack_keeps sys I \<Longrightarrow> I (bw_inner w) \<Longrightarrow> I (bw_inner (snd (bw_flush_buf (ps_write sys) w)))"
  by (auto simp: pack_keeps_def bw_flush_buf_def split: prod.split bool.split) (metis snd_conv)+

lemma keeps_put:
  assumes "pack_keeps sys I" and "packer_in I p"
  shows "packer_in I (snd (put (ps_write sys) bs p))"
proof -
  have w: "I (snd (ps_write sys b i))" if "I i" for b i using assms(1) that by (simp add: pack_keeps_def)
  have fl: "I (bw_inner w1)" if "bw_flush_buf (ps_write sys) (pk_writer p) = (ok, w1)" for ok w1
    using keeps_flush_buf [OF assms(1), of "pk_writer p"] assms(2) that by (simp add: packer_in_def)
  show ?thesis
    using assms(2) fl w
    by (auto simp: packer_in_def put_def bw_write_all_def Let_def split: prod.split bool.split if_split) (metis snd_conv)+
qed

lemma keeps_visitor:
  assumes "pack_keeps sys I"
  shows "st_keeps (packer_in I) (put (ps_write sys) bs)" "st_keeps (packer_in I) (fs_flush sys)"
    "st_keeps (packer_in I) (fs_on_dir sys name)" "st_keeps (packer_in I) (fs_leave_dir sys)"
proof -
  show put: "st_keeps (packer_in I) (put (ps_write sys) bs)" for bs
    using keeps_put [OF assms] by (simp add: st_keeps_def)
  show "st_keeps (packer_in I) (fs_flush sys)"
    using assms keeps_flush_buf [OF assms] unfolding st_keeps_def packer_in_def fs_flush_def pack_keeps_def
    by (auto split: prod.split bool.split) (metis snd_conv)+
  have depth: "st_keeps (packer_in I) (st_modify (\<lambda>p. p\<lparr>pk_depth := f (pk_depth p)\<rparr>))" for f
    by (simp add: st_keeps_def packer_in_def st_run)
  show "st_keeps (packer_in I) (fs_on_dir sys name)"
    using keeps_seq [OF depth keeps_seq [OF put put], of "\<lambda>d. d + 1"]
    by (auto simp: st_keeps_def fs_on_dir_def st_run)
  show "st_keeps (packer_in I) (fs_leave_dir sys)"
    using keeps_seq [OF depth put, of "\<lambda>d. d - 1"] by (auto simp: st_keeps_def fs_leave_dir_def st_run)
qed

lemma keeps_sendfile:
  assumes "\<And>n i. I i \<Longrightarrow> I (snd (send n i))" and "sendfile_all send len i = Some (r, i')" and "I i"
  shows "I i'"
proof -
  let ?P = "\<lambda>send len i y. (\<forall>n i. I i \<longrightarrow> I (snd (send n i))) \<longrightarrow> I i \<longrightarrow> I (snd y)"
  have "?P send len i (r, i')"
  proof (rule sendfile_all.raw_induct [where P = ?P, OF _ assms(2)], goal_cases)
    case (1 f send len i y)
    note IH = 1(1) and run = 1(2)
    show ?case
    proof (intro impI)
      assume s: "\<forall>n i. I i \<longrightarrow> I (snd (send n i))" and i: "I i"
      obtain q j where qj: "send len i = (q, j)" by fastforce
      with s i have "I j" by (metis snd_conv)
      with run qj i s IH [of send _ j y] show "I (snd y)" by (auto split: if_splits result.splits)
    qed
  qed
  with assms show ?thesis by simp
qed

lemma keeps_on_file:
  assumes "pack_keeps sys I" and "fs_on_file sys name sz fd p = Some (r, p')" and "packer_in I p"
  shows "packer_in I p'"
proof -
  let ?m = "st_seq (put (ps_write sys) [tag_byte TagFile]) (st_seq (put (ps_write sys) (name @ [0]))
    (st_seq (put (ps_write sys) (to_le 4 (of_nat sz :: u32))) (fs_flush sys)))"
  have m: "st_keeps (packer_in I) ?m" by (intro keeps_seq keeps_visitor assms(1))
  obtain q p1 where q: "?m p = (q, p1)" by fastforce
  with m assms(3) have p1: "packer_in I p1" unfolding st_keeps_def by (metis snd_conv)
  have "I i" if "sendfile_all (ps_sendfile sys fd) sz (bw_inner (pk_writer p1)) = Some (r, i)" for r i
    using keeps_sendfile [OF _ that, of I] assms(1) p1 by (simp add: pack_keeps_def packer_in_def)
  then show ?thesis using assms(2,3) q p1
    by (auto simp: fs_on_file_def packer_in_def split: if_splits result.splits)
qed

lemma keeps_walk:
  assumes "pack_keeps sys I" and "visit_dirc_rec sys (fs_to_writer sys) dir es p = Some (r, p')" and "packer_in I p"
  shows "packer_in I p'"
proof -
  let ?P = "\<lambda>s V dir es p y. s = sys \<longrightarrow> V = fs_to_writer sys \<longrightarrow> packer_in I p \<longrightarrow> packer_in I (snd y)"
  have "?P sys (fs_to_writer sys) dir es p (r, p')"
  proof (rule visit_dirc_rec.raw_induct [where P = ?P, OF _ assms(2)], goal_cases)
    case (1 f s V dir es p y)
    note IH = 1(1) and run = 1(2)
    show ?case
    proof (intro impI)
      assume s: "s = sys" and V: "V = fs_to_writer sys" and p: "packer_in I p"
      have rec: "packer_in I (snd y')" if "f sys (fs_to_writer sys) d e p1 = Some y'" "packer_in I p1" for d e p1 y'
        using IH [OF that(1)] that(2) by simp
      have reg: "packer_in I p1" if "fs_on_file sys n z d p = Some (q, p1)" for n z d q p1
        by (rule keeps_on_file [OF assms(1) that p])
      have on: "packer_in I p1" if "fs_on_dir sys n p = (q, p1)" for n q p1
        using keeps_visitor(3) [OF assms(1)] p that unfolding st_keeps_def by (metis snd_conv)
      have leave: "packer_in I p2" if "fs_leave_dir sys p1 = (q, p2)" "packer_in I p1" for q p1 p2
        using keeps_visitor(4) [OF assms(1)] that unfolding st_keeps_def by (metis snd_conv)
      have V': "fv_on_file V = fs_on_file sys" "fv_on_dir V = fs_on_dir sys" "fv_leave_dir V = fs_leave_dir sys"
        by (simp_all add: V fs_to_writer_def)
      show "packer_in I (snd y)"
      proof (cases "\<exists>entry es'. es = Ok entry # es'")
        case False
        then show ?thesis using run p by (auto split: list.splits result.splits)
      next
        case True
        then obtain entry es' where es: "es = Ok entry # es'" by blast
        show ?thesis
        proof (cases "rd_type entry")
          case FkRegular
          then show ?thesis using run p unfolding es s V'
            by (auto simp: bind_eq_Some_conv split: result.split_asm intro: rec [folded V] dest: reg)
              (metis (full_types) reg result.exhaust old.unit.exhaust snd_conv)
        next
          case FkDirectory
          then show ?thesis using run p unfolding es s V'
            by (auto simp: bind_eq_Some_conv split: result.split_asm prod.split_asm if_split_asm
                dest: on leave dest!: rec [folded V] intro: rec [folded V] on leave)
              (metis (full_types) on rec [folded V] result.exhaust old.unit.exhaust snd_conv)+
        next
          case FkOther
          then show ?thesis using run p rec [folded V] unfolding es s by auto
        qed
      qed
    qed
  qed
  then show ?thesis using assms(3) by simp
qed

lemma pack_dir_keeps:
  assumes "pack_keeps sys I" and "pack_dir_to_file sys dir f = Some (Ok f')" and "I f"
  shows "I f'"
proof -
  have new: "packer_in I (packer_new f)" using assms(3) by (simp add: packer_in_def packer_new_def bw_new_def)
  obtain u p where p: "visit_dir sys (fs_to_writer sys) dir (packer_new f) = Some (Ok u, p)"
    "packer_into_inner (ps_write sys) p = Ok f'"
    using assms(2) by (auto simp: pack_dir_to_file_def pack_dir_to_writer_def result_simps)
  then have "packer_in I p"
    using keeps_walk [OF assms(1) _ new] by (auto simp: visit_dir_def visit_dirc_def split: if_splits result.splits)
  then show ?thesis
    using p(2) keeps_flush_buf [OF assms(1), of "pk_writer p"]
    by (auto simp: packer_into_inner_def packer_in_def split: prod.splits if_splits)
qed

end
