(* ===== verification/Guest.thy ===== *)
theory Guest
  imports Waitid Pack_Frame Io_File_Props
begin

text \<open>
  The program that runs as the first process of a guest (\<open>peinit/src/main.rs\<close>): it unpacks the request from
  the device it shares with the host, starts the container, waits for it and writes the response to the
  device; a panic is turned into a response by its hook. The system calls and the programs it starts are
  arguments; the experimental features \<open>snapshotting\<close> and \<open>blocktesting\<close> are off, as they are by default.
\<close>

section \<open>The state of the guest\<close>

text \<open>
  The device is its bytes as programs in the guest read them and the position of the descriptor in use. Its
  size is fixed: a write past the end stops there and fails. What is written is only sure to reach the host
  once it is synced: \<open>gu_host\<close> is the content at the last sync.
\<close>

record 'k guest =
  gu_dev :: writer
  gu_host :: bytes
  gu_kernel :: 'k

definition dev_write :: "writer inner_write" where
  "dev_write bs f =
     (if w_pos f + length bs \<le> length (w_data f) then (True, Erofs_Writer.write_all bs f)
      else (False, Erofs_Writer.write_all (take (length (w_data f) - w_pos f) bs) f))"

text \<open>Mounts are silent and nothing else, so their flags are left out.\<close>

datatype guest_call =
    MountBindRecursive bytes bytes | Chdir bytes | Chroot bytes | Mount bytes bytes bytes "bytes option"
  | MountBind bytes bytes | Mkdir bytes nat | Chown bytes nat nat | CreateNew bytes | OpenRead bytes
  | WriteFile bytes bytes | InspectKernel | SyncData | PowerOff

datatype dev_mode = DevRead | DevReadWrite | DevCreate

text \<open>A program with its arguments, ids, the descriptor 3 if it gets the device, and its standard streams.\<close>

record guest_cmd =
  gc_argv :: "bytes list"
  gc_ids :: "(nat \<times> nat) option"
  gc_dev :: bool
  gc_stdin :: "bytes option"
  gc_stdout :: "bytes option"
  gc_stderr :: "bytes option"

text \<open>
  \<open>gs_status\<close> runs a program to its end and returns its exit code unless a signal ended it. \<open>gs_wait\<close> is what
  the kernel offers to wait for a process. \<open>InspectKernel\<close> stands for the listing of \<open>/proc/sys\<close>.
\<close>

record 'k guest_sys =
  gs_call :: "guest_call \<Rightarrow> (unit, int, 'k) st"
  gs_open_dev :: "dev_mode \<Rightarrow> (unit, int, 'k) st"
  gs_status :: "guest_cmd \<Rightarrow> (int option, int, 'k guest) st"
  gs_wait :: "int \<Rightarrow> 'k guest wait_sys"
  gs_canonicalize :: "bytes \<Rightarrow> 'k \<Rightarrow> bytes option"
  gs_read :: "bytes \<Rightarrow> nat option \<Rightarrow> 'k \<Rightarrow> (bytes, int) result"

text \<open>Why the guest panics; the text of a panic, with its place in the source, comes from the standard library.\<close>

datatype guest_panic =
    PanicOs int | PanicIo io_error | PanicNoStatus bytes | PanicStatus bytes int | PanicCrun "int option" bytes
  | PanicPid bytes | PanicWait wait_error | PanicNul

definition on_kernel :: "('a, int, 'k) st \<Rightarrow> ('a, guest_panic, 'k guest) st" where
  "on_kernel m g = (case m (gu_kernel g) of (r, k) \<Rightarrow> (map_err PanicOs r, g\<lparr>gu_kernel := k\<rparr>))"

definition on_dev :: "('a, io_error, writer) st \<Rightarrow> ('a, io_error, 'k guest) st" where
  "on_dev m g = (case m (gu_dev g) of (r, f) \<Rightarrow> (r, g\<lparr>gu_dev := f\<rparr>))"

text \<open>Opening the device gives a descriptor at its start; a block device is not truncated.\<close>

definition open_dev :: "'k guest_sys \<Rightarrow> dev_mode \<Rightarrow> (unit, guest_panic, 'k guest) st" where
  "open_dev sys mode =
     st_seq (on_kernel (gs_open_dev sys mode)) (st_modify (\<lambda>g. g\<lparr>gu_dev := seek_start 0 (gu_dev g)\<rparr>))"

text \<open>\<open>sync_data\<close> returns once everything written to the device is there for the host.\<close>

definition sync_dev :: "'k guest_sys \<Rightarrow> (unit, guest_panic, 'k guest) st" where
  "sync_dev sys =
     st_seq (on_kernel (gs_call sys SyncData)) (st_modify (\<lambda>g. g\<lparr>gu_host := w_data (gu_dev g)\<rparr>))"

text \<open>
  The command \<open>packfd\<close> of \<open>/bin/pearchive\<close> on the device: it ends by syncing what it has written, and panics
  when that fails.
\<close>

definition packfd_synced ::
    "'k guest_sys \<Rightarrow> ('fd, writer) pack_sys \<Rightarrow> bool \<Rightarrow> bytes \<Rightarrow> 'k guest \<Rightarrow> ('k guest, io_error) result option" where
  "packfd_synced sys psys is_dir indir g =
     map_option (\<lambda>r. bindr r (\<lambda>fileout.
       case sync_dev sys (g\<lparr>gu_dev := fileout\<rparr>) of (Ok _, g') \<Rightarrow> Ok g' | (Err _, _) \<Rightarrow> Err IoPanic))
       (packfd psys is_dir indir (gu_dev g))"

section \<open>Panics\<close>

definition write_panic_response ::
    "'k guest_sys \<Rightarrow> (response \<Rightarrow> bytes option) \<Rightarrow> bytes \<Rightarrow> (unit, io_error, 'k guest) st" where
  "write_panic_response sys to_json message =
     st_seq (st_map_err (\<lambda>_. IoErr) (open_dev sys DevCreate))
     (st_seq (on_dev (write_io_file_response to_json dev_write (RespPanic message)))
       (st_map_err (\<lambda>_. IoErr) (sync_dev sys)))"

definition guest_exit :: "'k guest_sys \<Rightarrow> 'k guest \<Rightarrow> 'k guest" where
  "guest_exit sys g = snd (on_kernel (gs_call sys PowerOff) g)"

section \<open>The steps\<close>

definition call :: "'k guest_sys \<Rightarrow> guest_call \<Rightarrow> (unit, guest_panic, 'k guest) st" where
  "call sys c = on_kernel (gs_call sys c)"

definition parent_rootfs :: "'k guest_sys \<Rightarrow> (unit, guest_panic, 'k guest) st" where
  "parent_rootfs sys =
     st_seq (call sys (MountBindRecursive (ascii ''/'') (ascii ''/'')))
     (st_seq (call sys (Chdir (ascii ''/..''))) (call sys (Chroot (ascii ''.''))))"

definition pearchive_cmd :: "bool \<Rightarrow> bytes list \<Rightarrow> guest_cmd" where
  "pearchive_cmd strace args =
     \<lparr>gc_argv = (if strace then [ascii ''strace''] else []) @ [ascii ''/bin/pearchive''] @ args,
      gc_ids = Some (1000, 1000), gc_dev = True, gc_stdin = None, gc_stdout = None, gc_stderr = None\<rparr>"

definition pearchive_status :: "'k guest_sys \<Rightarrow> bytes \<Rightarrow> guest_cmd \<Rightarrow> (unit, guest_panic, 'k guest) st" where
  "pearchive_status sys name cmd =
     st_bind (st_map_err PanicOs (gs_status sys cmd)) (\<lambda>code.
       case code of
         None \<Rightarrow> st_err (PanicNoStatus name)
       | Some ret \<Rightarrow> if ret = 0 then st_ok () else st_err (PanicStatus name ret))"

definition unpack_cmd :: "bytes \<Rightarrow> u32 \<Rightarrow> config \<Rightarrow> guest_cmd" where
  "unpack_cmd dir archive_size cf =
     pearchive_cmd (cf_strace cf) [ascii ''unpackfd'', ascii ''3'', dir, decimal (unat archive_size)]"

definition unpack_input ::
    "'k guest_sys \<Rightarrow> (bytes \<Rightarrow> config option) \<Rightarrow> bytes \<Rightarrow> (config, guest_panic, 'k guest) st" where
  "unpack_input sys decode dir =
     st_seq (open_dev sys DevRead)
     (st_bind (st_map_err PanicIo (on_dev (read_io_file_config decode))) (\<lambda>(archive_size, cf).
      st_seq (pearchive_status sys (ascii ''unpackdev'') (unpack_cmd dir archive_size cf)) (st_ok cf)))"

definition pack_cmd :: "bytes \<Rightarrow> bool \<Rightarrow> guest_cmd" where
  "pack_cmd dir strace = pearchive_cmd strace [ascii ''packfd'', dir, ascii ''3'']"

definition pack_output :: "'k guest_sys \<Rightarrow> bytes \<Rightarrow> bool \<Rightarrow> (unit, guest_panic, 'k guest) st" where
  "pack_output sys dir strace = pearchive_status sys (ascii ''packdev'') (pack_cmd dir strace)"

text \<open>\<open>err_text\<close> formats the error of opening or reading a file.\<close>

definition read_n_or_str_error :: "'k guest_sys \<Rightarrow> (int \<Rightarrow> bytes) \<Rightarrow> bytes \<Rightarrow> nat \<Rightarrow> 'k guest \<Rightarrow> bytes" where
  "read_n_or_str_error sys err_text path n g =
     (case gs_read sys path (Some n) (gu_kernel g) of Ok buf \<Rightarrow> buf | Err e \<Rightarrow> err_text e)"

text \<open>\<open>lossy\<close> stands for \<open>String::from_utf8_lossy\<close>.\<close>

definition read_if_exists_max_len_lossy ::
    "'k guest_sys \<Rightarrow> (bytes \<Rightarrow> bytes) \<Rightarrow> 'k guest \<Rightarrow> bytes \<Rightarrow> nat \<Rightarrow> bytes option" where
  "read_if_exists_max_len_lossy sys lossy g p len =
     (case gs_read sys p (Some len) (gu_kernel g) of Ok buf \<Rightarrow> Some (lossy buf) | Err _ \<Rightarrow> None)"

definition STDOUT_FILE :: bytes where "STDOUT_FILE = ascii ''/run/output/stdout''"
definition STDERR_FILE :: bytes where "STDERR_FILE = ascii ''/run/output/stderr''"
definition RUN_INPUT :: bytes where "RUN_INPUT = ascii ''/run/input''"

text \<open>\<open>Path::starts_with\<close> compares components.\<close>

definition path_is_below :: "bytes \<Rightarrow> bytes \<Rightarrow> bool" where
  "path_is_below p base \<longleftrightarrow>
     take (length (path_components base)) (path_components p) = path_components base"

text \<open>The file that becomes the standard input, None for an empty input.\<close>

definition open_stdin :: "'k guest_sys \<Rightarrow> bytes option \<Rightarrow> (bytes option, guest_panic, 'k guest) st" where
  "open_stdin sys stdin g =
     (case stdin of
        None \<Rightarrow> (Ok None, g)
      | Some x \<Rightarrow>
          (case gs_canonicalize sys (path_push RUN_INPUT x) (gu_kernel g) of
             None \<Rightarrow> (Ok None, g)
           | Some p \<Rightarrow>
               if \<not> path_is_below p RUN_INPUT then (Ok None, g)
               else (case call sys (OpenRead p) g of
                       (Ok _, g') \<Rightarrow> (Ok (Some p), g') | (Err _, g') \<Rightarrow> (Ok None, g'))))"

definition crun_cmd :: "config \<Rightarrow> bytes option \<Rightarrow> guest_cmd" where
  "crun_cmd cf stdin =
     \<lparr>gc_argv =
        (if cf_strace cf
         then [ascii ''/bin/strace'', ascii ''-e'', ascii ''write,openat,unshare,clone,clone3,chdir'', ascii ''-f'', ascii ''-o'',
               ascii ''/run/crun.strace'', ascii ''--decode-pids=comm'', ascii ''/bin/crun'']
         else [ascii ''/bin/crun'']) @
        (if cf_crun_debug cf then [ascii ''--debug'', ascii ''--log=/run/crun.log''] else []) @
        [ascii ''run'', ascii ''-b'', ascii ''/run/bundle'', ascii ''-d'', ascii ''--pid-file=/run/pid'', ascii ''cid-1234''],
      gc_ids = None, gc_dev = False, gc_stdin = stdin, gc_stdout = Some STDOUT_FILE, gc_stderr = Some STDERR_FILE\<rparr>"

text \<open>The output of \<open>cat_file_if_exists\<close> goes to the console and is left out.\<close>

definition run_container ::
    "'k guest_sys \<Rightarrow> (int \<Rightarrow> bytes) \<Rightarrow> config \<Rightarrow> ((waitid_data_overtime, wait_error) result, guest_panic, 'k guest) st" where
  "run_container sys err_text cf =
     st_seq (call sys (CreateNew STDOUT_FILE))
     (st_seq (call sys (CreateNew STDERR_FILE))
     (st_bind (open_stdin sys (cf_stdin cf)) (\<lambda>stdin.
      st_bind (st_map_err PanicOs (gs_status sys (crun_cmd cf stdin))) (\<lambda>exit_status.
      st_with (\<lambda>g.
        if exit_status \<noteq> Some 0 then st_err (PanicCrun exit_status (read_n_or_str_error sys err_text STDERR_FILE 2000 g))
        else case gs_read sys (ascii ''/run/pid'') None (gu_kernel g) of
               Err e \<Rightarrow> st_err (PanicOs e)
             | Ok s \<Rightarrow>
                 (case parse_i32 s of
                    None \<Rightarrow> st_err (PanicPid s)
                  | Some pid \<Rightarrow>
                      st_bind (st_map_err PanicWait (os_call (ws_pidfd_new (gs_wait sys pid)))) (\<lambda>pidfd.
                      st_seq (st_map_err PanicWait (waiter_new (gs_wait sys pid)))
                        (\<lambda>g. case wait_timeout_or_kill (gs_wait sys pid) pidfd (cf_timeout cf) g of
                               (r, g') \<Rightarrow> (Ok r, g')))))))))"

section \<open>The program\<close>

text \<open>The file systems of the kernel, among them \<open>/dev\<close>, where the device is.\<close>

definition kernel_mounts :: "'k guest_sys \<Rightarrow> (unit, guest_panic, 'k guest) st" where
  "kernel_mounts sys =
     st_seq (parent_rootfs sys)
     (st_seq (call sys (Mount (ascii ''none'') (ascii ''/proc'') (ascii ''proc'') None))
     (st_seq (call sys (Mount (ascii ''none'') (ascii ''/sys/fs/cgroup'') (ascii ''cgroup2'') None))
       (call sys (Mount (ascii ''none'') (ascii ''/dev'') (ascii ''devtmpfs'') None))))"

definition output_mounts :: "'k guest_sys \<Rightarrow> (unit, guest_panic, 'k guest) st" where
  "output_mounts sys =
     st_seq (call sys (Mount (ascii ''none'') (ascii ''/run/output'') (ascii ''tmpfs'') (Some (ascii ''size=2M,mode=777''))))
     (st_seq (call sys (Mkdir (ascii ''/run/output/dir'') 0x1ff))
       (call sys (Chown (ascii ''/run/output/dir'') 1000 1000)))"

definition mount_rootfs :: "'k guest_sys \<Rightarrow> config \<Rightarrow> (unit, guest_panic, 'k guest) st" where
  "mount_rootfs sys cf =
     (let kind = (case cf_rootfs_kind cf of Sqfs \<Rightarrow> ascii ''squashfs'' | Erofs \<Rightarrow> ascii ''erofs'')
      in st_seq
           (case cf_rootfs_dir cf of
              Some dir \<Rightarrow>
                st_seq (call sys (Mount (ascii ''/dev/pmem0'') (ascii ''/mnt/image'') kind None))
                  (let rootfs_dir = ascii ''/mnt/image/'' @ dir
                   in if 0 \<in> set rootfs_dir then st_err PanicNul else call sys (MountBind rootfs_dir (ascii ''/mnt/rootfs'')))
            | None \<Rightarrow> call sys (Mount (ascii ''/dev/pmem0'') (ascii ''/mnt/rootfs'') kind None))
           (call sys (Mount (ascii ''none'') (ascii ''/run/bundle/rootfs'') (ascii ''overlay'')
              (Some (ascii ''lowerdir=/mnt/rootfs,upperdir=/mnt/upper,workdir=/mnt/work'')))))"

definition write_reply ::
    "'k guest_sys \<Rightarrow> (response \<Rightarrow> bytes option) \<Rightarrow> config \<Rightarrow> response \<Rightarrow> (unit, guest_panic, 'k guest) st" where
  "write_reply sys to_json cf response =
     st_seq (open_dev sys DevReadWrite)
     (st_seq (st_map_err PanicIo (on_dev (write_io_file_response to_json dev_write response)))
       (case cf_response_format cf of
          PeArchiveV1 \<Rightarrow> pack_output sys (ascii ''/run/output'') (cf_strace cf)
        | JsonV1 \<Rightarrow> st_ok ()))"

text \<open>What \<open>main\<close> does up to its \<open>exit\<close>, with the request's configuration and the response it has written as the result.\<close>

definition guest_body ::
    "'k guest_sys \<Rightarrow> (bytes \<Rightarrow> config option) \<Rightarrow> (response \<Rightarrow> bytes option) \<Rightarrow> (int \<Rightarrow> bytes) \<Rightarrow> (wait_error \<Rightarrow> bytes) \<Rightarrow>
       (bytes \<Rightarrow> bytes) \<Rightarrow> (config \<times> response, guest_panic, 'k guest) st" where
  "guest_body sys decode to_json err_text debug lossy =
     st_seq (kernel_mounts sys)
     (st_seq (output_mounts sys)
     (st_bind (unpack_input sys decode RUN_INPUT) (\<lambda>cf.
      st_seq (mount_rootfs sys cf)
      (st_seq (call sys (WriteFile (ascii ''/run/bundle/config.json'') (cf_oci_runtime_config cf)))
      (st_seq (if cf_kernel_inspect cf then call sys InspectKernel else st_ok ())
      (st_bind (run_container sys err_text cf) (\<lambda>container_output.
       st_with (\<lambda>g.
         let response = guest_response debug (read_if_exists_max_len_lossy sys lossy g) cf container_output
         in st_seq (write_reply sys to_json cf response) (st_ok (cf, response))))))))))"

text \<open>\<open>show_panic\<close> is the text of a panic. The hook writes it as a response, whatever comes of that, and powers off.\<close>

definition guest_main ::
    "'k guest_sys \<Rightarrow> (bytes \<Rightarrow> config option) \<Rightarrow> (response \<Rightarrow> bytes option) \<Rightarrow> (int \<Rightarrow> bytes) \<Rightarrow> (wait_error \<Rightarrow> bytes) \<Rightarrow>
       (bytes \<Rightarrow> bytes) \<Rightarrow> (guest_panic \<Rightarrow> bytes) \<Rightarrow> 'k guest \<Rightarrow> 'k guest" where
  "guest_main sys decode to_json err_text debug lossy show_panic g =
     (case guest_body sys decode to_json err_text debug lossy g of
        (Ok _, g') \<Rightarrow> guest_exit sys g'
      | (Err p, g') \<Rightarrow> guest_exit sys (snd (write_panic_response sys to_json (show_panic p) g')))"

end
