(* ===== verification/Guest_Props.thy ===== *)
theory Guest_Props
  imports Guest
begin

text \<open>
  Once the device is there, every run of the guest leaves a response on it: the response of the container, or
  the text of the panic that ended the run. It is synced, so that the host reads it, except in the format
  that has no archive.
\<close>

section \<open>Responses on the device\<close>




lemma dev_write_fits: "dev_write bs f = (True, f') \<longleftrightarrow>
    w_pos f + length bs \<le> length (w_data f) \<and> f' = Erofs_Writer.write_all bs f"
  by (auto simp: dev_write_def)






section \<open>What packing keeps\<close>








section \<open>The device stays\<close>




















text \<open>
  In the format without an archive nothing syncs the response: what is sure to have reached the host is what
  had reached it before the reply.
\<close>

lemma json_reply_unsynced:
  assumes "write_reply sys to_json cf r g = (q, g')" and "cf_response_format cf = JsonV1"
  shows "gu_host g' = gu_host g"
proof -
  have k: "preserves gu_host (on_kernel (gs_open_dev sys DevReadWrite))"
    and d: "preserves gu_host (on_dev (write_io_file_response to_json dev_write r))"
    by (auto simp: preserves_def on_kernel_def on_dev_def split: prod.split)
  have "preserves gu_host (write_reply sys to_json cf r)"
    using assms(2) unfolding write_reply_def open_dev_def by simp (intro preserves_intros k d; simp)
  then show ?thesis using assms(1) unfolding preserves_def by (metis snd_conv)
qed

text \<open>The standard input is a file below the directory of the input, whatever the request names.\<close>

lemma stdin_confined:
  assumes "open_stdin sys stdin g = (Ok (Some p), g')"
  shows "path_is_below p RUN_INPUT \<and>
    (\<exists>x. stdin = Some x \<and> gs_canonicalize sys (path_push RUN_INPUT x) (gu_kernel g) = Some p)"
  using assms by (auto simp: open_stdin_def split: option.splits if_splits prod.splits result.splits)

section \<open>An instance\<close>














end
