(* ===== verification/Registry.thy ===== *)
theory Registry
  imports Image_Spec State_Ops Str_Ops
begin

text \<open>
  The client of an image registry (\<open>peoci/src/ocidist.rs\<close>): authentication with one retry, rate limits, and
  the checks of everything that is downloaded against its digest. The HTTP client, the cache of tokens, the
  clock, the hash function and the parsers of the crates are arguments.
\<close>

section \<open>Types\<close>

datatype reg_error =
    Reqwest | OciSpecError | DigestMismatch | SizeMismatch | NoTagOrDigest | BothTagAndDigest | RegBadDigest
  | BadDockerContentDigest | RegWrite | BadImageIndex | InvalidAuth | RegUnknown | NoMatchingManifest
  | NoImageIndexForRefWithDigest | RatelimitExceeded | DomainNotSupported bytes | BadContentType bytes
  | DigestAlgorithmNotHandled oci_digest_algorithm | StatusNotOk nat | RegistryNotSupported bytes | RegPanic

text \<open>What the code reads of a reference of the crate \<open>oci_spec\<close>.\<close>

record reference =
  rf_registry :: bytes
  rf_repository :: bytes
  rf_tag :: "bytes option"
  rf_digest :: "bytes option"
  rf_string :: bytes

record http_request =
  hq_url :: bytes
  hq_accept :: "bytes option"
  hq_query :: "(bytes \<times> bytes) list"
  hq_basic :: "(bytes \<times> bytes) option"
  hq_bearer :: "bytes option"

text \<open>The body arrives in chunks, any of which may fail.\<close>

record http_response =
  hr_status :: nat
  hr_header :: "bytes \<Rightarrow> bytes option"
  hr_chunks :: "(bytes, unit) result list"

definition OK :: nat where "OK = 200"
definition UNAUTHORIZED :: nat where "UNAUTHORIZED = 401"
definition FORBIDDEN :: nat where "FORBIDDEN = 403"
definition NOT_FOUND :: nat where "NOT_FOUND = 404"
definition TOO_MANY_REQUESTS :: nat where "TOO_MANY_REQUESTS = 429"

record token =
  tk_token :: bytes
  tk_expires_in :: nat

datatype auth = AuthNone | UserPass bytes bytes

text \<open>Instants in seconds; what lies outside the program is \<open>cl_outside\<close>.\<close>

record 'k client =
  cl_auth_store :: "bytes \<rightharpoonup> auth"
  cl_ratelimit :: "bytes \<rightharpoonup> int"
  cl_outside :: 'k

record platform_descriptor = oci_descriptor +
  pd_platform :: "(oci_arch \<times> oci_os) option"

record oci_manifest =
  om_config :: platform_descriptor
  om_layers :: "oci_descriptor list"

text \<open>
  \<open>rc_json_token\<close> sends a request for a token and parses the answer, \<open>rc_bearer_pairs\<close> is the grammar of the
  \<open>www-authenticate\<close> header, \<open>rc_timestamp\<close> the instant of a time stamp.
\<close>

record 'k reg_crates =
  rc_send :: "http_request \<Rightarrow> (http_response, unit, 'k) st"
  rc_json_token :: "http_request \<Rightarrow> (bytes \<times> nat option, unit, 'k) st"
  rc_token_get :: "bytes \<Rightarrow> 'k \<Rightarrow> token option"
  rc_token_insert :: "bytes \<Rightarrow> token \<Rightarrow> 'k \<Rightarrow> 'k"
  rc_now :: "'k \<Rightarrow> int"
  rc_timestamp :: "nat \<Rightarrow> int option"
  rc_sha256 :: "bytes \<Rightarrow> bytes"
  rc_digest_parse :: "bytes \<Rightarrow> oci_digest option"
  rc_bearer_pairs :: "bytes \<Rightarrow> (bytes \<times> bytes) list option"
  rc_media_type :: "bytes \<Rightarrow> oci_media_type"
  rc_index_parse :: "bytes \<Rightarrow> platform_descriptor list option"
  rc_manifest_parse :: "bytes \<Rightarrow> oci_manifest option"
  rc_configuration_parse :: "bytes \<Rightarrow> oci_image_configuration option"

type_synonym ('a, 'k) client_op = "('a, reg_error, 'k client) st"

definition outside :: "('a, unit, 'k) st \<Rightarrow> ('a, 'k) client_op" where
  "outside m c = (case m (cl_outside c) of (r, k) \<Rightarrow> (map_err (\<lambda>_. Reqwest) r, c\<lparr>cl_outside := k\<rparr>))"

definition client_new :: "'k \<Rightarrow> 'k client" where
  "client_new k = \<lparr>cl_auth_store = Map.empty, cl_ratelimit = Map.empty, cl_outside = k\<rparr>"

definition set_auth :: "(bytes \<rightharpoonup> auth) \<Rightarrow> 'k client \<Rightarrow> 'k client" where
  "set_auth auth_map c = c\<lparr>cl_auth_store := auth_map\<rparr>"

section \<open>Headers\<close>

text \<open>\<open>HeaderValue::to_str\<close> accepts visible ASCII and tabs.\<close>

definition header_str :: "bytes \<Rightarrow> bytes option" where
  "header_str v = (if \<forall>b \<in> set v. 0x20 \<le> b \<and> b < 0x7f \<or> b = 0x09 then Some v else None)"

record ratelimit_remaining =
  rl_quota :: nat
  rl_window :: "nat option"

text \<open>\<open>split_once\<close> with a separator of three bytes.\<close>

fun split_once_window :: "bytes \<Rightarrow> (bytes \<times> bytes) option" where
  "split_once_window [] = None"
| "split_once_window (b # s) =
     (case strip_prefix (ascii '';w='') (b # s) of
        Some r \<Rightarrow> Some ([], r)
      | None \<Rightarrow> map_option (\<lambda>(l, r). (b # l, r)) (split_once_window s))"

definition parse_ratelimit_remaining_str :: "bytes \<Rightarrow> ratelimit_remaining option" where
  "parse_ratelimit_remaining_str input =
     (case split_once_window input of
        Some (l, r) \<Rightarrow>
          Option.bind (parse_unsigned (2 ^ 32) l) (\<lambda>quota.
          Option.bind (parse_unsigned (2 ^ 32) r) (\<lambda>window. Some \<lparr>rl_quota = quota, rl_window = Some window\<rparr>))
      | None \<Rightarrow> map_option (\<lambda>quota. \<lparr>rl_quota = quota, rl_window = None\<rparr>) (parse_unsigned (2 ^ 32) input))"

definition get_ratelimit_remaining_header :: "http_response \<Rightarrow> ratelimit_remaining option" where
  "get_ratelimit_remaining_header res =
     (case hr_header res (ascii ''ratelimit-remaining'') of
        Some v \<Rightarrow> Option.bind (header_str v) parse_ratelimit_remaining_str
      | None \<Rightarrow>
          (case hr_header res (ascii ''x-ratelimit-remaining'') of
             Some v \<Rightarrow> Option.bind (header_str v) parse_ratelimit_remaining_str
           | None \<Rightarrow> None))"

definition parse_ratelimit_reset_str :: "bytes \<Rightarrow> nat option" where
  "parse_ratelimit_reset_str input = parse_unsigned (2 ^ 64) input"

definition get_ratelimit_reset_header :: "http_response \<Rightarrow> nat option" where
  "get_ratelimit_reset_header res =
     (case hr_header res (ascii ''ratelimit-reset'') of
        Some v \<Rightarrow> Option.bind (header_str v) parse_ratelimit_reset_str
      | None \<Rightarrow>
          (case hr_header res (ascii ''x-ratelimit-reset'') of
             Some v \<Rightarrow> Option.bind (header_str v) parse_ratelimit_reset_str
           | None \<Rightarrow> None))"

record www_authenticate_bearer =
  wa_realm :: "bytes option"
  wa_service :: "bytes option"
  wa_scope :: "bytes option"

fun collect_bearer :: "(bytes \<times> bytes) list \<Rightarrow> www_authenticate_bearer \<Rightarrow> www_authenticate_bearer" where
  "collect_bearer [] ret = ret"
| "collect_bearer ((k, v) # kvs) ret =
     collect_bearer kvs
       (if k = ascii ''realm'' then ret\<lparr>wa_realm := Some v\<rparr>
        else if k = ascii ''service'' then ret\<lparr>wa_service := Some v\<rparr>
        else if k = ascii ''scope'' then ret\<lparr>wa_scope := Some v\<rparr> else ret)"

definition parse_www_authenticate_bearer_str :: "'k reg_crates \<Rightarrow> bytes \<Rightarrow> www_authenticate_bearer option" where
  "parse_www_authenticate_bearer_str rc input =
     map_option (\<lambda>kvs. collect_bearer kvs \<lparr>wa_realm = None, wa_service = None, wa_scope = None\<rparr>) (rc_bearer_pairs rc input)"

definition parse_www_authenticate_bearer_header :: "'k reg_crates \<Rightarrow> bytes \<Rightarrow> (bytes \<times> bytes) option" where
  "parse_www_authenticate_bearer_header rc v =
     Option.bind (header_str v) (\<lambda>input.
     Option.bind (parse_www_authenticate_bearer_str rc input) (\<lambda>res.
     Option.bind (wa_realm res) (\<lambda>realm. Option.bind (wa_service res) (\<lambda>service. Some (realm, service)))))"

section \<open>Digests\<close>

definition hex_lut :: "u8 list" where
  "hex_lut = [48, 49, 50, 51, 52, 53, 54, 55, 56, 57, 97, 98, 99, 100, 101, 102]"

text \<open>\<open>chunks_exact(2)\<close> zipped with the bytes of the digest.\<close>

fun pairs_match :: "bytes \<Rightarrow> bytes \<Rightarrow> bool" where
  "pairs_match (p # q # s) (b # bs) \<longleftrightarrow>
     hex_lut ! unat (drop_bit 4 b) = p \<and> hex_lut ! unat (and b 0xf) = q \<and> pairs_match s bs"
| "pairs_match _ _ \<longleftrightarrow> True"

definition digest_eq :: "bytes \<Rightarrow> bytes \<Rightarrow> bool" where
  "digest_eq digest_lower_hex_str digest_bytes \<longleftrightarrow>
     length digest_lower_hex_str = 2 * length digest_bytes \<and> pairs_match digest_lower_hex_str digest_bytes"

definition data_matches_digest :: "'k reg_crates \<Rightarrow> oci_digest \<Rightarrow> bytes \<Rightarrow> (bool, reg_error) result" where
  "data_matches_digest rc expected data =
     (case dg_algorithm expected of
        ASha256 \<Rightarrow> Ok (digest_eq (dg_digest expected) (rc_sha256 rc data))
      | a \<Rightarrow> Err (DigestAlgorithmNotHandled a))"

definition check_data_matches_digest :: "'k reg_crates \<Rightarrow> oci_digest option \<Rightarrow> bytes \<Rightarrow> (unit, reg_error) result" where
  "check_data_matches_digest rc expected data =
     (case expected of
        Some d \<Rightarrow> bindr (data_matches_digest rc d data) (\<lambda>ok. if ok then Ok () else Err DigestMismatch)
      | None \<Rightarrow> Ok ())"

definition check_data_matches_descriptor ::
    "'k reg_crates \<Rightarrow> 'z oci_descriptor_scheme \<Rightarrow> bytes \<Rightarrow> (unit, reg_error) result" where
  "check_data_matches_descriptor rc expected data =
     (if od_size expected \<noteq> of_nat (length data) then Err SizeMismatch
      else bindr (data_matches_digest rc (od_digest expected) data) (\<lambda>ok. if ok then Ok () else Err DigestMismatch))"

definition check_digest_matches :: "oci_digest \<Rightarrow> bytes \<Rightarrow> (unit, reg_error) result" where
  "check_digest_matches expected digest = (if digest_eq (dg_digest expected) digest then Ok () else Err DigestMismatch)"

text \<open>None is the panic of the \<open>unwrap\<close>.\<close>

definition digest_from_data :: "oci_crate \<Rightarrow> 'k reg_crates \<Rightarrow> bytes \<Rightarrow> oci_digest option" where
  "digest_from_data cr rc x = sha256_parse cr (hex_encode cr (rc_sha256 rc x))"

definition get_docker_content_digest :: "'k reg_crates \<Rightarrow> http_response \<Rightarrow> (oci_digest option, reg_error) result" where
  "get_docker_content_digest rc res =
     (case hr_header res (ascii ''docker-content-digest'') of
        None \<Rightarrow> Ok None
      | Some v \<Rightarrow>
          mapr Some (ok_or BadDockerContentDigest (Option.bind (header_str v) (rc_digest_parse rc))))"

section \<open>Rate limits\<close>

definition DEFAULT_RATELIMIT_RESET :: nat where "DEFAULT_RATELIMIT_RESET = 60"

definition check_ratelimit :: "'k reg_crates \<Rightarrow> reference \<Rightarrow> (unit, 'k) client_op" where
  "check_ratelimit rc ref c =
     (case cl_ratelimit c (rf_registry ref) of
        None \<Rightarrow> (Ok (), c)
      | Some ratelimit_end \<Rightarrow>
          if rc_now rc (cl_outside c) < ratelimit_end then (Err RatelimitExceeded, c)
          else (Ok (), c\<lparr>cl_ratelimit := (cl_ratelimit c)(rf_registry ref := None)\<rparr>))"

definition ratelimit_end :: "'k reg_crates \<Rightarrow> int \<Rightarrow> nat option \<Rightarrow> int" where
  "ratelimit_end rc now reset =
     (case reset of
        Some reset \<Rightarrow>
          (let time = (case (if reset < 2 ^ 63 then rc_timestamp rc reset else None) of
                         Some t \<Rightarrow> t | None \<Rightarrow> now + int DEFAULT_RATELIMIT_RESET)
           in if time < now then now + int reset else time)
      | None \<Rightarrow> now + int DEFAULT_RATELIMIT_RESET)"

definition handle_ratelimit :: "'k reg_crates \<Rightarrow> reference \<Rightarrow> http_response \<Rightarrow> (unit, 'k) client_op" where
  "handle_ratelimit rc ref res c =
     (if hr_status res \<noteq> FORBIDDEN \<and> hr_status res \<noteq> TOO_MANY_REQUESTS then (Ok (), c)
      else (Err RatelimitExceeded,
            c\<lparr>cl_ratelimit := (cl_ratelimit c)(rf_registry ref \<mapsto>
                ratelimit_end rc (rc_now rc (cl_outside c)) (get_ratelimit_reset_header res))\<rparr>))"

section \<open>Requests\<close>

definition token_cache_key :: "reference \<Rightarrow> bytes" where
  "token_cache_key ref = rf_registry ref @ slash # rf_repository ref"

definition retreive_token_user_pass ::
    "'k reg_crates \<Rightarrow> reference \<Rightarrow> bytes \<times> bytes \<Rightarrow> bytes \<Rightarrow> bytes \<Rightarrow> (token, 'k) client_op" where
  "retreive_token_user_pass rc ref www_auth user pass =
     st_bind (outside (rc_json_token rc
        \<lparr>hq_url = fst www_auth, hq_accept = None,
         hq_query = [(ascii ''scope'', ascii ''repository:'' @ rf_repository ref @ ascii '':pull''), (ascii ''service'', snd www_auth)],
         hq_basic = Some (user, pass), hq_bearer = None\<rparr>))
       (\<lambda>(tok, expires_in). st_ok \<lparr>tk_token = tok, tk_expires_in = (case expires_in of Some n \<Rightarrow> n | None \<Rightarrow> 60)\<rparr>)"

text \<open>\<open>or_try_insert_with\<close>: a token of the cache, or a new one that is put there.\<close>

definition get_token_for :: "'k reg_crates \<Rightarrow> reference \<Rightarrow> bytes \<times> bytes \<Rightarrow> (token option, 'k) client_op" where
  "get_token_for rc ref www_auth c =
     (case cl_auth_store c (rf_registry ref) of
        None \<Rightarrow> (Err (RegistryNotSupported (rf_registry ref)), c)
      | Some AuthNone \<Rightarrow> (Ok None, c)
      | Some (UserPass user pass) \<Rightarrow>
          (case rc_token_get rc (token_cache_key ref) (cl_outside c) of
             Some t \<Rightarrow> (Ok (Some t), c)
           | None \<Rightarrow>
               (case retreive_token_user_pass rc ref www_auth user pass c of
                  (Err _, c') \<Rightarrow> (Err RegUnknown, c')
                | (Ok t, c') \<Rightarrow>
                    (Ok (Some t), c'\<lparr>cl_outside := rc_token_insert rc (token_cache_key ref) t (cl_outside c')\<rparr>))))"

definition auth_and_retry :: "'k reg_crates \<Rightarrow> reference \<Rightarrow> http_request \<Rightarrow> (http_response, 'k) client_op" where
  "auth_and_retry rc ref req =
     st_seq (check_ratelimit rc ref)
     (st_with (\<lambda>c.
      st_bind (outside (rc_send rc
        (case rc_token_get rc (token_cache_key ref) (cl_outside c) of
           Some t \<Rightarrow> req\<lparr>hq_bearer := Some (tk_token t)\<rparr> | None \<Rightarrow> req))) (\<lambda>res.
      st_seq (handle_ratelimit rc ref res)
      (if hr_status res \<noteq> UNAUTHORIZED then st_ok res
       else st_bind (st_lift (ok_or (StatusNotOk UNAUTHORIZED)
              (Option.bind (hr_header res (ascii ''www-authenticate'')) (parse_www_authenticate_bearer_header rc)))) (\<lambda>www_auth.
            st_bind (get_token_for rc ref www_auth) (\<lambda>tok.
            st_bind (st_lift (ok_or (StatusNotOk UNAUTHORIZED) tok)) (\<lambda>t.
            st_bind (outside (rc_send rc (req\<lparr>hq_bearer := Some (tk_token t)\<rparr>))) (\<lambda>res.
            st_seq (handle_ratelimit rc ref res) (st_ok res)))))))))"

text \<open>The whole body.\<close>

fun response_bytes :: "(bytes, unit) result list \<Rightarrow> (bytes, reg_error) result" where
  "response_bytes [] = Ok []"
| "response_bytes (Err _ # cs) = Err Reqwest"
| "response_bytes (Ok c # cs) = mapr (\<lambda>rest. c @ rest) (response_bytes cs)"

datatype tag_or_digest = Tag bytes | DigestRef bytes

fun tag_or_digest_of :: "reference \<Rightarrow> (tag_or_digest, reg_error) result" where
  "tag_or_digest_of r =
     (case (rf_tag r, rf_digest r) of
        (Some t, None) \<Rightarrow> Ok (Tag t)
      | (_, Some d) \<Rightarrow> Ok (DigestRef d)
      | (None, None) \<Rightarrow> Err NoTagOrDigest)"

fun tag_or_digest_str :: "tag_or_digest \<Rightarrow> bytes" where
  "tag_or_digest_str (Tag s) = s"
| "tag_or_digest_str (DigestRef s) = s"

definition get_request :: "bytes \<Rightarrow> bytes option \<Rightarrow> http_request" where
  "get_request url accept = \<lparr>hq_url = url, hq_accept = accept, hq_query = [], hq_basic = None, hq_bearer = None\<rparr>"

definition get_manifest ::
    "'k reg_crates \<Rightarrow> reference \<Rightarrow> bytes \<Rightarrow> ((bytes \<times> oci_digest option \<times> bytes) option, 'k) client_op" where
  "get_manifest rc ref accept =
     st_bind (st_lift (tag_or_digest_of ref)) (\<lambda>td.
     st_bind (auth_and_retry rc ref (get_request
         (ascii ''https://'' @ rf_registry ref @ ascii ''/v2/'' @ rf_repository ref @ ascii ''/manifests/'' @ tag_or_digest_str td)
         (Some accept))) (\<lambda>res.
       if hr_status res = OK
       then st_bind (st_lift (case td of
                DigestRef s \<Rightarrow> mapr Some (ok_or RegBadDigest (rc_digest_parse rc s))
              | Tag _ \<Rightarrow> get_docker_content_digest rc res)) (\<lambda>digest.
            let content_type =
                  (case hr_header res (ascii ''content-type'') of
                     Some v \<Rightarrow> (case header_str v of Some s \<Rightarrow> s | None \<Rightarrow> []) | None \<Rightarrow> [])
            in st_bind (st_lift (response_bytes (hr_chunks res))) (\<lambda>data.
               st_seq (st_lift (check_data_matches_digest rc digest data))
                 (st_ok (Some (content_type, digest, data)))))
       else if hr_status res = NOT_FOUND then st_ok None
       else st_err (StatusNotOk (hr_status res))))"

definition OCI_IMAGE_INDEX_V1 :: bytes where "OCI_IMAGE_INDEX_V1 = ascii ''application/vnd.oci.image.index.v1+json''"
definition OCI_IMAGE_MANIFEST_V1 :: bytes where "OCI_IMAGE_MANIFEST_V1 = ascii ''application/vnd.oci.image.manifest.v1+json''"
definition DOCKER_IMAGE_MANIFEST_V2 :: bytes where
  "DOCKER_IMAGE_MANIFEST_V2 = ascii ''application/vnd.docker.distribution.manifest.v2+json''"
definition DOCKER_IMAGE_MANIFEST_LIST_V2 :: bytes where
  "DOCKER_IMAGE_MANIFEST_LIST_V2 = ascii ''application/vnd.docker.distribution.manifest.list.v2+json''"
definition ACCEPTED_IMAGE_MANIFEST :: bytes where
  "ACCEPTED_IMAGE_MANIFEST = OCI_IMAGE_MANIFEST_V1 @ ascii '', '' @ DOCKER_IMAGE_MANIFEST_V2"
definition ACCEPTED_IMAGE_INDEX :: bytes where
  "ACCEPTED_IMAGE_INDEX = OCI_IMAGE_INDEX_V1 @ ascii '', '' @ DOCKER_IMAGE_MANIFEST_LIST_V2"

text \<open>A manifest or a configuration as it was received, with its digest.\<close>

record verified_bytes =
  vb_digest :: oci_digest
  vb_data :: bytes

definition get_image_manifest ::
    "oci_crate \<Rightarrow> 'k reg_crates \<Rightarrow> reference \<Rightarrow> (verified_bytes option, 'k) client_op" where
  "get_image_manifest cr rc ref =
     st_bind (get_manifest rc ref ACCEPTED_IMAGE_MANIFEST) (\<lambda>m.
       case m of
         None \<Rightarrow> st_ok None
       | Some (content_type, digest, data) \<Rightarrow>
           if content_type \<noteq> OCI_IMAGE_MANIFEST_V1 \<and> content_type \<noteq> DOCKER_IMAGE_MANIFEST_V2
           then st_err (BadContentType content_type)
           else case (case digest of Some d \<Rightarrow> Some d | None \<Rightarrow> digest_from_data cr rc data) of
                  None \<Rightarrow> st_err RegPanic
                | Some d \<Rightarrow> st_ok (Some \<lparr>vb_digest = d, vb_data = data\<rparr>))"

definition get_image_index :: "'k reg_crates \<Rightarrow> reference \<Rightarrow> (bytes option, 'k) client_op" where
  "get_image_index rc ref =
     (if rf_digest ref \<noteq> None then st_err NoImageIndexForRefWithDigest
      else st_bind (get_manifest rc ref ACCEPTED_IMAGE_INDEX) (\<lambda>m.
             case m of
               None \<Rightarrow> st_ok None
             | Some (content_type, _, data) \<Rightarrow>
                 if content_type \<noteq> OCI_IMAGE_INDEX_V1 \<and> content_type \<noteq> DOCKER_IMAGE_MANIFEST_LIST_V2
                 then st_err (BadContentType content_type) else st_ok (Some data)))"

definition matches_platform :: "oci_arch \<Rightarrow> oci_os \<Rightarrow> platform_descriptor \<Rightarrow> bool" where
  "matches_platform arch os d = (case pd_platform d of Some (a, oo) \<Rightarrow> a = arch \<and> oo = os | None \<Rightarrow> False)"

definition get_matching_descriptor_from_index ::
    "oci_crate \<Rightarrow> 'k reg_crates \<Rightarrow> reference \<Rightarrow> oci_arch \<Rightarrow> oci_os \<Rightarrow> (oci_descriptor option, 'k) client_op" where
  "get_matching_descriptor_from_index cr rc ref arch os =
     st_bind (get_manifest rc ref ACCEPTED_IMAGE_INDEX) (\<lambda>m.
       case m of
         None \<Rightarrow> st_ok None
       | Some (content_type, digest, data) \<Rightarrow>
           if content_type = OCI_IMAGE_INDEX_V1 \<or> content_type = DOCKER_IMAGE_MANIFEST_LIST_V2
           then (case rc_index_parse rc data of
                   None \<Rightarrow> st_err OciSpecError
                 | Some manifests \<Rightarrow>
                     (case find (matches_platform arch os) manifests of
                        Some d \<Rightarrow> st_ok (Some (oci_descriptor.truncate d))
                      | None \<Rightarrow> st_err NoMatchingManifest))
           else if content_type = OCI_IMAGE_MANIFEST_V1 \<or> content_type = DOCKER_IMAGE_MANIFEST_V2
           then (case (case digest of Some d \<Rightarrow> Some d | None \<Rightarrow> digest_from_data cr rc data) of
                   None \<Rightarrow> st_err RegPanic
                 | Some d \<Rightarrow>
                     (case rc_manifest_parse rc data of
                        None \<Rightarrow> st_err OciSpecError
                      | Some manifest \<Rightarrow>
                          if (case pd_platform (om_config manifest) of
                                Some (a, oo) \<Rightarrow> a \<noteq> arch \<or> oo \<noteq> os
                              | None \<Rightarrow> arch \<noteq> OAmd64 \<and> os \<noteq> OLinux)
                          then st_err NoMatchingManifest
                          else st_ok (Some (descriptor_new cr (rc_media_type rc content_type) (of_nat (length data)) d))))
           else st_err (BadContentType content_type))"

definition request_blob :: "oci_crate \<Rightarrow> 'k reg_crates \<Rightarrow> reference \<Rightarrow> 'z oci_descriptor_scheme \<Rightarrow> (http_response, 'k) client_op" where
  "request_blob cr rc ref d =
     auth_and_retry rc ref (get_request
       (ascii ''https://'' @ rf_registry ref @ ascii ''/v2/'' @ rf_repository ref @ ascii ''/blobs/'' @
          algorithm_string cr (dg_algorithm (od_digest d)) @ ascii '':'' @ dg_digest (od_digest d)) None)"

definition get_image_configuration ::
    "oci_crate \<Rightarrow> 'k reg_crates \<Rightarrow> reference \<Rightarrow> 'z oci_descriptor_scheme \<Rightarrow> (verified_bytes option, 'k) client_op" where
  "get_image_configuration cr rc ref d =
     st_bind (request_blob cr rc ref d) (\<lambda>res.
       if hr_status res = OK
       then st_bind (st_lift (response_bytes (hr_chunks res))) (\<lambda>data.
            st_seq (st_lift (check_data_matches_descriptor rc d data))
              (st_ok (Some \<lparr>vb_digest = od_digest d, vb_data = data\<rparr>)))
       else if hr_status res = NOT_FOUND then st_ok None
       else st_err (StatusNotOk (hr_status res)))"

text \<open>The loop over the chunks: length, hashed bytes and what the writer has taken.\<close>

fun pump :: "(bytes \<Rightarrow> 'w \<Rightarrow> bool \<times> 'w) \<Rightarrow> (bytes, unit) result list \<Rightarrow> nat \<Rightarrow> bytes \<Rightarrow> (nat \<times> bytes, reg_error, 'w) st" where
  "pump wr [] len hashed w = (Ok (len, hashed), w)"
| "pump wr (Err _ # cs) len hashed w = (Err Reqwest, w)"
| "pump wr (Ok c # cs) len hashed w =
     (case wr c w of
        (False, w') \<Rightarrow> (Err RegWrite, w')
      | (True, w') \<Rightarrow> pump wr cs (len + length c) (hashed @ c) w')"

definition receive_blob ::
    "'k reg_crates \<Rightarrow> (bytes \<Rightarrow> 'w \<Rightarrow> bool \<times> 'w) \<Rightarrow> ('w \<Rightarrow> bool \<times> 'w) \<Rightarrow> 'z oci_descriptor_scheme \<Rightarrow> http_response \<Rightarrow>
       (nat option, reg_error, 'w) st" where
  "receive_blob rc wr flush d res =
     (if hr_status res = NOT_FOUND then st_ok None
      else if hr_status res \<noteq> OK then st_err (StatusNotOk (hr_status res))
      else case dg_algorithm (od_digest d) of
             ASha256 \<Rightarrow>
               st_bind (pump wr (hr_chunks res) 0 []) (\<lambda>(len, hashed).
               st_seq (\<lambda>w. case flush w of (ok, w') \<Rightarrow> (if ok then Ok () else Err RegWrite, w'))
               (if od_size d \<noteq> of_nat len then st_err SizeMismatch
                else st_seq (st_lift (check_digest_matches (od_digest d) (rc_sha256 rc hashed))) (st_ok (Some len))))
           | a \<Rightarrow> st_err (DigestAlgorithmNotHandled a))"

definition get_blob ::
    "oci_crate \<Rightarrow> 'k reg_crates \<Rightarrow> (bytes \<Rightarrow> 'w \<Rightarrow> bool \<times> 'w) \<Rightarrow> ('w \<Rightarrow> bool \<times> 'w) \<Rightarrow> reference \<Rightarrow> 'z oci_descriptor_scheme \<Rightarrow>
       (nat option, reg_error, 'k client \<times> 'w) st" where
  "get_blob cr rc wr flush ref d cw =
     (case request_blob cr rc ref d (fst cw) of
        (Err e, c) \<Rightarrow> (Err e, c, snd cw)
      | (Ok res, c) \<Rightarrow> (case receive_blob rc wr flush d res (snd cw) of (r, w) \<Rightarrow> (r, c, w)))"

end
