(* ===== verification/Registry_Props.thy ===== *)
theory Registry_Props
  imports Registry Byte_Sink
begin

text \<open>
  Nothing is accepted from a registry that does not match its digest, and a registry that refused a request
  is left alone until its limit ends.
\<close>

section \<open>Digests\<close>

lemma lut_digit: "(v :: u8) < 16 \<Longrightarrow> hex_lut ! unat v = hex_digit v"
proof -
  assume v: "v < 16"
  then have "unat v \<in> set [0..<16]" by (simp add: word_less_nat_alt)
  moreover have "list_all (\<lambda>n. hex_lut ! n = hex_digit (of_nat n)) [0..<16]" by code_simp
  ultimately have "hex_lut ! unat v = hex_digit (of_nat (unat v))" unfolding list_all_iff by blast
  then show ?thesis by simp
qed

lemma nibble_ops: "drop_bit 4 (b :: u8) = b div 16" "and b 0xf = b mod 16"
proof -
  show "drop_bit 4 b = b div 16" by (simp add: drop_bit_eq_div)
  have "and b (mask 4) = b mod 16" by (simp flip: take_bit_eq_mask add: take_bit_eq_mod)
  then show "and b 0xf = b mod 16" by (simp add: mask_eq_exp_minus_1)
qed

lemma pairs_match_hex: "length s = 2 * length bs \<Longrightarrow> pairs_match s bs \<longleftrightarrow> s = lower_hex bs"
proof (induction s bs rule: pairs_match.induct)
  case (1 p q s b bs)
  then show ?case by (auto simp: nibble_ops lut_digit nibbles)
qed auto

text \<open>
  Comparing a digest nibble by nibble with the hash is comparing it with the lower-case hexadecimal form of
  the hash, for strings of any length.
\<close>

lemma digest_eq_hex: "digest_eq s d \<longleftrightarrow> s = lower_hex d"
  using pairs_match_hex [of s d] by (auto simp: digest_eq_def length_lower_hex)

text \<open>A digest of some data: the algorithm is SHA-256 and the digits are those of its hash.\<close>

definition digest_of :: "'k reg_crates \<Rightarrow> oci_digest \<Rightarrow> bytes \<Rightarrow> bool" where
  "digest_of rc d data \<longleftrightarrow> dg_algorithm d = ASha256 \<and> dg_digest d = lower_hex (rc_sha256 rc data)"

lemma data_matches: "data_matches_digest rc d data = Ok True \<longleftrightarrow> digest_of rc d data"
  by (auto simp: data_matches_digest_def digest_of_def digest_eq_hex split: oci_digest_algorithm.splits)

lemma check_digest: "check_data_matches_digest rc (Some d) data = Ok u \<longleftrightarrow> digest_of rc d data"
  using data_matches [of rc d data] by (auto simp: check_data_matches_digest_def result_simps split: if_splits)

lemma check_descriptor:
  "check_data_matches_descriptor rc d data = Ok u \<longleftrightarrow> od_size d = of_nat (length data) \<and> digest_of rc (od_digest d) data"
  using data_matches [of rc "od_digest d" data]
  by (auto simp: check_data_matches_descriptor_def result_simps split: if_splits)

section \<open>Downloads\<close>

context byte_sink
begin

lemma pump_writes:
  "pump iw cs len hashed w = (Ok (len', hashed'), w') \<Longrightarrow> inv w \<Longrightarrow>
     \<exists>data. len' = len + length data \<and> hashed' = hashed @ data \<and> inv w' \<and> out w' = out w @ data"
proof (induction cs arbitrary: len hashed w)
  case (Cons c cs)
  then obtain b where b: "c = Ok b" by (cases c) auto
  with Cons.prems(1) obtain w1 where w1: "iw b w = (True, w1)"
    "pump iw cs (len + length b) (hashed @ b) w1 = (Ok (len', hashed'), w')"
    by (auto split: prod.split_asm bool.split_asm)
  from accepted [OF Cons.prems(2) w1(1)] Cons.IH [OF w1(2)] show ?case by auto
qed auto

end

lemma receive_ok:
  assumes "receive_blob rc wr flush d res w = (Ok (Some n), w')"
  shows "\<exists>hashed w1. dg_algorithm (od_digest d) = ASha256 \<and> pump wr (hr_chunks res) 0 [] w = (Ok (n, hashed), w1) \<and>
    flush w1 = (True, w') \<and> od_size d = of_nat n \<and> digest_eq (dg_digest (od_digest d)) (rc_sha256 rc hashed)"
proof -
  have st: "hr_status res = OK" "hr_status res \<noteq> NOT_FOUND" and alg: "dg_algorithm (od_digest d) = ASha256"
    using assms by (auto simp: receive_blob_def st_run OK_def NOT_FOUND_def split: if_split_asm oci_digest_algorithm.split_asm)
  have ne: "OK \<noteq> NOT_FOUND" by (simp add: OK_def NOT_FOUND_def)
  note run = assms [unfolded receive_blob_def alg st(1) if_not_P [OF ne] oci_digest_algorithm.case, simplified]
  obtain r w1 where p: "pump wr (hr_chunks res) 0 [] w = (r, w1)" by fastforce
  then obtain len hashed where r: "r = Ok (len, hashed)" using run by (cases r) (auto simp: st_bind_def)
  obtain ok w2 where f: "flush w1 = (ok, w2)" by fastforce
  show ?thesis
    using run p r f alg
    by (cases ok; cases "od_size d = of_nat len"; cases "digest_eq (dg_digest (od_digest d)) (rc_sha256 rc hashed)")
      (simp_all add: st_bind_def st_seq_def st_run check_digest_matches_def)
qed

text \<open>
  (C21) A blob that is accepted is the blob that was asked for: the writer has received exactly some bytes
  whose number is the size of the descriptor and whose SHA-256 is its digest.
\<close>

theorem blob_verified:
  assumes "byte_sink wr good out" and "\<And>w w'. good w \<Longrightarrow> flush w = (True, w') \<Longrightarrow> good w' \<and> out w' = out w"
    and "get_blob cr rc wr flush ref d (c, w) = (Ok (Some n), c', w')" and "good w"
  shows "\<exists>data. out w' = out w @ data \<and> n = length data \<and> od_size d = of_nat n \<and> digest_of rc (od_digest d) data"
proof -
  obtain res where "receive_blob rc wr flush d res w = (Ok (Some n), w')"
    using assms(3) by (auto simp: get_blob_def split: prod.split_asm result.split_asm)
  from receive_ok [OF this] obtain hashed w1 where
    p: "pump wr (hr_chunks res) 0 [] w = (Ok (n, hashed), w1)" and fl: "flush w1 = (True, w')"
    and n: "od_size d = of_nat n" and dg: "digest_eq (dg_digest (od_digest d)) (rc_sha256 rc hashed)"
    and alg: "dg_algorithm (od_digest d) = ASha256" by blast
  from byte_sink.pump_writes [OF assms(1) p assms(4)] obtain data where
    data: "n = length data" "hashed = data" "good w1" "out w1 = out w @ data" by auto
  with assms(2) fl n dg alg show ?thesis
    by (auto simp: digest_of_def digest_eq_hex)
qed

lemma manifest_ok:
  assumes "get_manifest rc ref accept c = (Ok (Some (ct, digest, data)), c')"
  shows "(case digest of Some d \<Rightarrow> digest_of rc d data | None \<Rightarrow> True)"
    "rf_digest ref = Some s \<Longrightarrow> \<exists>d. rc_digest_parse rc s = Some d \<and> digest = Some d"
proof -
  from assms obtain td res c1 where td: "tag_or_digest_of ref = Ok td"
    and dg: "(case td of DigestRef s \<Rightarrow> mapr Some (ok_or RegBadDigest (rc_digest_parse rc s))
              | Tag _ \<Rightarrow> get_docker_content_digest rc res) = Ok digest"
    and ck: "check_data_matches_digest rc digest data = Ok ()"
    by (auto simp: get_manifest_def st_bind_Ok st_seq_Ok st_run Let_def split: if_split_asm)
  show "case digest of Some d \<Rightarrow> digest_of rc d data | None \<Rightarrow> True"
    using ck check_digest by (auto split: option.split)
  show "\<exists>d. rc_digest_parse rc s = Some d \<and> digest = Some d" if "rf_digest ref = Some s"
    using td dg that by (auto simp: result_simps split: option.split_asm)
qed

text \<open>A manifest for a reference with a digest has that digest.\<close>

lemma image_manifest_verified:
  assumes "rf_digest ref = Some s" and run: "get_image_manifest cr rc ref c = (Ok (Some v), c')"
  shows "rc_digest_parse rc s = Some (vb_digest v)" "digest_of rc (vb_digest v) (vb_data v)"
proof -
  obtain m c1 where m1: "get_manifest rc ref ACCEPTED_IMAGE_MANIFEST c = (m, c1)" by fastforce
  with run obtain ct digest data where "m = Ok (Some (ct, digest, data))"
    by (cases m; cases "case m of Ok x \<Rightarrow> x | Err _ \<Rightarrow> None") (auto simp: get_image_manifest_def st_bind_def st_run)
  with m1 run have m: "get_manifest rc ref ACCEPTED_IMAGE_MANIFEST c = (Ok (Some (ct, digest, data)), c')"
    and v: "(case digest of Some d \<Rightarrow> Some d | None \<Rightarrow> digest_from_data cr rc data) = Some (vb_digest v)" "vb_data v = data"
    by (auto simp: get_image_manifest_def st_bind_def st_run split: if_split_asm option.split_asm)
  from manifest_ok [OF m] assms v show "rc_digest_parse rc s = Some (vb_digest v)" "digest_of rc (vb_digest v) (vb_data v)"
    by auto
qed

lemma image_configuration_verified:
  assumes "get_image_configuration cr rc ref d c = (Ok (Some v), c')"
  shows "od_size d = of_nat (length (vb_data v)) \<and> vb_digest v = od_digest d \<and> digest_of rc (od_digest d) (vb_data v)"
  using assms
  by (auto simp: get_image_configuration_def st_bind_Ok st_seq_Ok st_run check_descriptor split: if_split_asm)

section \<open>Rate limits\<close>

text \<open>The end of a limit is never in the past.\<close>

lemma ratelimit_end_future: "now \<le> ratelimit_end rc now reset"
  by (auto simp: ratelimit_end_def Let_def split: option.split)

text \<open>How long a registry that limits requests is left alone, given the number in its reset header.\<close>

definition limited_until :: "'k reg_crates \<Rightarrow> int \<Rightarrow> nat option \<Rightarrow> int \<Rightarrow> bool" where
  "limited_until rc now reset t \<longleftrightarrow>
     (reset = None \<longrightarrow> t = now + 60) \<and>
     (\<forall>n u. reset = Some n \<longrightarrow> n < 2 ^ 63 \<longrightarrow> rc_timestamp rc n = Some u \<longrightarrow> t = (if now \<le> u then u else now + int n)) \<and>
     (\<forall>n. reset = Some n \<longrightarrow> 2 ^ 63 \<le> n \<or> rc_timestamp rc n = None \<longrightarrow> t = now + 60)"

lemma limited_until_end: "limited_until rc now reset (ratelimit_end rc now reset)"
  by (auto simp: limited_until_def ratelimit_end_def DEFAULT_RATELIMIT_RESET_def Let_def split: option.split)

abbreviation is_limit :: "http_response \<Rightarrow> bool" where
  "is_limit res \<equiv> hr_status res = 403 \<or> hr_status res = 429"

lemma handle_ratelimit_cases:
  "handle_ratelimit rc ref res c = (r, c') \<longleftrightarrow>
     (if is_limit res
      then r = Err RatelimitExceeded \<and> c' = c\<lparr>cl_ratelimit := (cl_ratelimit c)(rf_registry ref \<mapsto>
        ratelimit_end rc (rc_now rc (cl_outside c)) (get_ratelimit_reset_header res))\<rparr>
      else r = Ok () \<and> c' = c)"
  by (auto simp: handle_ratelimit_def FORBIDDEN_def TOO_MANY_REQUESTS_def)

text \<open>
  Operations that neither note a limit nor report one, and those that end with a response or with a limit that
  has been noted.
\<close>

definition quiet :: "('a, 'k) client_op \<Rightarrow> bool" where
  "quiet m \<longleftrightarrow> (\<forall>c r c'. m c = (r, c') \<longrightarrow> cl_ratelimit c' = cl_ratelimit c \<and> r \<noteq> Err RatelimitExceeded)"

definition noting :: "'k reg_crates \<Rightarrow> reference \<Rightarrow> (http_response, 'k) client_op \<Rightarrow> bool" where
  "noting rc ref m \<longleftrightarrow> (\<forall>c r c'. m c = (r, c') \<longrightarrow>
     (\<forall>res. r = Ok res \<longrightarrow> \<not> is_limit res) \<and>
     (if r = Err RatelimitExceeded
      then \<exists>res t. is_limit res \<and> limited_until rc (rc_now rc (cl_outside c')) (get_ratelimit_reset_header res) t \<and>
             cl_ratelimit c' = (cl_ratelimit c)(rf_registry ref \<mapsto> t)
      else cl_ratelimit c' = cl_ratelimit c))"

lemma map_err_other [simp]: "e \<noteq> e' \<Longrightarrow> map_err (\<lambda>_. e) r \<noteq> Err e'"
  by (cases r) simp_all

lemma quiet_ops:
  "quiet (outside m)" "quiet (get_token_for rc ref w)" "e \<noteq> RatelimitExceeded \<Longrightarrow> quiet (st_lift (ok_or e x))"
proof -
  show "quiet (outside m)" by (auto simp: quiet_def outside_def split: prod.split_asm)
  show "quiet (get_token_for rc ref w)"
    by (auto simp: quiet_def get_token_for_def retreive_token_user_pass_def outside_def st_bind_def st_run
        split: option.split_asm auth.split_asm prod.split_asm result.split_asm)
  show "quiet (st_lift (ok_or e x))" if "e \<noteq> RatelimitExceeded" using that by (cases x) (auto simp: quiet_def st_run)
qed

lemma noting_ok: "\<not> is_limit res \<Longrightarrow> noting rc ref (st_ok res)"
  by (simp add: noting_def st_run)

lemma noting_bind: "quiet m \<Longrightarrow> (\<And>x. noting rc ref (f x)) \<Longrightarrow> noting rc ref (st_bind m f)"
  unfolding quiet_def noting_def st_bind_def by (fastforce split: prod.split_asm result.split_asm)

lemma noting_handle:
  assumes "\<not> is_limit res \<Longrightarrow> noting rc ref m"
  shows "noting rc ref (st_seq (handle_ratelimit rc ref res) m)"
proof (cases "is_limit res")
  case True
  then show ?thesis using limited_until_end by (fastforce simp: noting_def st_seq_def st_bind_def handle_ratelimit_def FORBIDDEN_def TOO_MANY_REQUESTS_def)
next
  case False
  then have "st_seq (handle_ratelimit rc ref res) m = m"
    by (simp add: fun_eq_iff st_seq_def st_bind_def handle_ratelimit_def FORBIDDEN_def TOO_MANY_REQUESTS_def)
  with assms False show ?thesis by simp
qed

lemma noting_if: "noting rc ref m \<Longrightarrow> noting rc ref n \<Longrightarrow> noting rc ref (if b then m else n)"
  by simp

text \<open>A request that is not held back sends a message; what follows once its answer is no limit is \<open>retry\<close>.\<close>

definition first_message :: "'k reg_crates \<Rightarrow> reference \<Rightarrow> http_request \<Rightarrow> 'k \<Rightarrow> http_request" where
  "first_message rc ref req k =
     (case rc_token_get rc (token_cache_key ref) k of Some t \<Rightarrow> req\<lparr>hq_bearer := Some (tk_token t)\<rparr> | None \<Rightarrow> req)"

definition retry :: "'k reg_crates \<Rightarrow> reference \<Rightarrow> http_request \<Rightarrow> http_response \<Rightarrow> (http_response, 'k) client_op" where
  "retry rc ref req res =
     (if hr_status res \<noteq> UNAUTHORIZED then st_ok res
      else st_bind (st_lift (ok_or (StatusNotOk UNAUTHORIZED)
             (Option.bind (hr_header res (ascii ''www-authenticate'')) (parse_www_authenticate_bearer_header rc)))) (\<lambda>www_auth.
           st_bind (get_token_for rc ref www_auth) (\<lambda>tok.
           st_bind (st_lift (ok_or (StatusNotOk UNAUTHORIZED) tok)) (\<lambda>t.
           st_bind (outside (rc_send rc (req\<lparr>hq_bearer := Some (tk_token t)\<rparr>))) (\<lambda>res.
           st_seq (handle_ratelimit rc ref res) (st_ok res))))))"

lemma request_steps:
  assumes "\<forall>t. cl_ratelimit c (rf_registry ref) = Some t \<longrightarrow> t \<le> rc_now rc (cl_outside c)"
  shows "auth_and_retry rc ref req c =
     st_bind (outside (rc_send rc (first_message rc ref req (cl_outside c)))) (\<lambda>res. st_seq (handle_ratelimit rc ref res) (retry rc ref req res))
       (c\<lparr>cl_ratelimit := (cl_ratelimit c)(rf_registry ref := None)\<rparr>)"
proof -
  have "check_ratelimit rc ref c = (Ok (), c\<lparr>cl_ratelimit := (cl_ratelimit c)(rf_registry ref := None)\<rparr>)"
    using assms by (cases c) (force simp: check_ratelimit_def fun_upd_idem split: option.split)
  then show ?thesis
    unfolding auth_and_retry_def retry_def first_message_def by (simp add: st_seq_def st_bind_def st_run)
qed

lemma request_notes:
  assumes free: "\<forall>t. cl_ratelimit c (rf_registry ref) = Some t \<longrightarrow> t \<le> rc_now rc (cl_outside c)"
    and run: "auth_and_retry rc ref req c = (r, c')"
  shows "(\<forall>res. r = Ok res \<longrightarrow> \<not> is_limit res) \<and>
    (if r = Err RatelimitExceeded
     then \<exists>res t. is_limit res \<and> limited_until rc (rc_now rc (cl_outside c')) (get_ratelimit_reset_header res) t \<and>
            cl_ratelimit c' = (cl_ratelimit c)(rf_registry ref \<mapsto> t)
     else cl_ratelimit c' = (cl_ratelimit c)(rf_registry ref := None))"
proof -
  have "noting rc ref (retry rc ref req res)" if "\<not> is_limit res" for res
    unfolding retry_def using that by (intro noting_if noting_ok noting_bind quiet_ops noting_handle) simp_all
  then have "noting rc ref (st_bind (outside (rc_send rc (first_message rc ref req (cl_outside c))))
      (\<lambda>res. st_seq (handle_ratelimit rc ref res) (retry rc ref req res)))"
    by (intro noting_bind quiet_ops noting_handle)
  from this [unfolded noting_def, rule_format, OF run [unfolded request_steps [OF free]]]
  show ?thesis by (cases "r = Err RatelimitExceeded") simp_all
qed

lemma request_limited:
  assumes free: "\<forall>t. cl_ratelimit c (rf_registry ref) = Some t \<longrightarrow> t \<le> rc_now rc (cl_outside c)"
    and sent: "rc_send rc (first_message rc ref req (cl_outside c)) (cl_outside c) = (Ok res, k)" and "is_limit res"
  shows "auth_and_retry rc ref req c = (Err RatelimitExceeded, c\<lparr>cl_outside := k, cl_ratelimit :=
     (cl_ratelimit c)(rf_registry ref \<mapsto> ratelimit_end rc (rc_now rc k) (get_ratelimit_reset_header res))\<rparr>)"
  using assms(2,3) unfolding request_steps [OF free]
  by (auto simp: st_seq_def st_bind_def outside_def handle_ratelimit_def FORBIDDEN_def TOO_MANY_REQUESTS_def)

lemma request_held_back:
  assumes "cl_ratelimit c (rf_registry ref) = Some t" "rc_now rc (cl_outside c) < t"
  shows "auth_and_retry rc ref req c = (Err RatelimitExceeded, c)"
  using assms by (simp add: auth_and_retry_def st_seq_def st_bind_def check_ratelimit_def)

text \<open>
  (C22) A registry that limits requests is left alone. No request returns a response with status 403 or
  429. Before the end of a limit that was noted for its registry, a request fails without a message being
  sent and changes nothing. Otherwise, when its message is answered with 403 or 429, the request fails and a
  limit is noted: until the instant of the reset header, for the number of seconds in it when that instant is
  past, or for a minute without such a header. Whenever a request that was not held back reports a limit, one
  was noted in this way, also on the second message, and limits of other registries never change.
\<close>

theorem ratelimit_respected:
  assumes run: "auth_and_retry rc ref req c = (r, c')"
  shows "(\<forall>res. r = Ok res \<longrightarrow> \<not> is_limit res) \<and>
    (\<forall>t. cl_ratelimit c (rf_registry ref) = Some t \<longrightarrow> rc_now rc (cl_outside c) < t \<longrightarrow> r = Err RatelimitExceeded \<and> c' = c) \<and>
    ((\<forall>t. cl_ratelimit c (rf_registry ref) = Some t \<longrightarrow> t \<le> rc_now rc (cl_outside c)) \<longrightarrow>
       (\<forall>res k. rc_send rc (first_message rc ref req (cl_outside c)) (cl_outside c) = (Ok res, k) \<longrightarrow> is_limit res \<longrightarrow>
          r = Err RatelimitExceeded \<and> cl_outside c' = k \<and>
          (\<exists>t. limited_until rc (rc_now rc k) (get_ratelimit_reset_header res) t \<and>
             cl_ratelimit c' = (cl_ratelimit c)(rf_registry ref \<mapsto> t))) \<and>
       (r = Err RatelimitExceeded \<longrightarrow>
          (\<exists>res t. is_limit res \<and> limited_until rc (rc_now rc (cl_outside c')) (get_ratelimit_reset_header res) t \<and>
             cl_ratelimit c' = (cl_ratelimit c)(rf_registry ref \<mapsto> t))) \<and>
       (r \<noteq> Err RatelimitExceeded \<longrightarrow> cl_ratelimit c' = (cl_ratelimit c)(rf_registry ref := None)))"
proof (cases "\<exists>t. cl_ratelimit c (rf_registry ref) = Some t \<and> rc_now rc (cl_outside c) < t")
  case True
  with run request_held_back have "r = Err RatelimitExceeded" "c' = c" by fastforce+
  with True show ?thesis by force
next
  case False
  then have free: "\<forall>t. cl_ratelimit c (rf_registry ref) = Some t \<longrightarrow> t \<le> rc_now rc (cl_outside c)" by force
  have first: "r = Err RatelimitExceeded \<and> cl_outside c' = k \<and>
      (\<exists>t. limited_until rc (rc_now rc k) (get_ratelimit_reset_header res) t \<and> cl_ratelimit c' = (cl_ratelimit c)(rf_registry ref \<mapsto> t))"
    if "rc_send rc (first_message rc ref req (cl_outside c)) (cl_outside c) = (Ok res, k)" "is_limit res" for res k
    using run limited_until_end unfolding request_limited [OF free that] by auto blast
  note all = request_notes [OF free run]
  show ?thesis
  proof (intro conjI allI impI)
    show "\<not> is_limit res" if "r = Ok res" for res using all that by blast
    show "\<exists>res t. is_limit res \<and> limited_until rc (rc_now rc (cl_outside c')) (get_ratelimit_reset_header res) t \<and>
        cl_ratelimit c' = (cl_ratelimit c)(rf_registry ref \<mapsto> t)" if "r = Err RatelimitExceeded" using all that by simp
    show "cl_ratelimit c' = (cl_ratelimit c)(rf_registry ref := None)" if "r \<noteq> Err RatelimitExceeded" using all that by simp
  qed (use first False in blast)+
qed

text \<open>
  A descriptor taken from an index has the platform that was asked for. A bare manifest without a platform
  is accepted when the architecture or the system is the default one, not only when both are.
\<close>

lemma index_platform:
  assumes "find (matches_platform arch os) ds = Some d"
  shows "d \<in> set ds \<and> pd_platform d = Some (arch, os)"
  using assms by (auto simp: find_Some_iff matches_platform_def split: option.split_asm)

lemma unlabelled_accepted_for_arm:
  assumes "get_manifest rc ref ACCEPTED_IMAGE_INDEX c = (Ok (Some (OCI_IMAGE_MANIFEST_V1, Some d, data)), c')"
    and "rc_manifest_parse rc data = Some manifest" and "pd_platform (om_config manifest) = None"
  shows "get_matching_descriptor_from_index cr rc ref OARM64 OLinux c =
    (Ok (Some (descriptor_new cr (rc_media_type rc OCI_IMAGE_MANIFEST_V1) (of_nat (length data)) d)), c')"
proof -
  have "OCI_IMAGE_MANIFEST_V1 \<noteq> OCI_IMAGE_INDEX_V1" "OCI_IMAGE_MANIFEST_V1 \<noteq> DOCKER_IMAGE_MANIFEST_LIST_V2"
    by (simp_all add: OCI_IMAGE_MANIFEST_V1_def OCI_IMAGE_INDEX_V1_def DOCKER_IMAGE_MANIFEST_LIST_V2_def ascii_def)
  with assms show ?thesis by (simp add: get_matching_descriptor_from_index_def st_bind_def st_run)
qed

section \<open>Instances\<close>

text \<open>A registry that always answers with the same manifest of two bytes; the state is the time.\<close>

definition small_response :: http_response where
  "small_response = \<lparr>hr_status = 200, hr_header = [ascii ''content-type'' \<mapsto> OCI_IMAGE_MANIFEST_V1], hr_chunks = [Ok [1], Ok [2]]\<rparr>"

definition small_hash :: bytes where "small_hash = replicate 32 0xa7"

definition small_crates :: "int reg_crates" where
  "small_crates =
     \<lparr>rc_send = (\<lambda>_. st_ok small_response), rc_json_token = (\<lambda>_. st_err ()), rc_token_get = (\<lambda>_ _. None),
      rc_token_insert = (\<lambda>_ _ k. k), rc_now = (\<lambda>k. k), rc_timestamp = (\<lambda>n. Some (int n)), rc_sha256 = (\<lambda>_. small_hash),
      rc_digest_parse = (\<lambda>s. Some \<lparr>dg_algorithm = ASha256, dg_digest = s\<rparr>), rc_bearer_pairs = (\<lambda>_. None),
      rc_media_type = MOther, rc_index_parse = (\<lambda>_. None), rc_manifest_parse = (\<lambda>_. None),
      rc_configuration_parse = (\<lambda>_. None)\<rparr>"

definition small_ref :: reference where
  "small_ref = \<lparr>rf_registry = ascii ''r'', rf_repository = ascii ''a'', rf_tag = None, rf_digest = Some (lower_hex small_hash), rf_string = []\<rparr>"

definition small_client :: "int client" where
  "small_client = \<lparr>cl_auth_store = Map.empty, cl_ratelimit = Map.empty, cl_outside = 7\<rparr>"

definition small_descriptor :: oci_descriptor where
  "small_descriptor = \<lparr>od_media_type = MImageLayer, od_artifact_type = None,
     od_digest = \<lparr>dg_algorithm = ASha256, dg_digest = lower_hex small_hash\<rparr>, od_size = 2\<rparr>"

lemmas small_defs = small_response_def small_crates_def small_ref_def small_client_def small_descriptor_def

lemma small_auth: "auth_and_retry small_crates small_ref req small_client = (Ok small_response, small_client)"
  by (simp add: auth_and_retry_def check_ratelimit_def handle_ratelimit_def outside_def small_defs st_seq_def st_bind_def st_run
      FORBIDDEN_def TOO_MANY_REQUESTS_def UNAUTHORIZED_def)

lemma blob_verified_witness:
  "\<exists>data. [1, 2] = [] @ data \<and> 2 = length data \<and> od_size small_descriptor = of_nat 2 \<and>
     digest_of small_crates (od_digest small_descriptor) data"
proof -
  have "get_blob plain_crate small_crates vec_write (\<lambda>w. (True, w)) small_ref small_descriptor (small_client, \<lparr>w_data = [], w_pos = 0\<rparr>) =
      (Ok (Some 2), small_client, \<lparr>w_data = [1, 2], w_pos = 2\<rparr>)"
    by (simp add: get_blob_def request_blob_def small_auth receive_blob_def)
      (simp add: small_defs OK_def NOT_FOUND_def st_bind_def st_seq_def st_run check_digest_matches_def digest_eq_hex vec_write_def
        Erofs_Writer.write_all_def overwrite_def)
  from blob_verified [OF vec.byte_sink_axioms _ this] show ?thesis by simp
qed

definition limiting_crates :: "int reg_crates" where
  "limiting_crates = small_crates\<lparr>rc_send := \<lambda>req k. (Ok (small_response\<lparr>hr_status := 429\<rparr>), k + 1)\<rparr>"

lemma ratelimit_respected_witness:
  "\<exists>c'. auth_and_retry limiting_crates small_ref (get_request [] None) small_client = (Err RatelimitExceeded, c') \<and>
     cl_outside c' = 8 \<and> cl_ratelimit c' (ascii ''r'') = Some 68"
proof -
  let ?run = "auth_and_retry limiting_crates small_ref (get_request [] None) small_client"
  let ?res = "small_response\<lparr>hr_status := 429\<rparr>"
  have free: "cl_ratelimit small_client (rf_registry small_ref) = None" by (simp add: small_client_def)
  have sent: "rc_send limiting_crates (first_message limiting_crates small_ref (get_request [] None) (cl_outside small_client))
      (cl_outside small_client) = (Ok ?res, 8)"
    by (simp add: limiting_crates_def small_client_def)
  have limit: "is_limit ?res" by simp
  have reset: "get_ratelimit_reset_header ?res = None" by (simp add: get_ratelimit_reset_header_def small_response_def ascii_def)
  have now: "rc_now limiting_crates 8 = 8" by (simp add: limiting_crates_def small_crates_def)
  from ratelimit_respected [of limiting_crates small_ref "get_request [] None" small_client, OF prod.collapse [symmetric]]
    free sent limit
  have "fst ?run = Err RatelimitExceeded \<and> cl_outside (snd ?run) = 8 \<and>
      (\<exists>t. limited_until limiting_crates (rc_now limiting_crates 8) (get_ratelimit_reset_header ?res) t \<and>
        cl_ratelimit (snd ?run) = (cl_ratelimit small_client)(rf_registry small_ref \<mapsto> t))" by force
  then have "fst ?run = Err RatelimitExceeded" "cl_outside (snd ?run) = 8" "cl_ratelimit (snd ?run) (ascii ''r'') = Some 68"
    unfolding reset now by (auto simp: limited_until_def small_ref_def)
  then show ?thesis by (metis prod.collapse)
qed

end
