(* ===== verification/Blob_Cache.thy ===== *)
theory Blob_Cache
  imports Path_Ops State_Ops Io_File_Props
begin

text \<open>
  The files behind the blob cache, \<open>peoci/src/blobcache.rs\<close>: keys and the paths they are stored at, the
  guards that publish a file only when it is complete, and reading the cache back from disk. The
  system calls are arguments that change a state.
\<close>

section \<open>UTF-8\<close>

text \<open>What \<open>str::from_utf8\<close> accepts.\<close>

definition utf8_cont :: "u8 \<Rightarrow> bool" where
  "utf8_cont b \<longleftrightarrow> 0x80 \<le> b \<and> b \<le> 0xbf"

fun utf8_valid :: "bytes \<Rightarrow> bool" where
  "utf8_valid [] = True"
| "utf8_valid (a # s) =
     (if a < 0x80 then utf8_valid s
      else case s of
             [] \<Rightarrow> False
           | b # s1 \<Rightarrow>
               if 0xc2 \<le> a \<and> a \<le> 0xdf then utf8_cont b \<and> utf8_valid s1
               else (case s1 of
                       [] \<Rightarrow> False
                     | c # s2 \<Rightarrow>
                         if 0xe0 \<le> a \<and> a \<le> 0xef
                         then utf8_cont b \<and> (a = 0xe0 \<longrightarrow> 0xa0 \<le> b) \<and> (a = 0xed \<longrightarrow> b \<le> 0x9f) \<and> utf8_cont c \<and> utf8_valid s2
                         else (case s2 of
                                 [] \<Rightarrow> False
                               | d # s3 \<Rightarrow>
                                   0xf0 \<le> a \<and> a \<le> 0xf4 \<and> utf8_cont b \<and> (a = 0xf0 \<longrightarrow> 0x90 \<le> b) \<and> (a = 0xf4 \<longrightarrow> b \<le> 0x8f) \<and>
                                   utf8_cont c \<and> utf8_cont d \<and> utf8_valid s3)))"

lemma utf8_valid_ascii: "\<forall>b \<in> set s. b < 0x80 \<Longrightarrow> utf8_valid s"
  by (induction s) auto

section \<open>Keys\<close>

definition BLOB_SIZE_DIVISOR :: nat where "BLOB_SIZE_DIVISOR = 1000"

definition colon :: u8 where "colon = 0x3a"
definition dot :: u8 where "dot = 0x2e"

type_synonym blob_key = bytes

definition blob_key_new :: "bytes \<Rightarrow> blob_key option" where
  "blob_key_new s =
     (if dot \<in> set s \<or> slash \<in> set s then None
      else case split_once colon s of
             Some (l, r) \<Rightarrow> if l = [] \<or> r = [] then None else Some s
           | None \<Rightarrow> None)"

definition blob_key_from_cstr_parts :: "bytes \<Rightarrow> bytes \<Rightarrow> blob_key option" where
  "blob_key_from_cstr_parts a b =
     (if utf8_valid a \<and> utf8_valid b then blob_key_new (a @ colon # b) else None)"

text \<open>\<open>replacen(":", "/", 1)\<close>.\<close>

definition blob_key_as_path :: "blob_key \<Rightarrow> bytes" where
  "blob_key_as_path key = (case split_once colon key of Some (l, r) \<Rightarrow> l @ slash # r | None \<Rightarrow> key)"

definition blob_key_parts :: "blob_key \<Rightarrow> (bytes \<times> bytes) option" where
  "blob_key_parts key = split_once colon key"

definition tmp_suffix :: bytes where "tmp_suffix = ascii ''_tmp''"

definition blob_key_with_tmp_suffix :: "blob_key \<Rightarrow> blob_key" where
  "blob_key_with_tmp_suffix key = key @ tmp_suffix"

text \<open>\<open>Display\<close> of a digest belongs to the crate \<open>oci_spec\<close>; the argument is its result.\<close>

definition blob_key_of_digest :: "bytes \<Rightarrow> (blob_key, unit) result" where
  "blob_key_of_digest digest = ok_or () (blob_key_new digest)"

section \<open>Guards\<close>

datatype errno = NOENT | EXIST | OtherErrno int

record ('fd, 'k) blob_sys =
  bs_renameat :: "bytes \<Rightarrow> bytes \<Rightarrow> 'k \<Rightarrow> (unit, errno) result \<times> 'k"
  bs_unlinkat :: "bytes \<Rightarrow> 'k \<Rightarrow> (unit, errno) result \<times> 'k"
  bs_openat2 :: "bytes \<Rightarrow> open_how \<Rightarrow> 'k \<Rightarrow> ('fd, errno) result \<times> 'k"
  bs_mkdirat :: "bytes \<Rightarrow> u32 \<Rightarrow> 'k \<Rightarrow> (unit, errno) result \<times> 'k"
  bs_open :: "bytes \<Rightarrow> open_how \<Rightarrow> 'k \<Rightarrow> ('fd, errno) result \<times> 'k"
  bs_mkdir :: "bytes \<Rightarrow> u32 \<Rightarrow> 'k \<Rightarrow> (unit, errno) result \<times> 'k"

text \<open>The key of a guard, until it is taken.\<close>

type_synonym file_guard = "blob_key option"

definition file_guard_new :: "blob_key \<Rightarrow> file_guard" where
  "file_guard_new key = Some key"

definition unlinkat_key :: "('fd, 'k) blob_sys \<Rightarrow> blob_key \<Rightarrow> (unit, errno, 'k) st" where
  "unlinkat_key sys key = bs_unlinkat sys (blob_key_as_path key)"

definition file_guard_drop :: "('fd, 'k) blob_sys \<Rightarrow> file_guard \<Rightarrow> 'k \<Rightarrow> 'k" where
  "file_guard_drop sys g k =
     (case g of None \<Rightarrow> k | Some key \<Rightarrow> snd (unlinkat_key sys (blob_key_with_tmp_suffix key) k))"

text \<open>\<open>success\<close> takes the key first, so that dropping the guard at its end does nothing, also on an error.\<close>

definition file_guard_success :: "('fd, 'k) blob_sys \<Rightarrow> file_guard \<Rightarrow> (unit, errno, 'k) st" where
  "file_guard_success sys g k =
     (case g of
        None \<Rightarrow> (Ok (), file_guard_drop sys None k)
      | Some key \<Rightarrow>
          (case bs_renameat sys (blob_key_as_path (blob_key_with_tmp_suffix key)) (blob_key_as_path key) k of
             (r, k') \<Rightarrow> (r, file_guard_drop sys None k')))"

definition generic_name_new :: "bytes \<Rightarrow> bytes option" where
  "generic_name_new name = (if dot \<in> set name \<or> slash \<in> set name then None else Some name)"

definition generic_with_tmp_suffix :: "bytes \<Rightarrow> bytes" where
  "generic_with_tmp_suffix name = name @ tmp_suffix"

definition generic_guard_drop :: "('fd, 'k) blob_sys \<Rightarrow> bytes option \<Rightarrow> 'k \<Rightarrow> 'k" where
  "generic_guard_drop sys g k =
     (case g of None \<Rightarrow> k | Some name \<Rightarrow> snd (bs_unlinkat sys (generic_with_tmp_suffix name) k))"

definition generic_guard_success :: "('fd, 'k) blob_sys \<Rightarrow> bytes option \<Rightarrow> (unit, errno, 'k) st" where
  "generic_guard_success sys g k =
     (case g of
        None \<Rightarrow> (Ok (), generic_guard_drop sys None k)
      | Some name \<Rightarrow>
          (case bs_renameat sys (generic_with_tmp_suffix name) name k of
             (r, k') \<Rightarrow> (r, generic_guard_drop sys None k')))"

section \<open>Opening\<close>

definition openat_key :: "('fd, 'k) blob_sys \<Rightarrow> blob_key \<Rightarrow> u32 \<Rightarrow> open_flag list \<Rightarrow> ('fd, errno, 'k) st" where
  "openat_key sys key mode flags =
     bs_openat2 sys (blob_key_as_path key) \<lparr>oh_flags = flags, oh_mode = mode, oh_beneath = True\<rparr>"

text \<open>
  The two variants differ in one flag only. \<open>parts\<close> panics on a key without a colon, which
  \<open>BlobKey::new\<close> never lets through; the model uses an empty name there.
\<close>

definition openat_create_flags :: "('fd, 'k) blob_sys \<Rightarrow> blob_key \<Rightarrow> open_flag list \<Rightarrow> ('fd, errno, 'k) st" where
  "openat_create_flags sys key flags k =
     (let opn = openat_key sys key 0x1a4 flags
      in case opn k of
           (Ok f, k') \<Rightarrow> (Ok f, k')
         | (Err e, k') \<Rightarrow>
             if e = NOENT
             then st_seq (bs_mkdirat sys (case blob_key_parts key of Some (l, _) \<Rightarrow> l | None \<Rightarrow> []) 0x1e4) opn k'
             else (Err e, k'))"

definition openat_create_write :: "('fd, 'k) blob_sys \<Rightarrow> blob_key \<Rightarrow> ('fd, errno, 'k) st" where
  "openat_create_write sys key = openat_create_flags sys key [ORdwr, OCreate, OTrunc, OCloexec]"

definition openat_create_write_async :: "('fd, 'k) blob_sys \<Rightarrow> blob_key \<Rightarrow> ('fd, errno, 'k) st" where
  "openat_create_write_async sys key = openat_create_flags sys key [ORdwr, OCreate, OTrunc, OCloexec, ONonblock]"

definition openat_create_write_with_guard :: "('fd, 'k) blob_sys \<Rightarrow> blob_key \<Rightarrow> ('fd \<times> file_guard, errno, 'k) st" where
  "openat_create_write_with_guard sys key =
     st_bind (openat_create_write sys (blob_key_with_tmp_suffix key)) (\<lambda>f. st_ok (f, file_guard_new key))"

definition openat_create_write_async_with_guard ::
    "('fd, 'k) blob_sys \<Rightarrow> blob_key \<Rightarrow> ('fd \<times> file_guard, errno, 'k) st" where
  "openat_create_write_async_with_guard sys key =
     st_bind (openat_create_write_async sys (blob_key_with_tmp_suffix key)) (\<lambda>f. st_ok (f, file_guard_new key))"

definition openat_create_write_with_generic_guard ::
    "('fd, 'k) blob_sys \<Rightarrow> bytes \<Rightarrow> ('fd \<times> bytes option, errno, 'k) st" where
  "openat_create_write_with_generic_guard sys name =
     st_bind (bs_openat2 sys (generic_with_tmp_suffix name)
         \<lparr>oh_flags = [ORdwr, OCreate, OTrunc, OCloexec], oh_mode = 0x1a4, oh_beneath = True\<rparr>)
       (\<lambda>f. st_ok (f, Some name))"

definition openat_read :: "('fd, 'k) blob_sys \<Rightarrow> bytes \<Rightarrow> ('fd option, errno, 'k) st" where
  "openat_read sys name k =
     (case bs_openat2 sys name \<lparr>oh_flags = [ORdonly, OCloexec], oh_mode = 0, oh_beneath = True\<rparr> k of
        (Ok f, k') \<Rightarrow> (Ok (Some f), k')
      | (Err e, k') \<Rightarrow> (if e = NOENT then Ok None else Err e, k'))"

definition openat_read_key :: "('fd, 'k) blob_sys \<Rightarrow> blob_key \<Rightarrow> ('fd option, errno, 'k) st" where
  "openat_read_key sys key = openat_read sys (blob_key_as_path key)"

definition open_dir :: "('fd, 'k) blob_sys \<Rightarrow> bool \<Rightarrow> bytes \<Rightarrow> ('fd, errno, 'k) st" where
  "open_dir sys below path =
     (if below
      then bs_openat2 sys path \<lparr>oh_flags = [ODirectory, ORdonly, OCloexec], oh_mode = 0, oh_beneath = True\<rparr>
      else bs_open sys path \<lparr>oh_flags = [ODirectory, ORdonly, OCloexec], oh_mode = 0, oh_beneath = False\<rparr>)"

text \<open>Below a directory or, without one, in the current directory.\<close>

definition open_or_create_dir_at :: "('fd, 'k) blob_sys \<Rightarrow> bool \<Rightarrow> bytes \<Rightarrow> ('fd, errno, 'k) st" where
  "open_or_create_dir_at sys below path k =
     (case (if below then bs_mkdirat sys path 0x1e4 k else bs_mkdir sys path 0x1e4 k) of
        (r, k') \<Rightarrow>
          (case r of
             Err e \<Rightarrow> if e \<noteq> EXIST then (Err e, k') else open_dir sys below path k'
           | Ok _ \<Rightarrow> open_dir sys below path k'))"

section \<open>Sizes and removal\<close>

definition max_capacity :: "nat \<Rightarrow> nat" where
  "max_capacity x = x div BLOB_SIZE_DIVISOR"

definition weigher :: "nat \<Rightarrow> u32" where
  "weigher sz = (let w = max 1 (sz div BLOB_SIZE_DIVISOR) in if w < 2 ^ 32 then of_nat w else 0xffffffff)"

definition remove_blob :: "('fd, 'k) blob_sys \<Rightarrow> blob_key \<Rightarrow> 'k \<Rightarrow> 'k" where
  "remove_blob sys key k = snd (unlinkat_key sys key k)"

section \<open>Reading the cache from disk\<close>

text \<open>
  What the system shows of the cache: the entries of its directory, for a directory the result of
  opening it, and its entries with their sizes.
\<close>

record disk_file =
  df_name :: bytes
  df_size :: "(nat, errno) result"

record disk_dir =
  dd_name :: bytes
  dd_kind :: file_kind
  dd_files :: "((disk_file, errno) result list, errno) result"

fun read_sub_dir ::
    "bytes \<Rightarrow> (disk_file, errno) result list \<Rightarrow> (blob_key \<times> nat) list \<Rightarrow>
       (unit, errno) result \<times> (blob_key \<times> nat) list" where
  "read_sub_dir d [] acc = (Ok (), acc)"
| "read_sub_dir d (Err e # fs) acc = (Err e, acc)"
| "read_sub_dir d (Ok f # fs) acc =
     (if df_name f = dot_name \<or> df_name f = dotdot_name then read_sub_dir d fs acc
      else case blob_key_from_cstr_parts d (df_name f) of
             Some key \<Rightarrow>
               (case df_size f of
                  Err e \<Rightarrow> (Err e, acc)
                | Ok sz \<Rightarrow> read_sub_dir d fs (acc @ [(key, sz)]))
           | None \<Rightarrow> read_sub_dir d fs acc)"

fun read_from_disk ::
    "(disk_dir, errno) result list \<Rightarrow> (blob_key \<times> nat) list \<Rightarrow> (unit, errno) result \<times> (blob_key \<times> nat) list" where
  "read_from_disk [] acc = (Ok (), acc)"
| "read_from_disk (Err e # ds) acc = (Err e, acc)"
| "read_from_disk (Ok d # ds) acc =
     (if dd_name d = dot_name \<or> dd_name d = dotdot_name then read_from_disk ds acc
      else if dd_kind d \<noteq> FkDirectory then read_from_disk ds acc
      else case dd_files d of
             Err e \<Rightarrow> (Err e, acc)
           | Ok fs \<Rightarrow>
               (case read_sub_dir (dd_name d) fs acc of
                  (Err e, acc') \<Rightarrow> (Err e, acc')
                | (Ok _, acc') \<Rightarrow> read_from_disk ds acc'))"

section \<open>What the cache relies on\<close>

lemma blob_key_shape:
  assumes "blob_key_new s = Some key"
  obtains l r where "key = s" "s = l @ colon # r" "split_once colon s = Some (l, r)" "l \<noteq> []" "r \<noteq> []"
    "blob_key_as_path key = l @ slash # r"
proof -
  obtain l r where lr: "split_once colon s = Some (l, r)" "l \<noteq> []" "r \<noteq> []" "key = s"
    using assms by (auto simp: blob_key_new_def split: if_splits option.splits)
  with split_once_Some[of colon s l r] that show ?thesis by (simp add: blob_key_as_path_def)
qed

lemma tmp_path: "blob_key_new s = Some key \<Longrightarrow> blob_key_as_path (blob_key_with_tmp_suffix key) = blob_key_as_path key @ tmp_suffix"
proof (erule blob_key_shape)
  fix l r
  assume "key = s" "s = l @ colon # r" "split_once colon s = Some (l, r)" and path: "blob_key_as_path key = l @ slash # r"
  then have "split_once colon (key @ tmp_suffix) = Some (l, r @ tmp_suffix)" by (simp add: split_once_Some)
  with path show ?thesis by (simp add: blob_key_as_path_def blob_key_with_tmp_suffix_def)
qed

text \<open>
  (C26) A key names one file two levels below the cache directory: its path consists of two proper
  names, so that it cannot leave the directory, different keys have different paths, and the names
  read back from disk give the key again (for the bytes of digests, which are ASCII).
\<close>

theorem key_path_roundtrip:
  assumes "blob_key_new s = Some key" and "\<forall>b \<in> set s. b < 0x80"
  shows "\<exists>l r. blob_key_as_path key = join_names [l, r] \<and> normal_name l \<and> normal_name r \<and>
    blob_key_from_cstr_parts l r = Some key \<and> (\<forall>key'. blob_key_new key' \<noteq> None \<longrightarrow> blob_key_as_path key' = blob_key_as_path key \<longrightarrow> key' = key)"
proof -
  from assms(1) obtain l r where
    key: "key = s" "s = l @ colon # r" "l \<noteq> []" "r \<noteq> []" "blob_key_as_path key = l @ slash # r"
    by (rule blob_key_shape)
  have plain: "dot \<notin> set key" "slash \<notin> set key" if "blob_key_new key = Some key" for key
    using that by (auto simp: blob_key_new_def split: if_splits)
  have new: "blob_key_new key = Some key" using assms(1) key(1) by simp
  have "key' = key" if k': "blob_key_new key' \<noteq> None" and path: "blob_key_as_path key' = blob_key_as_path key" for key'
  proof -
    obtain k2 where "blob_key_new key' = Some k2" using k' by blast
    then obtain l' r' where lr: "k2 = key'" "key' = l' @ colon # r'" "blob_key_as_path k2 = l' @ slash # r'"
      by (rule blob_key_shape)
    then have "slash \<notin> set l'" using plain(2)[of key'] \<open>blob_key_new key' = Some k2\<close> by simp
    moreover have "slash \<notin> set l" using plain(2)[OF new] key by simp
    moreover have "l' @ slash # r' = l @ slash # r" using path lr key by simp
    ultimately have "Some (l', r') = Some (l, r)" by (metis split_once_at)
    then show ?thesis using lr key by simp
  qed
  moreover have "normal_name l" "normal_name r"
    using key(1-4) plain[OF new] by (auto simp: normal_name_def dot_name_def dotdot_name_def dot_def)
  moreover have "blob_key_from_cstr_parts l r = Some key"
    using new key(1,2) assms(2) by (simp add: blob_key_from_cstr_parts_def utf8_valid_ascii)
  ultimately show ?thesis using key(5) by fastforce
qed

text \<open>The documented behaviour of the calls on a directory, with \<open>files\<close> its contents: a call that fails changes nothing.\<close>

definition dir_laws :: "('fd, 'k) blob_sys \<Rightarrow> ('k \<Rightarrow> bytes \<rightharpoonup> bytes) \<Rightarrow> bool" where
  "dir_laws sys files \<longleftrightarrow>
     (\<forall>a b k r k'. a \<noteq> b \<longrightarrow> bs_renameat sys a b k = (r, k') \<longrightarrow>
        files k' = (case r of Ok _ \<Rightarrow> (files k)(b := files k a, a := None) | Err _ \<Rightarrow> files k)) \<and>
     (\<forall>a k r k'. bs_unlinkat sys a k = (r, k') \<longrightarrow> files k' = (case r of Ok _ \<Rightarrow> (files k)(a := None) | Err _ \<Rightarrow> files k)) \<and>
     (\<forall>p how k r k'. {OCreate, OTrunc} \<subseteq> set (oh_flags how) \<longrightarrow> bs_openat2 sys p how k = (r, k') \<longrightarrow>
        files k' = (case r of Ok _ \<Rightarrow> (files k)(p \<mapsto> []) | Err _ \<Rightarrow> files k)) \<and>
     (\<forall>p m k r k'. bs_mkdirat sys p m k = (r, k') \<longrightarrow> files k' = files k)"

lemma dir_law:
  assumes "dir_laws sys files"
  shows "a \<noteq> b \<Longrightarrow> bs_renameat sys a b k = (r, k') \<Longrightarrow>
      files k' = (case r of Ok _ \<Rightarrow> (files k)(b := files k a, a := None) | Err _ \<Rightarrow> files k)"
    "bs_unlinkat sys a k = (q, k') \<Longrightarrow> files k' = (case q of Ok _ \<Rightarrow> (files k)(a := None) | Err _ \<Rightarrow> files k)"
    "{OCreate, OTrunc} \<subseteq> set (oh_flags how) \<Longrightarrow> bs_openat2 sys p how k = (f, k') \<Longrightarrow>
      files k' = (case f of Ok _ \<Rightarrow> (files k)(p \<mapsto> []) | Err _ \<Rightarrow> files k)"
    "bs_mkdirat sys p m k = (z, k') \<Longrightarrow> files k' = files k"
  using assms unfolding dir_laws_def by blast+

lemma create_files:
  assumes "dir_laws sys files" and "{OCreate, OTrunc} \<subseteq> set flags" and "openat_create_flags sys key flags k = (r, k')"
  shows "files k' = (case r of Ok _ \<Rightarrow> (files k)(blob_key_as_path key \<mapsto> []) | Err _ \<Rightarrow> files k)"
proof -
  let ?open = "openat_key sys key 0x1a4 flags"
  have opn: "files k' = (case r of Ok _ \<Rightarrow> (files k)(blob_key_as_path key \<mapsto> []) | Err _ \<Rightarrow> files k)" if "?open k = (r, k')" for k r k'
    using dir_law(3) [OF assms(1) _ that [unfolded openat_key_def]] assms(2) by simp
  obtain q k1 where q: "?open k = (q, k1)" by fastforce
  note q1 = opn [OF q]
  show ?thesis
  proof (cases "q = Err NOENT")
    case True
    let ?mk = "bs_mkdirat sys (case blob_key_parts key of Some (l, _) \<Rightarrow> l | None \<Rightarrow> []) 0x1e4"
    obtain z k2 where z: "?mk k1 = (z, k2)" by fastforce
    have "st_seq ?mk ?open k1 = (r, k')" using True assms(3) q unfolding openat_create_flags_def by (simp add: Let_def)
    moreover have "files k2 = files k" using dir_law(4) [OF assms(1) z] q1 True by simp
    ultimately show ?thesis using opn [of k2 r k'] z by (cases z; cases r) (auto simp: st_seq_def st_bind_def)
  next
    case False
    then have "(q, k1) = (r, k')"
      using assms(3) q unfolding openat_create_flags_def by (auto simp: Let_def split: result.split_asm if_split_asm)
    then show ?thesis using q1 by (cases r) auto
  qed
qed

lemma tmp_differs: "blob_key_new s = Some key \<Longrightarrow> blob_key_as_path key \<noteq> blob_key_as_path (blob_key_with_tmp_suffix key)"
  by (simp add: tmp_path tmp_suffix_def ascii_def)

text \<open>
  (C20) A file appears in the cache only when it is complete. From the moment a file is created with a guard,
  whatever is written to it meanwhile: when the guard is dropped, every file but the temporary one is what it
  was before, and the temporary one is gone unless the system refused to remove it; when \<open>success\<close>
  succeeds, the cache differs from before by that file alone, which now has the path of the key and the bytes
  that were written; when it fails, it has changed nothing, and the temporary file stays behind.
\<close>

theorem guard_publishes:
  assumes "dir_laws sys files" and "blob_key_new s = Some key" and "openat_create_write_with_guard sys key k = (Ok (fd, g), k1)"
    and "\<forall>p. p \<noteq> blob_key_as_path key @ tmp_suffix \<longrightarrow> files k2 p = files k1 p"
    and "files k2 (blob_key_as_path key @ tmp_suffix) = Some data"
  shows "(\<forall>p. p \<noteq> blob_key_as_path key @ tmp_suffix \<longrightarrow> files (file_guard_drop sys g k2) p = files k p) \<and>
    (\<forall>k3. bs_unlinkat sys (blob_key_as_path key @ tmp_suffix) k2 = (Ok (), k3) \<longrightarrow>
       files (file_guard_drop sys g k2) (blob_key_as_path key @ tmp_suffix) = None) \<and>
    (\<forall>r k3. file_guard_success sys g k2 = (r, k3) \<longrightarrow>
       files k3 = (case r of
           Ok _ \<Rightarrow> (files k)(blob_key_as_path key \<mapsto> data, blob_key_as_path key @ tmp_suffix := None)
         | Err _ \<Rightarrow> files k2))"
proof -
  let ?p = "blob_key_as_path key" let ?t = "?p @ tmp_suffix"
  note tmp = tmp_path [OF assms(2)]
  have ne: "?t \<noteq> ?p" using tmp_differs [OF assms(2)] tmp by simp
  have g: "g = Some key" and "openat_create_write sys (blob_key_with_tmp_suffix key) k = (Ok fd, k1)"
    using assms(3) by (auto simp: openat_create_write_with_guard_def st_bind_Ok st_run file_guard_new_def)
  from create_files [OF assms(1) _ this(2) [unfolded openat_create_write_def]] have "files k1 = (files k)(?t \<mapsto> [])" by (simp add: tmp)
  with assms(4) have k2: "files k2 p = files k p" if "p \<noteq> ?t" for p using that by simp
  have drop: "file_guard_drop sys g k2 = snd (bs_unlinkat sys ?t k2)" by (simp add: g file_guard_drop_def unlinkat_key_def tmp)
  obtain q k3 where q: "bs_unlinkat sys ?t k2 = (q, k3)" by fastforce
  obtain r k4 where r: "bs_renameat sys ?t ?p k2 = (r, k4)" by fastforce
  have "file_guard_success sys g k2 = (r, k4)" by (simp add: g file_guard_success_def file_guard_drop_def tmp r)
  moreover have "files k4 = (case r of Ok _ \<Rightarrow> (files k)(?p \<mapsto> data, ?t := None) | Err _ \<Rightarrow> files k2)"
    using dir_law(1) [OF assms(1) ne r] assms(5) k2 by (cases r) (auto simp: fun_eq_iff)
  moreover have "files k3 p = files k p" if "p \<noteq> ?t" for p
    using dir_law(2) [OF assms(1) q] k2 [OF that] that by (cases q) simp_all
  moreover have "files k3 ?t = None" if "q = Ok ()" using dir_law(2) [OF assms(1) q] that by simp
  ultimately show ?thesis using q by (auto simp: drop)
qed

text \<open>
  The temporary file of one key is the file of another: a file left over from an interrupted download is
  read back from disk as a blob.
\<close>

lemma leftover_is_blob:
  "blob_key_new (ascii ''sha256:ab_tmp'') = Some (ascii ''sha256:ab_tmp'') \<and>
   blob_key_as_path (blob_key_with_tmp_suffix (ascii ''sha256:ab'')) = blob_key_as_path (ascii ''sha256:ab_tmp'') \<and>
   read_from_disk [Ok \<lparr>dd_name = ascii ''sha256'', dd_kind = FkDirectory,
       dd_files = Ok [Ok \<lparr>df_name = ascii ''ab_tmp'', df_size = Ok 7\<rparr>]\<rparr>] [] = (Ok (), [(ascii ''sha256:ab_tmp'', 7)])"
  by (simp add: blob_key_new_def blob_key_as_path_def blob_key_with_tmp_suffix_def blob_key_from_cstr_parts_def split_once_def
      tmp_suffix_def ascii_def colon_def dot_def slash_def dot_name_def dotdot_name_def)

section \<open>Instances\<close>

lemma key_path_roundtrip_witness:
  "\<exists>l r. blob_key_as_path (ascii ''sha256:ab'') = join_names [l, r] \<and> blob_key_from_cstr_parts l r = Some (ascii ''sha256:ab'')"
proof -
  have "blob_key_new (ascii ''sha256:ab'') = Some (ascii ''sha256:ab'')" "\<forall>b \<in> set (ascii ''sha256:ab''). b < 0x80"
    by (simp_all add: blob_key_new_def split_once_def ascii_def colon_def dot_def slash_def)
  from key_path_roundtrip[OF this] show ?thesis by blast
qed

text \<open>A kernel whose state is the contents of the cache directory.\<close>

definition map_sys :: "(nat, bytes \<rightharpoonup> bytes) blob_sys" where
  "map_sys =
     \<lparr>bs_renameat = (\<lambda>a b k. (Ok (), k(b := k a, a := None))), bs_unlinkat = (\<lambda>a k. (Ok (), k(a := None))),
      bs_openat2 = (\<lambda>p how k. (Ok 0, if OTrunc \<in> set (oh_flags how) then k(p \<mapsto> []) else k)), bs_mkdirat = (\<lambda>_ _ k. (Ok (), k)),
      bs_open = (\<lambda>_ _ k. (Ok 0, k)), bs_mkdir = (\<lambda>_ _ k. (Ok (), k))\<rparr>"

lemma map_sys_laws: "dir_laws map_sys (\<lambda>k. k)"
  by (auto simp: dir_laws_def map_sys_def)

lemma guard_publishes_witness:
  "file_guard_drop map_sys (file_guard_new (ascii ''a:b'')) [ascii ''a/b_tmp'' \<mapsto> [1]] (ascii ''a/b'') = None \<and>
   file_guard_success map_sys (file_guard_new (ascii ''a:b'')) [ascii ''a/b_tmp'' \<mapsto> [1]] = (Ok (), [ascii ''a/b'' \<mapsto> [1]])"
proof -
  let ?k = "[ascii ''a/b_tmp'' \<mapsto> [1 :: u8]]" and ?g = "file_guard_new (ascii ''a:b'')"
  have new: "blob_key_new (ascii ''a:b'') = Some (ascii ''a:b'')" "blob_key_as_path (ascii ''a:b'') = ascii ''a/b''"
    "ascii ''a/b'' @ tmp_suffix = ascii ''a/b_tmp''"
    by (simp_all add: blob_key_new_def blob_key_as_path_def split_once_def tmp_suffix_def ascii_def colon_def dot_def slash_def)
  have tmp: "blob_key_as_path (blob_key_with_tmp_suffix (ascii ''a:b'')) = ascii ''a/b_tmp''" using tmp_path [OF new(1)] new by simp
  have open_run: "openat_create_write_with_guard map_sys (ascii ''a:b'') Map.empty = (Ok (0, ?g), [ascii ''a/b_tmp'' \<mapsto> []])"
    by (simp add: openat_create_write_with_guard_def openat_create_write_def openat_create_flags_def openat_key_def tmp map_sys_def
        st_bind_def st_run)
  have "\<exists>k3. file_guard_success map_sys ?g ?k = (Ok (), k3)"
    by (simp add: file_guard_success_def file_guard_new_def map_sys_def)
  moreover have "ascii ''a/b'' \<noteq> ascii ''a/b_tmp''" by (simp add: ascii_def)
  ultimately show ?thesis
    using guard_publishes [OF map_sys_laws new(1) open_run, of ?k "[1]"] by (auto simp: new(2,3))
qed

end
