(* ===== verification/Registry_Cache.thy ===== *)
theory Registry_Cache
  imports Registry_Props Blob_Cache
begin

text \<open>
  The caching client of a registry (\<open>peoci/src/ocidist_cache.rs\<close>): references, manifests with their
  configurations, and blobs on disk. The caches themselves (crate \<open>moka\<close>), the serializer and the file
  operations are arguments.
\<close>

section \<open>Types\<close>

datatype cache_error =
    ClientError reg_error | CacheIo | CacheErrno errno | CacheOciSpec | AcquireError | EncodeError | DecodeError
  | CacheSpec spec_error | OneshotRx | OneshotTx | NoCacheDir | CacheBadDigest | MissingDigest | ManifestNotFound
  | CacheNoMatchingManifest | CachedFileSizeMismatch | ConfigurationNotFound | BlobNotFound | CacheSer | DirIter
  | CacheAlgorithm | BlobMissing | FdClone | MaxConns | UnexpectedPanic | Canceled | Oob | MissingResult | CacheUnknown
  | CachePanic

record image_manifest_and_configuration =
  mc_manifest_digest :: digest
  mc_manifest :: image_manifest
  mc_configuration :: image_configuration

record counters =
  ct_ref_hit :: u64
  ct_ref_miss :: u64
  ct_manifest_hit :: u64
  ct_manifest_miss :: u64
  ct_blob_hit :: u64
  ct_blob_miss :: u64

record 'k cache_client =
  ca_client :: "'k client"
  ca_counters :: counters

text \<open>
  A cache answers what was inserted for a key, unless it has dropped it. \<open>cs_bw_write\<close> and \<open>cs_bw_flush\<close> are the
  buffered writer on an open file, \<open>cs_load\<close> the entries stored in a file, None when they cannot be decoded, and
  \<open>cs_entries_pieces\<close> the pieces in which the serializer writes entries.
\<close>

record ('fd, 'k) cache_sys =
  cs_ref_get :: "bytes \<Rightarrow> 'k \<Rightarrow> bytes option"
  cs_ref_insert :: "bytes \<Rightarrow> bytes \<Rightarrow> 'k \<Rightarrow> 'k"
  cs_manifest_get :: "bytes \<Rightarrow> 'k \<Rightarrow> bytes option"
  cs_manifest_insert :: "bytes \<Rightarrow> bytes \<Rightarrow> 'k \<Rightarrow> 'k"
  cs_blob_get :: "blob_key \<Rightarrow> 'k \<Rightarrow> nat option"
  cs_blob_insert :: "blob_key \<Rightarrow> nat \<Rightarrow> 'k \<Rightarrow> 'k"
  cs_acquire :: "(unit, unit, 'k) st"
  cs_blobs :: "('fd, 'k) blob_sys"
  cs_cache_dir :: "('fd, 'k) blob_sys"
  cs_bw_write :: "'fd \<Rightarrow> bytes \<Rightarrow> 'k \<Rightarrow> bool \<times> 'k"
  cs_bw_flush :: "'fd \<Rightarrow> 'k \<Rightarrow> bool \<times> 'k"
  cs_rewind :: "'fd \<Rightarrow> (unit, unit, 'k) st"
  cs_fstat_size :: "'fd \<Rightarrow> 'k \<Rightarrow> (int, errno) result"
  cs_load :: "'fd \<Rightarrow> 'k \<Rightarrow> (bytes \<times> bytes) list option"
  cs_ref_entries :: "'k \<Rightarrow> (bytes \<times> bytes) list"
  cs_manifest_entries :: "'k \<Rightarrow> (bytes \<times> bytes) list"
  cs_entries_pieces :: "(bytes \<times> bytes) list \<Rightarrow> bytes list option"
  cs_file_write :: "'fd \<Rightarrow> 'k inner_write"
  cs_disk :: "'k \<Rightarrow> (disk_dir, errno) result list"
  cs_encode :: "image_manifest_and_configuration \<Rightarrow> bytes option"
  cs_decode :: "bytes \<Rightarrow> image_manifest_and_configuration option"
  cs_digest_string :: "oci_digest \<Rightarrow> bytes"
  cs_with_digest :: "reference \<Rightarrow> bytes \<Rightarrow> reference"

type_synonym ('a, 'k) cache_op = "('a, cache_error, 'k cache_client) st"

definition on_client :: "('a, reg_error, 'k client) st \<Rightarrow> ('a, 'k) cache_op" where
  "on_client m s = (case m (ca_client s) of (r, c) \<Rightarrow> (map_err ClientError r, s\<lparr>ca_client := c\<rparr>))"

definition on_outside :: "('a, cache_error, 'k) st \<Rightarrow> ('a, 'k) cache_op" where
  "on_outside m s =
     (case m (cl_outside (ca_client s)) of (r, k) \<Rightarrow> (r, s\<lparr>ca_client := (ca_client s)\<lparr>cl_outside := k\<rparr>\<rparr>))"

definition atomic_inc :: "u64 \<Rightarrow> u64" where "atomic_inc x = x + 1"

definition count :: "(counters \<Rightarrow> counters) \<Rightarrow> (unit, 'k) cache_op" where
  "count f = st_modify (\<lambda>s. s\<lparr>ca_counters := f (ca_counters s)\<rparr>)"

text \<open>
  \<open>or_try_insert_with\<close>: what the cache has for the key, or what the initializer returns, which is put into the
  cache; the second component is what the initializer hands over besides, and tells that the entry is fresh.
\<close>

definition or_try_insert_with ::
    "('k \<Rightarrow> 'v option) \<Rightarrow> ('v \<Rightarrow> 'k \<Rightarrow> 'k) \<Rightarrow> ('v \<times> 'x, 'k) cache_op \<Rightarrow> ('v \<times> 'x option, 'k) cache_op" where
  "or_try_insert_with get put_in init s =
     (case get (cl_outside (ca_client s)) of
        Some v \<Rightarrow> (Ok (v, None), s)
      | None \<Rightarrow>
          st_bind init (\<lambda>(v, x).
          st_seq (on_outside (\<lambda>k. (Ok (), put_in v k))) (st_ok (v, Some x))) s)"

section \<open>Packed manifests and configurations\<close>

definition packed_new ::
    "('fd, 'k) cache_sys \<Rightarrow> oci_crate \<Rightarrow> oci_digest \<Rightarrow> oci_manifest \<Rightarrow> oci_image_configuration \<Rightarrow> (bytes, cache_error) result" where
  "packed_new cs cr digest manifest configuration =
     bindr (map_err CacheSpec (digest_of_oci (algorithm_string cr) (hex_decode_to_slice cr) digest)) (\<lambda>d.
     bindr (map_err CacheSpec (manifest_of_oci cr (om_layers manifest))) (\<lambda>m.
     bindr (map_err CacheSpec (configuration_of_oci cr configuration)) (\<lambda>c.
       ok_or EncodeError (cs_encode cs \<lparr>mc_manifest_digest = d, mc_manifest = m, mc_configuration = c\<rparr>))))"

definition packed_get :: "('fd, 'k) cache_sys \<Rightarrow> bytes \<Rightarrow> (image_manifest_and_configuration, cache_error) result" where
  "packed_get cs packed = ok_or DecodeError (cs_decode cs packed)"

section \<open>Retrieval\<close>

definition acquire :: "('fd, 'k) cache_sys \<Rightarrow> (unit, 'k) cache_op" where
  "acquire cs = on_outside (st_map_err (\<lambda>_. AcquireError) (cs_acquire cs))"

definition retreive_ref ::
    "('fd, 'k) cache_sys \<Rightarrow> oci_crate \<Rightarrow> 'k reg_crates \<Rightarrow> reference \<Rightarrow> oci_arch \<Rightarrow> oci_os \<Rightarrow> (bytes, 'k) cache_op" where
  "retreive_ref cs cr rc ref arch os =
     st_seq (acquire cs)
     (st_bind (on_client (get_matching_descriptor_from_index cr rc ref arch os)) (\<lambda>d.
      st_bind (st_lift (ok_or ManifestNotFound d)) (\<lambda>descriptor.
        st_ok (cs_digest_string cs (od_digest descriptor)))))"

definition retreive_manifest_and_configuration ::
    "('fd, 'k) cache_sys \<Rightarrow> oci_crate \<Rightarrow> 'k reg_crates \<Rightarrow> reference \<Rightarrow> (bytes, 'k) cache_op" where
  "retreive_manifest_and_configuration cs cr rc ref =
     st_bind (st_lift (ok_or MissingDigest (rf_digest ref))) (\<lambda>s.
     st_bind (st_lift (ok_or CacheBadDigest (rc_digest_parse rc s))) (\<lambda>digest.
     st_seq (acquire cs)
     (st_bind (on_client (get_image_manifest cr rc ref)) (\<lambda>res.
      st_bind (st_lift (ok_or ManifestNotFound res)) (\<lambda>manifest_res.
      st_bind (st_lift (ok_or CacheOciSpec (rc_manifest_parse rc (vb_data manifest_res)))) (\<lambda>manifest.
      st_bind (on_client (get_image_configuration cr rc ref (om_config manifest))) (\<lambda>res.
      st_bind (st_lift (ok_or ConfigurationNotFound res)) (\<lambda>configuration_res.
      st_bind (st_lift (ok_or CacheOciSpec (rc_configuration_parse rc (vb_data configuration_res)))) (\<lambda>configuration.
        st_lift (packed_new cs cr digest manifest configuration))))))))))"

text \<open>The file is written under its temporary name; a failure on the way drops the guard, which removes it.\<close>

definition fill_blob ::
    "('fd, 'k) cache_sys \<Rightarrow> oci_crate \<Rightarrow> 'k reg_crates \<Rightarrow> reference \<Rightarrow> oci_descriptor \<Rightarrow> 'fd \<Rightarrow> (nat, 'k) cache_op" where
  "fill_blob cs cr rc ref d file s =
     (case request_blob cr rc ref d (ca_client s) of
        (Err e, c) \<Rightarrow> (Err (ClientError e), s\<lparr>ca_client := c\<rparr>)
      | (Ok res, c) \<Rightarrow>
          st_bind (on_outside (st_map_err ClientError (receive_blob rc (cs_bw_write cs file) (cs_bw_flush cs file) d res)))
            (\<lambda>size. st_lift (ok_or BlobNotFound size)) (s\<lparr>ca_client := c\<rparr>))"

definition retreive_blob ::
    "('fd, 'k) cache_sys \<Rightarrow> oci_crate \<Rightarrow> 'k reg_crates \<Rightarrow> reference \<Rightarrow> oci_descriptor \<Rightarrow> blob_key \<Rightarrow> (nat \<times> 'fd, 'k) cache_op" where
  "retreive_blob cs cr rc ref d key =
     st_seq (acquire cs)
     (st_bind (on_outside (st_map_err CacheErrno (openat_create_write_async_with_guard (cs_blobs cs) key))) (\<lambda>(file, guard).
      (\<lambda>s. case fill_blob cs cr rc ref d file s of
             (Err e, s') \<Rightarrow> on_outside (\<lambda>k. (Err e, file_guard_drop (cs_blobs cs) guard k)) s'
           | (Ok n, s') \<Rightarrow>
               st_seq (on_outside (st_map_err CacheErrno (file_guard_success (cs_blobs cs) guard)))
               (st_seq (on_outside (st_map_err (\<lambda>_. CacheIo) (cs_rewind cs file))) (st_ok (n, file))) s')))"

section \<open>The client\<close>

text \<open>The digest of a reference, its own or the one known for it.\<close>

definition resolve_digest ::
    "('fd, 'k) cache_sys \<Rightarrow> oci_crate \<Rightarrow> 'k reg_crates \<Rightarrow> reference \<Rightarrow> oci_arch \<Rightarrow> oci_os \<Rightarrow> (bytes, 'k) cache_op" where
  "resolve_digest cs cr rc ref arch os =
     (case rf_digest ref of
        Some s \<Rightarrow>
          st_bind (st_lift (ok_or CacheBadDigest (rc_digest_parse rc s))) (\<lambda>digest. st_ok (cs_digest_string cs digest))
      | None \<Rightarrow>
          st_bind (or_try_insert_with (cs_ref_get cs (rf_string ref)) (cs_ref_insert cs (rf_string ref))
              (st_bind (retreive_ref cs cr rc ref arch os) (\<lambda>v. st_ok (v, ())))) (\<lambda>(value, fresh).
          st_seq (count (\<lambda>c. if fresh \<noteq> None then c\<lparr>ct_ref_miss := atomic_inc (ct_ref_miss c)\<rparr>
                            else c\<lparr>ct_ref_hit := atomic_inc (ct_ref_hit c)\<rparr>))
            (st_ok value)))"

definition manifest_entry ::
    "('fd, 'k) cache_sys \<Rightarrow> oci_crate \<Rightarrow> 'k reg_crates \<Rightarrow> reference \<Rightarrow> bytes \<Rightarrow> (bytes \<times> unit option, 'k) cache_op" where
  "manifest_entry cs cr rc ref digest_string =
     or_try_insert_with (cs_manifest_get cs digest_string) (cs_manifest_insert cs digest_string)
       (st_bind (retreive_manifest_and_configuration cs cr rc (cs_with_digest cs ref digest_string)) (\<lambda>v. st_ok (v, ())))"

definition get_image_manifest_and_configuration ::
    "('fd, 'k) cache_sys \<Rightarrow> oci_crate \<Rightarrow> 'k reg_crates \<Rightarrow> reference \<Rightarrow> oci_arch \<Rightarrow> oci_os \<Rightarrow> (bytes, 'k) cache_op" where
  "get_image_manifest_and_configuration cs cr rc ref arch os =
     st_bind (resolve_digest cs cr rc ref arch os) (\<lambda>digest_string.
     st_bind (manifest_entry cs cr rc ref digest_string) (\<lambda>(value, fresh).
     st_seq (count (\<lambda>c. if fresh \<noteq> None then c\<lparr>ct_manifest_miss := atomic_inc (ct_manifest_miss c)\<rparr>
                       else c\<lparr>ct_manifest_hit := atomic_inc (ct_manifest_hit c)\<rparr>))
       (st_ok value)))"

definition cache_get_blob ::
    "('fd, 'k) cache_sys \<Rightarrow> oci_crate \<Rightarrow> 'k reg_crates \<Rightarrow> reference \<Rightarrow> oci_descriptor \<Rightarrow> ('fd, 'k) cache_op" where
  "cache_get_blob cs cr rc ref d =
     st_bind (st_lift (ok_or CacheBadDigest (blob_key_new (cs_digest_string cs (od_digest d))))) (\<lambda>key.
     st_bind (or_try_insert_with (cs_blob_get cs key) (cs_blob_insert cs key) (retreive_blob cs cr rc ref d key)) (\<lambda>(size, fresh).
     st_bind
       (case fresh of
          Some fd \<Rightarrow> st_seq (count (\<lambda>c. c\<lparr>ct_blob_miss := atomic_inc (ct_blob_miss c)\<rparr>)) (st_ok fd)
        | None \<Rightarrow>
            st_seq (count (\<lambda>c. c\<lparr>ct_blob_hit := atomic_inc (ct_blob_hit c)\<rparr>))
            (st_bind (on_outside (st_map_err CacheErrno (openat_read_key (cs_blobs cs) key))) (\<lambda>file.
               st_lift (ok_or BlobMissing file))))
       (\<lambda>fd.
          st_bind (on_outside (\<lambda>k. (map_err CacheErrno (cs_fstat_size cs fd k), k))) (\<lambda>st_size.
            if (if 0 \<le> st_size then nat st_size else 0) \<noteq> unat (od_size d) then st_err CachedFileSizeMismatch
            else st_ok fd))))"

text \<open>The downloads run together; their results are taken in the order of the layers, the first error ends them.\<close>

fun get_layers ::
    "('fd, 'k) cache_sys \<Rightarrow> oci_crate \<Rightarrow> 'k reg_crates \<Rightarrow> reference \<Rightarrow> layer_descriptor list \<Rightarrow> ('fd list, 'k) cache_op" where
  "get_layers cs cr rc ref [] = st_ok []"
| "get_layers cs cr rc ref (l # ls) =
     st_bind (st_lift (ok_or CachePanic (oci_of_layer cr l))) (\<lambda>d.
     st_bind (cache_get_blob cs cr rc ref d) (\<lambda>fd.
     st_bind (get_layers cs cr rc ref ls) (\<lambda>fds. st_ok (fd # fds))))"

section \<open>Persistence\<close>

text \<open>A file that is missing or cannot be decoded leaves the cache as it is.\<close>

definition load_entries ::
    "('fd, 'k) cache_sys \<Rightarrow> bytes \<Rightarrow> (bytes \<Rightarrow> bytes \<Rightarrow> 'k \<Rightarrow> 'k) \<Rightarrow> (unit, 'k) cache_op" where
  "load_entries cs name put_in =
     st_bind (on_outside (st_map_err CacheErrno (openat_read (cs_cache_dir cs) name))) (\<lambda>file.
       case file of
         None \<Rightarrow> st_ok ()
       | Some f \<Rightarrow>
           on_outside (\<lambda>k. (Ok (), case cs_load cs f k of None \<Rightarrow> k | Some entries \<Rightarrow> fold (\<lambda>(x, v). put_in x v) entries k)))"

definition load_ref_cache :: "('fd, 'k) cache_sys \<Rightarrow> (unit, 'k) cache_op" where
  "load_ref_cache cs = load_entries cs (ascii ''ref'') (cs_ref_insert cs)"

definition load_manifest_cache :: "('fd, 'k) cache_sys \<Rightarrow> (unit, 'k) cache_op" where
  "load_manifest_cache cs = load_entries cs (ascii ''manifest'') (cs_manifest_insert cs)"

definition load_blob_cache :: "('fd, 'k) cache_sys \<Rightarrow> (unit, 'k) cache_op" where
  "load_blob_cache cs =
     on_outside (\<lambda>k. case read_from_disk (cs_disk cs k) [] of
                       (Err e, _) \<Rightarrow> (Err (CacheErrno e), k)
                     | (Ok _, acc) \<Rightarrow> (Ok (), fold (\<lambda>(key, size). cs_blob_insert cs key size) acc k))"

text \<open>
  The entries go through a \<open>BufWriter\<close> into a file with a temporary name. The writer is dropped at the end of
  the function, which is where its buffer is written, and errors of that are ignored.
\<close>

fun bw_puts :: "'i inner_write \<Rightarrow> bytes list \<Rightarrow> 'i buf_writer \<Rightarrow> bool \<times> 'i buf_writer" where
  "bw_puts iw [] w = (True, w)"
| "bw_puts iw (b # bs) w = (case bw_write_all iw b w of (False, w') \<Rightarrow> (False, w') | (True, w') \<Rightarrow> bw_puts iw bs w')"

definition bw_drop :: "'i inner_write \<Rightarrow> 'i buf_writer \<Rightarrow> 'i" where
  "bw_drop iw w = bw_inner (snd (bw_flush_buf iw w))"

definition write_entries ::
    "('fd, 'k) cache_sys \<Rightarrow> 'fd \<Rightarrow> bytes option \<Rightarrow> (bytes \<times> bytes) list \<Rightarrow> (unit, cache_error, 'k) st" where
  "write_entries cs file guard entries k =
     (let iw = cs_file_write cs file; ser = (\<lambda>w. (Err CacheSer, generic_guard_drop (cs_cache_dir cs) guard (bw_drop iw w)))
      in case cs_entries_pieces cs entries of
           None \<Rightarrow> ser (bw_new k)
         | Some pieces \<Rightarrow>
             (case bw_puts iw pieces (bw_new k) of
                (False, w) \<Rightarrow> ser w
              | (True, w) \<Rightarrow>
                  (case generic_guard_success (cs_cache_dir cs) guard (bw_inner w) of
                     (r, k') \<Rightarrow> (map_err CacheErrno r, bw_drop iw (w\<lparr>bw_inner := k'\<rparr>)))))"

definition save_entries ::
    "('fd, 'k) cache_sys \<Rightarrow> bytes \<Rightarrow> ('k \<Rightarrow> (bytes \<times> bytes) list) \<Rightarrow> (unit, 'k) cache_op" where
  "save_entries cs name entries =
     st_with (\<lambda>s.
     st_bind (st_lift (ok_or CachePanic (generic_name_new name))) (\<lambda>name.
     st_bind (on_outside (st_map_err CacheErrno (openat_create_write_with_generic_guard (cs_cache_dir cs) name))) (\<lambda>(file, guard).
       on_outside (write_entries cs file guard (entries (cl_outside (ca_client s)))))))"

definition save_ref_cache :: "('fd, 'k) cache_sys \<Rightarrow> (unit, 'k) cache_op" where
  "save_ref_cache cs = save_entries cs (ascii ''ref'') (cs_ref_entries cs)"

definition save_manifest_cache :: "('fd, 'k) cache_sys \<Rightarrow> (unit, 'k) cache_op" where
  "save_manifest_cache cs = save_entries cs (ascii ''manifest'') (cs_manifest_entries cs)"

definition persist :: "('fd, 'k) cache_sys \<Rightarrow> (unit, 'k) cache_op" where
  "persist cs = st_seq (save_ref_cache cs) (save_manifest_cache cs)"

end
