(* ===== verification/Registry_Cache_Props.thy ===== *)
theory Registry_Cache_Props
  imports Registry_Cache
begin

text \<open>
  What comes out of the caches is what the digests say, whether it was fetched now or earlier, and a blob
  appears under its name on disk only when it is complete and verified.
\<close>

section \<open>What requests keep\<close>

definition net_keeps :: "'k reg_crates \<Rightarrow> ('k \<Rightarrow> bool) \<Rightarrow> bool" where
  "net_keeps rc I \<longleftrightarrow> (\<forall>req. st_keeps I (rc_send rc req)) \<and> (\<forall>req. st_keeps I (rc_json_token rc req)) \<and>
     (\<forall>x t k. I k \<longrightarrow> I (rc_token_insert rc x t k))"

lemma net_keeps_ops:
  assumes "net_keeps rc I"
  shows "st_keeps I (rc_send rc req)" "st_keeps I (rc_json_token rc req)" "I k \<Longrightarrow> I (rc_token_insert rc x t k)"
  using assms by (simp_all add: net_keeps_def)

definition client_in :: "('k \<Rightarrow> bool) \<Rightarrow> 'k client \<Rightarrow> bool" where
  "client_in I c \<longleftrightarrow> I (cl_outside c)"

definition cache_in :: "('k \<Rightarrow> bool) \<Rightarrow> 'k cache_client \<Rightarrow> bool" where
  "cache_in I s \<longleftrightarrow> client_in I (ca_client s)"

lemma keeps_outside: "st_keeps I m \<Longrightarrow> st_keeps (client_in I) (outside m)"
  by (auto simp: st_keeps_def outside_def client_in_def split: prod.split)


lemma keeps_on_outside: "st_keeps I m \<Longrightarrow> st_keeps (cache_in I) (on_outside m)"
  by (auto simp: st_keeps_def on_outside_def cache_in_def client_in_def split: prod.split)

lemma keeps_limits:
  "st_keeps (client_in I) (check_ratelimit rc ref)" "st_keeps (client_in I) (handle_ratelimit rc ref res)"
  by (auto simp: st_keeps_def check_ratelimit_def handle_ratelimit_def client_in_def split: option.split)

lemma keeps_token:
  assumes "net_keeps rc I"
  shows "st_keeps (client_in I) (get_token_for rc ref w)"
  unfolding st_keeps_def
proof (intro allI impI)
  fix c assume c: "client_in I c"
  have user: "st_keeps (client_in I) (retreive_token_user_pass rc ref w u p)" for u p
    unfolding retreive_token_user_pass_def by (intro keeps_intros keeps_outside net_keeps_ops [OF assms])
  have tok: "client_in I c'" if "retreive_token_user_pass rc ref w u p c = (r, c')" for u p r c'
    by (rule keeps_run [OF user c that])
  have ins: "client_in I (c'\<lparr>cl_outside := rc_token_insert rc x t (cl_outside c')\<rparr>)" if "client_in I c'" for c' x t
    using net_keeps_ops(3) [OF assms] that by (simp add: client_in_def)
  from c show "client_in I (snd (get_token_for rc ref w c))"
    unfolding get_token_for_def using ins tok by (auto split: option.split auth.split prod.split result.split)
qed

lemma keeps_auth: "net_keeps rc I \<Longrightarrow> st_keeps (client_in I) (auth_and_retry rc ref req)"
  unfolding auth_and_retry_def by (intro keeps_intros keeps_limits keeps_outside keeps_token net_keeps_ops(1))


lemma keeps_acquire: "st_keeps I (cs_acquire cs) \<Longrightarrow> st_keeps (cache_in I) (acquire cs)"
  unfolding acquire_def by (intro keeps_on_outside keeps_intros)


section \<open>Manifests\<close>












section \<open>Blobs on disk\<close>

text \<open>
  The documented behaviour of the file operations, with \<open>files\<close> what is on disk, \<open>acc\<close> what the buffered writer of
  an open file has accepted and \<open>path\<close> the name an open file was created with.
\<close>

definition disk_laws ::
    "('fd, 'k) cache_sys \<Rightarrow> 'k reg_crates \<Rightarrow> ('k \<Rightarrow> bytes \<rightharpoonup> bytes) \<Rightarrow> ('fd \<Rightarrow> 'k \<Rightarrow> bytes) \<Rightarrow> ('fd \<Rightarrow> bytes) \<Rightarrow> bool" where
  "disk_laws cs rc files acc path \<longleftrightarrow>
     (\<forall>F fd A. net_keeps rc (\<lambda>k. files k = F \<and> acc fd k = A)) \<and>
     (\<forall>F. st_keeps (\<lambda>k. files k = F) (cs_acquire cs)) \<and> (\<forall>F fd. st_keeps (\<lambda>k. files k = F) (cs_rewind cs fd)) \<and>
     (\<forall>F p m. st_keeps (\<lambda>k. files k = F) (bs_mkdirat (cs_blobs cs) p m)) \<and>
     (\<forall>p how k r k'. bs_openat2 (cs_blobs cs) p how k = (r, k') \<longrightarrow> {OCreate, OTrunc} \<subseteq> set (oh_flags how) \<longrightarrow>
        (case r of Ok fd \<Rightarrow> files k' = (files k)(p \<mapsto> []) \<and> path fd = p \<and> acc fd k' = [] | Err _ \<Rightarrow> files k' = files k)) \<and>
     (\<forall>fd bs k ok k'. cs_bw_write cs fd bs k = (ok, k') \<longrightarrow>
        (\<forall>p. p \<noteq> path fd \<longrightarrow> files k' p = files k p) \<and> (ok \<longrightarrow> acc fd k' = acc fd k @ bs)) \<and>
     (\<forall>fd k ok k'. cs_bw_flush cs fd k = (ok, k') \<longrightarrow>
        (\<forall>p. p \<noteq> path fd \<longrightarrow> files k' p = files k p) \<and> (ok \<longrightarrow> files k' (path fd) = Some (acc fd k))) \<and>
     (\<forall>a b k r k'. a \<noteq> b \<longrightarrow> bs_renameat (cs_blobs cs) a b k = (r, k') \<longrightarrow>
        (case r of Ok _ \<Rightarrow> files k' = (files k)(b := files k a, a := None) | Err _ \<Rightarrow> files k' = files k)) \<and>
     (\<forall>a p k. p \<noteq> a \<longrightarrow> files (snd (bs_unlinkat (cs_blobs cs) a k)) p = files k p)"

lemma disk_law:
  assumes "disk_laws cs rc files acc path"
  shows "net_keeps rc (\<lambda>k. files k = F \<and> acc fd k = A)" "st_keeps (\<lambda>k. files k = F) (cs_acquire cs)"
    "st_keeps (\<lambda>k. files k = F) (cs_rewind cs fd)" "st_keeps (\<lambda>k. files k = F) (bs_mkdirat (cs_blobs cs) p m)"
    "bs_openat2 (cs_blobs cs) p how k = (r, k') \<Longrightarrow> {OCreate, OTrunc} \<subseteq> set (oh_flags how) \<Longrightarrow>
       (case r of Ok fd \<Rightarrow> files k' = (files k)(p \<mapsto> []) \<and> path fd = p \<and> acc fd k' = [] | Err _ \<Rightarrow> files k' = files k)"
    "cs_bw_write cs fd bs k = (ok, k') \<Longrightarrow> p \<noteq> path fd \<Longrightarrow> files k' p = files k p"
    "cs_bw_write cs fd bs k = (True, k') \<Longrightarrow> acc fd k' = acc fd k @ bs"
    "cs_bw_flush cs fd k = (ok, k') \<Longrightarrow> p \<noteq> path fd \<Longrightarrow> files k' p = files k p"
    "cs_bw_flush cs fd k = (True, k') \<Longrightarrow> files k' (path fd) = Some (acc fd k)"
    "a \<noteq> b \<Longrightarrow> bs_renameat (cs_blobs cs) a b k = (Ok u, k') \<Longrightarrow> files k' = (files k)(b := files k a, a := None)"
    "a \<noteq> b \<Longrightarrow> bs_renameat (cs_blobs cs) a b k = (Err e, k') \<Longrightarrow> files k' = files k"
    "p \<noteq> a \<Longrightarrow> files (snd (bs_unlinkat (cs_blobs cs) a k)) p = files k p"
proof -
  note l = assms [unfolded disk_laws_def]
  show "net_keeps rc (\<lambda>k. files k = F \<and> acc fd k = A)" by (rule l [THEN conjunct1, rule_format])
  show "st_keeps (\<lambda>k. files k = F) (cs_acquire cs)" by (rule l [THEN conjunct2, THEN conjunct1, rule_format])
  show "st_keeps (\<lambda>k. files k = F) (cs_rewind cs fd)" by (rule l [THEN conjunct2, THEN conjunct2, THEN conjunct1, rule_format])
  show "st_keeps (\<lambda>k. files k = F) (bs_mkdirat (cs_blobs cs) p m)" by (rule l [THEN conjunct2, THEN conjunct2, THEN conjunct2, THEN conjunct1, rule_format])
  show "case r of Ok fd \<Rightarrow> files k' = (files k)(p \<mapsto> []) \<and> path fd = p \<and> acc fd k' = [] | Err _ \<Rightarrow> files k' = files k"
    if "bs_openat2 (cs_blobs cs) p how k = (r, k')" "{OCreate, OTrunc} \<subseteq> set (oh_flags how)"
    by (rule l [THEN conjunct2, THEN conjunct2, THEN conjunct2, THEN conjunct2, THEN conjunct1, rule_format]) (rule that)+
  note w = l [THEN conjunct2, THEN conjunct2, THEN conjunct2, THEN conjunct2, THEN conjunct2, THEN conjunct1, rule_format] and f = l [THEN conjunct2, THEN conjunct2, THEN conjunct2, THEN conjunct2, THEN conjunct2, THEN conjunct2, THEN conjunct1, rule_format] and r = l [THEN conjunct2, THEN conjunct2, THEN conjunct2, THEN conjunct2, THEN conjunct2, THEN conjunct2, THEN conjunct2, THEN conjunct1, rule_format]
  show "files k' p = files k p" if "cs_bw_write cs fd bs k = (ok, k')" "p \<noteq> path fd" using w that by blast
  show "acc fd k' = acc fd k @ bs" if "cs_bw_write cs fd bs k = (True, k')" using w that by blast
  show "files k' p = files k p" if "cs_bw_flush cs fd k = (ok, k')" "p \<noteq> path fd" using f that by blast
  show "files k' (path fd) = Some (acc fd k)" if "cs_bw_flush cs fd k = (True, k')" using f that by blast
  show "files k' = (files k)(b := files k a, a := None)" if "a \<noteq> b" "bs_renameat (cs_blobs cs) a b k = (Ok u, k')" using r [OF that] by simp
  show "files k' = files k" if "a \<noteq> b" "bs_renameat (cs_blobs cs) a b k = (Err e, k')" using r [OF that] by simp
  show "files (snd (bs_unlinkat (cs_blobs cs) a k)) p = files k p" if "p \<noteq> a" by (rule l [THEN conjunct2, THEN conjunct2, THEN conjunct2, THEN conjunct2, THEN conjunct2, THEN conjunct2, THEN conjunct2, THEN conjunct2, rule_format]) (rule that)
qed

abbreviation out_of :: "'k cache_client \<Rightarrow> 'k" where
  "out_of s \<equiv> cl_outside (ca_client s)"

text \<open>Files other than the one being written stay as they are.\<close>

lemma pump_others:
  assumes "\<And>bs k. I k \<Longrightarrow> I (snd (wr bs k))"
  shows "st_keeps I (pump wr cs len hashed)"
proof -
  have "I (snd (pump wr cs len hashed w))" if "I w" for w
    using that assms
  proof (induction wr cs len hashed w rule: pump.induct)
    case (3 wr c cs len hashed w)
    obtain ok w1 where w1: "wr c w = (ok, w1)" by fastforce
    with 3(3) [OF 3(2), of c] have "I w1" by simp
    with 3(1) [OF w1 [symmetric] _ _ 3(3)] w1 show ?case by (cases ok) auto
  qed auto
  then show ?thesis by (simp add: st_keeps_def)
qed

lemma fill_blob_disk:
  assumes "disk_laws cs rc files acc path" and "fill_blob cs cr rc ref d fd s = (r, s')" and "acc fd (out_of s) = []"
  shows "p \<noteq> path fd \<Longrightarrow> files (out_of s') p = files (out_of s) p"
    "r = Ok n \<Longrightarrow> \<exists>data. files (out_of s') (path fd) = Some data \<and> n = length data \<and> od_size d = of_nat n \<and> digest_of rc (od_digest d) data"
proof -
  note law = disk_law [OF assms(1)]
  let ?F = "files (out_of s)" and ?wr = "cs_bw_write cs fd" and ?fl = "cs_bw_flush cs fd"
  obtain q c where q: "request_blob cr rc ref d (ca_client s) = (q, c)" by fastforce
  have "st_keeps (client_in (\<lambda>k. files k = ?F \<and> acc fd k = [])) (request_blob cr rc ref d)"
    unfolding request_blob_def by (rule keeps_auth [OF law(1)])
  from keeps_run [OF this _ q] assms(3) have c: "files (cl_outside c) = ?F" "acc fd (cl_outside c) = []"
    by (simp_all add: client_in_def)
  define I where "I = (\<lambda>k. \<forall>p. p \<noteq> path fd \<longrightarrow> files k p = ?F p)"
  have wr: "I (snd (?wr bs k))" if "I k" for bs k using law(6) that unfolding I_def by (metis prod.collapse)
  have "st_keeps I (\<lambda>w. case ?fl w of (ok, w') \<Rightarrow> (if ok then Ok () else Err RegWrite, w'))"
    using law(8) unfolding st_keeps_def I_def by (auto split: prod.split)
  then have recv: "st_keeps I (receive_blob rc ?wr ?fl d res)" for res
    unfolding receive_blob_def
    by (auto split: oci_digest_algorithm.split intro!: keeps_intros pump_others wr)
  have sink: "byte_sink ?wr (\<lambda>_. True) (acc fd)" using law(7) by unfold_locales blast
  show "files (out_of s') p = files (out_of s) p" if "p \<noteq> path fd"
  proof (cases q)
    case (Ok res)
    obtain z k where z: "receive_blob rc ?wr ?fl d res (cl_outside c) = (z, k)" by fastforce
    from keeps_run [OF recv _ z] have "I k" using c by (simp add: I_def)
    moreover have "out_of s' = k"
      using assms(2) q Ok z
      by (cases z) (auto simp: fill_blob_def st_bind_def on_outside_def st_map_err_def st_run)
    ultimately show ?thesis using that by (simp add: I_def)
  qed (use assms(2) q c in \<open>auto simp: fill_blob_def\<close>)
  show "\<exists>data. files (out_of s') (path fd) = Some data \<and> n = length data \<and> od_size d = of_nat n \<and> digest_of rc (od_digest d) data"
    if r: "r = Ok n"
  proof -
    from r assms(2) q obtain res where "q = Ok res" by (cases q) (auto simp: fill_blob_def)
    with r assms(2) q have "receive_blob rc ?wr ?fl d res (cl_outside c) = (Ok (Some n), out_of s')"
      by (auto simp: fill_blob_def st_bind_Ok on_outside_def st_map_err_def st_run result_simps split: prod.split_asm)
    from receive_ok [OF this] obtain hashed k1 where k1: "dg_algorithm (od_digest d) = ASha256"
      "pump ?wr (hr_chunks res) 0 [] (cl_outside c) = (Ok (n, hashed), k1)" "?fl k1 = (True, out_of s')" "od_size d = of_nat n"
      "digest_eq (dg_digest (od_digest d)) (rc_sha256 rc hashed)" by blast
    from byte_sink.pump_writes [OF sink k1(2)] c(2) obtain data where "n = length data" "hashed = data" "acc fd k1 = data" by auto
    with k1 law(9) [OF k1(3)] show ?thesis by (simp add: digest_of_def digest_eq_hex)
  qed
qed

lemma create_disk:
  assumes "disk_laws cs rc files acc path" and "openat_create_write_async (cs_blobs cs) key k = (r, k')"
  shows "case r of Ok fd \<Rightarrow> files k' = (files k)(blob_key_as_path key \<mapsto> []) \<and> path fd = blob_key_as_path key \<and> acc fd k' = []
         | Err _ \<Rightarrow> files k' = files k"
proof -
  note law = disk_law [OF assms(1)]
  let ?open = "openat_key (cs_blobs cs) key 0x1a4 [ORdwr, OCreate, OTrunc, OCloexec, ONonblock]"
  have opn: "case r of Ok fd \<Rightarrow> files k' = (files k)(blob_key_as_path key \<mapsto> []) \<and> path fd = blob_key_as_path key \<and> acc fd k' = []
         | Err _ \<Rightarrow> files k' = files k" if "?open k = (r, k')" for k r k'
    using law(5) that unfolding openat_key_def by simp
  obtain q k1 where q: "?open k = (q, k1)" by fastforce
  note q1 = opn [OF q]
  have mk: "files k2 = files k1" if "bs_mkdirat (cs_blobs cs) p m k1 = (z, k2)" for p m z k2
    by (rule keeps_run [OF law(4) refl that])
  show ?thesis
  proof (cases "q = Err NOENT")
    case True
    let ?mk = "bs_mkdirat (cs_blobs cs) (case blob_key_parts key of Some (l, _) \<Rightarrow> l | None \<Rightarrow> []) 0x1e4"
    obtain z k2 where z: "?mk k1 = (z, k2)" by fastforce
    have "st_seq ?mk ?open k1 = (r, k')"
      using True assms(2) q unfolding openat_create_write_async_def openat_create_flags_def by (simp add: Let_def)
    moreover have "files k2 = files k" using mk [OF z] q1 True by simp
    ultimately show ?thesis using opn [of k2 r k'] z by (cases z; cases r) (auto simp: st_seq_def st_bind_def)
  next
    case False
    then have "(q, k1) = (r, k')"
      using assms(2) q unfolding openat_create_write_async_def openat_create_flags_def
      by (auto simp: Let_def split: result.split_asm if_split_asm)
    then show ?thesis using q1 by (cases r) auto
  qed
qed

text \<open>
  (C9) A blob appears under its name only when it is complete and verified: whatever happens while it is
  fetched, no other file changes, and the file of the key is either untouched or has the size and the
  digest of the descriptor; after a success it has.
\<close>

theorem blob_published_verified:
  assumes "disk_laws cs rc files acc path" and "blob_key_new x = Some key" and "retreive_blob cs cr rc ref d key s = (r, s')"
  shows "(\<forall>p. p \<noteq> blob_key_as_path key \<longrightarrow> p \<noteq> blob_key_as_path key @ tmp_suffix \<longrightarrow> files (out_of s') p = files (out_of s) p) \<and>
    (files (out_of s') (blob_key_as_path key) = files (out_of s) (blob_key_as_path key) \<and> (\<forall>y. r \<noteq> Ok y) \<or>
     (\<exists>data. files (out_of s') (blob_key_as_path key) = Some data \<and> od_size d = of_nat (length data) \<and>
        digest_of rc (od_digest d) data \<and> (\<forall>n fd. r = Ok (n, fd) \<longrightarrow> n = length data)))"
    (is "?others \<and> ?file")
proof -
  note law = disk_law [OF assms(1)]
  let ?p = "blob_key_as_path key" let ?t = "blob_key_as_path (blob_key_with_tmp_suffix key)"
  have t: "?t = ?p @ tmp_suffix" by (rule tmp_path [OF assms(2)])
  then have ne: "?p \<noteq> ?t" by (simp add: tmp_suffix_def ascii_def)
  obtain q0 s0 where s0: "acquire cs s = (q0, s0)" by fastforce
  have f0: "files (out_of s0) = files (out_of s)"
    using keeps_run [OF keeps_acquire [OF law(2)] _ s0] by (simp add: cache_in_def client_in_def)
  obtain q k1 where q: "openat_create_write_async (cs_blobs cs) (blob_key_with_tmp_suffix key) (out_of s0) = (q, k1)" by fastforce
  note f1 = create_disk [OF assms(1) q]
  let ?s1 = "s0\<lparr>ca_client := (ca_client s0)\<lparr>cl_outside := k1\<rparr>\<rparr>"
  show ?thesis
  proof (cases "\<exists>u fd. q0 = Ok u \<and> q = Ok fd")
    case False
    then have "files (out_of s') = files (out_of s) \<and> (\<forall>y. r \<noteq> Ok y)"
      using assms(3) s0 q f0 f1
      by (auto simp: retreive_blob_def st_seq_def st_bind_def on_outside_def st_map_err_def st_run
          openat_create_write_async_with_guard_def split: result.split_asm)
    then show ?thesis by simp
  next
    case True
    then obtain fd where qs: "q0 = Ok ()" "q = Ok fd" by auto
    obtain z s2 where z: "fill_blob cs cr rc ref d fd ?s1 = (z, s2)" by fastforce
    have pf: "path fd = ?t" "acc fd (out_of ?s1) = []" "files (out_of ?s1) = (files (out_of s))(?t \<mapsto> [])" using f1 qs f0 by auto
    note others = fill_blob_disk(1) [OF assms(1) z pf(2)] and filled = fill_blob_disk(2) [OF assms(1) z pf(2)]
    have same: "files (out_of s2) p = files (out_of s) p" if "p \<noteq> ?t" for p using others [of p] that pf by simp
    have run: "(case z of
             Err e \<Rightarrow> on_outside (\<lambda>k. (Err e, file_guard_drop (cs_blobs cs) (Some key) k)) s2
           | Ok n \<Rightarrow>
               st_seq (on_outside (st_map_err CacheErrno (file_guard_success (cs_blobs cs) (Some key))))
               (st_seq (on_outside (st_map_err (\<lambda>_. CacheIo) (cs_rewind cs fd))) (st_ok (n, fd))) s2) = (r, s')"
      using assms(3) s0 q qs z
      by (auto simp: retreive_blob_def st_seq_def st_bind_def on_outside_def st_map_err_def st_run file_guard_new_def
          openat_create_write_async_with_guard_def split: result.split)
    show ?thesis
    proof (cases z)
      case (Err e)
      then have "r = Err e" "out_of s' = file_guard_drop (cs_blobs cs) (Some key) (out_of s2)"
        using run by (auto simp: on_outside_def)
      then show ?thesis using same law(12) ne t by (auto simp: file_guard_drop_def unlinkat_key_def)
    next
      case (Ok n)
      obtain m k3 where m: "bs_renameat (cs_blobs cs) ?t ?p (out_of s2) = (m, k3)" by fastforce
      obtain w k4 where w: "cs_rewind cs fd k3 = (w, k4)" by fastforce
      have k4: "files k4 = files k3" using keeps_run [OF law(3) refl w] .
      from filled [OF Ok] pf obtain data where data: "files (out_of s2) ?t = Some data" "n = length data" "od_size d = of_nat n"
        "digest_of rc (od_digest d) data" by auto
      show ?thesis
      proof (cases m)
        case (Err e)
        then have "out_of s' = k3" "\<forall>y. r \<noteq> Ok y"
          using run Ok m by (auto simp: on_outside_def st_seq_def st_bind_def st_map_err_def file_guard_success_def file_guard_drop_def)
        then show ?thesis using law(11) [OF ne [symmetric] m [unfolded Err]] same ne t by auto
      next
        case (Ok u)
        then have "out_of s' = k4" "\<And>n' fd'. r = Ok (n', fd') \<Longrightarrow> n' = n"
          using run \<open>z = Ok n\<close> m w
          by (cases w; auto simp: on_outside_def st_seq_def st_bind_def st_map_err_def file_guard_success_def file_guard_drop_def st_run)+
        then show ?thesis using law(10) [OF ne [symmetric] m [unfolded Ok]] k4 same data ne t by auto
      qed
    qed
  qed
qed

section \<open>The index files\<close>

text \<open>
  Entries that fit into the buffer of the writer are not yet in the file when it takes the place of the old
  one: the name is published first, and the bytes follow when the writer is dropped.
\<close>

lemma bw_puts_buffered:
  "length (concat bs) + length (bw_buf w) < bw_capacity \<Longrightarrow> bw_puts iw bs w = (True, w\<lparr>bw_buf := bw_buf w @ concat bs\<rparr>)"
proof (induction bs arbitrary: w)
  case (Cons b bs)
  then have "bw_write_all iw b w = (True, w\<lparr>bw_buf := bw_buf w @ b\<rparr>)" by (simp add: bw_write_all_def Let_def)
  with Cons show ?case by simp
qed simp

text \<open>
  (C40) Saving an index of less than 8192 bytes replaces the old index by the empty file that was created
  for the new one; the entries are written after that, and a failure to write them is not reported.
\<close>

theorem index_published_unwritten:
  assumes "cs_entries_pieces cs entries = Some pieces" and "length (concat pieces) < bw_capacity" and "concat pieces \<noteq> []"
    and "bs_renameat (cs_cache_dir cs) (name @ tmp_suffix) name k = (Ok (), k1)"
  shows "write_entries cs file (Some name) entries k = (Ok (), snd (cs_file_write cs file (concat pieces) k1))"
proof -
  have "bw_puts (cs_file_write cs file) pieces (bw_new k) = (True, \<lparr>bw_buf = concat pieces, bw_inner = k\<rparr>)"
    using bw_puts_buffered [of pieces "bw_new k"] assms(2) by (simp add: bw_new_def)
  with assms show ?thesis
    by (auto simp: write_entries_def Let_def generic_guard_success_def generic_with_tmp_suffix_def generic_guard_drop_def bw_drop_def
        bw_flush_buf_def split: prod.split bool.split)
qed

section \<open>Instances\<close>

text \<open>A host with the files of one directory, where an open file is its name, and a cache of manifests.\<close>

record host =
  ho_files :: "bytes \<rightharpoonup> bytes"
  ho_taken :: "bytes \<Rightarrow> bytes"
  ho_manifests :: "bytes \<rightharpoonup> bytes"

definition host_dir :: "(bytes, host) blob_sys" where
  "host_dir =
     \<lparr>bs_renameat = (\<lambda>a b k. (Ok (), k\<lparr>ho_files := (ho_files k)(b := ho_files k a, a := None)\<rparr>)),
      bs_unlinkat = (\<lambda>a k. (Ok (), k\<lparr>ho_files := (ho_files k)(a := None)\<rparr>)),
      bs_openat2 = (\<lambda>p how k. (Ok p, k\<lparr>ho_files := (ho_files k)(p \<mapsto> []), ho_taken := (ho_taken k)(p := [])\<rparr>)),
      bs_mkdirat = (\<lambda>_ _ k. (Ok (), k)), bs_open = (\<lambda>p _ k. (Ok p, k)), bs_mkdir = (\<lambda>_ _ k. (Ok (), k))\<rparr>"

definition host_sys :: "(bytes, host) cache_sys" where
  "host_sys =
     \<lparr>cs_ref_get = (\<lambda>_ _. None), cs_ref_insert = (\<lambda>_ _ k. k), cs_manifest_get = (\<lambda>x k. ho_manifests k x),
      cs_manifest_insert = (\<lambda>x v k. k\<lparr>ho_manifests := (ho_manifests k)(x \<mapsto> v)\<rparr>), cs_blob_get = (\<lambda>_ _. None),
      cs_blob_insert = (\<lambda>_ _ k. k), cs_acquire = st_ok (), cs_blobs = host_dir, cs_cache_dir = host_dir,
      cs_bw_write = (\<lambda>fd bs k. (True, k\<lparr>ho_taken := (ho_taken k)(fd := ho_taken k fd @ bs)\<rparr>)),
      cs_bw_flush = (\<lambda>fd k. (True, k\<lparr>ho_files := (ho_files k)(fd \<mapsto> ho_taken k fd)\<rparr>)), cs_rewind = (\<lambda>_. st_ok ()),
      cs_fstat_size = (\<lambda>_ _. Ok 2), cs_load = (\<lambda>_ _. None), cs_ref_entries = (\<lambda>_. []), cs_manifest_entries = (\<lambda>_. []),
      cs_entries_pieces = (\<lambda>_. Some [[1], [2]]), cs_file_write = (\<lambda>_ _ k. (False, k)), cs_disk = (\<lambda>_. []),
      cs_encode = (\<lambda>_. Some [9]), cs_decode = (\<lambda>_. None), cs_digest_string = dg_digest,
      cs_with_digest = (\<lambda>r x. r\<lparr>rf_digest := Some x\<rparr>)\<rparr>"

text \<open>The registry of \<open>small_crates\<close>; its manifest has one layer and names its configuration by digest.\<close>

definition host_crates :: "host reg_crates" where
  "host_crates =
     \<lparr>rc_send = (\<lambda>_. st_ok small_response), rc_json_token = (\<lambda>_. st_err ()), rc_token_get = (\<lambda>_ _. None),
      rc_token_insert = (\<lambda>_ _ k. k), rc_now = (\<lambda>_. 7), rc_timestamp = (\<lambda>n. Some (int n)), rc_sha256 = (\<lambda>_. small_hash),
      rc_digest_parse = (\<lambda>s. Some \<lparr>dg_algorithm = ASha256, dg_digest = s\<rparr>), rc_bearer_pairs = (\<lambda>_. None),
      rc_media_type = MOther, rc_index_parse = (\<lambda>_. None),
      rc_manifest_parse = (\<lambda>_. Some \<lparr>om_config = oci_descriptor.extend small_descriptor \<lparr>pd_platform = None\<rparr>, om_layers = [sample_layer]\<rparr>),
      rc_configuration_parse = (\<lambda>_. Some \<lparr>oi_architecture = OAmd64, oi_os = OLinux, oi_config = None\<rparr>)\<rparr>"

definition host_client :: "host cache_client" where
  "host_client =
     \<lparr>ca_client = \<lparr>cl_auth_store = Map.empty, cl_ratelimit = Map.empty,
        cl_outside = \<lparr>ho_files = Map.empty, ho_taken = (\<lambda>_. []), ho_manifests = Map.empty\<rparr>\<rparr>,
      ca_counters = \<lparr>ct_ref_hit = 0, ct_ref_miss = 0, ct_manifest_hit = 0, ct_manifest_miss = 0, ct_blob_hit = 0, ct_blob_miss = 0\<rparr>\<rparr>"

lemma host_ops:
  "cs_acquire host_sys = st_ok ()" "cs_digest_string host_sys = dg_digest" "cs_manifest_get host_sys x k = ho_manifests k x"
  "cs_with_digest host_sys r x = r\<lparr>rf_digest := Some x\<rparr>" "cs_blobs host_sys = host_dir" "cs_rewind host_sys fd = st_ok ()"
  "cs_bw_write host_sys fd bs k = (True, k\<lparr>ho_taken := (ho_taken k)(fd := ho_taken k fd @ bs)\<rparr>)"
  "cs_bw_flush host_sys fd k = (True, k\<lparr>ho_files := (ho_files k)(fd \<mapsto> ho_taken k fd)\<rparr>)"
  "cs_entries_pieces host_sys es = Some [[1], [2]]" "cs_cache_dir host_sys = host_dir" "cs_file_write host_sys fd bs k = (False, k)"
  "rc_digest_parse host_crates s = Some \<lparr>dg_algorithm = ASha256, dg_digest = s\<rparr>" "rc_sha256 host_crates b = small_hash"
  "rc_manifest_parse host_crates b = Some \<lparr>om_config = oci_descriptor.extend small_descriptor \<lparr>pd_platform = None\<rparr>, om_layers = [sample_layer]\<rparr>"
  "rc_configuration_parse host_crates b = Some \<lparr>oi_architecture = OAmd64, oi_os = OLinux, oi_config = None\<rparr>"
  by (simp_all add: host_sys_def host_crates_def)

lemma host_net: "net_keeps host_crates I"
  by (simp add: net_keeps_def host_crates_def st_keeps_def st_run)


lemma host_disk_laws: "disk_laws host_sys host_crates ho_files (\<lambda>fd k. ho_taken k fd) (\<lambda>fd. fd)"
  by (simp add: disk_laws_def host_net host_sys_def host_dir_def st_keeps_def st_run)

lemma host_auth:
  "cl_ratelimit c (rf_registry ref) = None \<Longrightarrow> auth_and_retry host_crates ref req c = (Ok small_response, c)"
  by (simp add: auth_and_retry_def check_ratelimit_def handle_ratelimit_def outside_def host_crates_def small_response_def
      st_seq_def st_bind_def st_run FORBIDDEN_def TOO_MANY_REQUESTS_def UNAUTHORIZED_def)





lemma host_retreive:
  "fst (retreive_blob host_sys plain_crate host_crates small_ref small_descriptor (ascii ''a:b'') host_client) = Ok (2, ascii ''a/b_tmp'')"
proof -
  have lim: "cl_ratelimit (ca_client host_client) (rf_registry small_ref) = None" by (simp add: host_client_def)
  have path: "blob_key_as_path (blob_key_with_tmp_suffix (ascii ''a:b'')) = ascii ''a/b_tmp''"
    by (simp add: blob_key_as_path_def blob_key_with_tmp_suffix_def tmp_suffix_def split_once_def ascii_def colon_def slash_def)
  note run = st_bind_def st_seq_def st_run on_outside_def st_map_err_def
  have recv: "\<exists>k'. receive_blob host_crates (cs_bw_write host_sys fd) (cs_bw_flush host_sys fd) small_descriptor small_response k = (Ok (Some 2), k')"
    for fd k
    by (simp add: receive_blob_def small_response_def small_descriptor_def OK_def NOT_FOUND_def run check_digest_matches_def
        digest_eq_hex host_ops)
  have fill: "\<exists>s'. fill_blob host_sys plain_crate host_crates small_ref small_descriptor fd s = (Ok 2, s')"
    if "cl_ratelimit (ca_client s) (rf_registry small_ref) = None" for fd s
    using host_auth [OF that] recv [of fd "out_of s"] by (auto simp: fill_blob_def request_blob_def run)
  have "\<exists>s'. fill_blob host_sys plain_crate host_crates small_ref small_descriptor fd
      (host_client\<lparr>ca_client := ca_client host_client\<lparr>cl_outside := k\<rparr>\<rparr>) = (Ok 2, s')" for fd k
    by (rule fill) (use lim in simp)
  from this [of "ascii ''a/b_tmp''" "out_of host_client\<lparr>ho_files := (ho_files (out_of host_client))(ascii ''a/b_tmp'' \<mapsto> []),
      ho_taken := (ho_taken (out_of host_client))(ascii ''a/b_tmp'' := [])\<rparr>"] show ?thesis
    by (auto simp: retreive_blob_def run acquire_def host_ops openat_create_write_async_with_guard_def openat_create_write_async_def
        openat_create_flags_def openat_key_def path host_dir_def file_guard_new_def file_guard_success_def split: prod.split result.split)
qed

lemma blob_published_verified_witness:
  "\<exists>data. ho_files (out_of (snd (retreive_blob host_sys plain_crate host_crates small_ref small_descriptor (ascii ''a:b'') host_client)))
       (ascii ''a/b'') = Some data \<and> length data = 2 \<and> digest_of host_crates (od_digest small_descriptor) data"
proof -
  have key: "blob_key_new (ascii ''a:b'') = Some (ascii ''a:b'')" "blob_key_as_path (ascii ''a:b'') = ascii ''a/b''"
    by (simp_all add: blob_key_new_def blob_key_as_path_def split_once_def ascii_def colon_def dot_def slash_def)
  from blob_published_verified [OF host_disk_laws key(1) surjective_pairing, of plain_crate small_ref small_descriptor host_client]
  show ?thesis by (auto simp: host_retreive key(2))
qed

text \<open>The device is full, the index is lost, and saving it succeeds.\<close>

lemma index_published_unwritten_witness:
  "write_entries host_sys (ascii ''ref_tmp'') (Some (ascii ''ref'')) []
      \<lparr>ho_files = [ascii ''ref'' \<mapsto> [1, 2, 3], ascii ''ref_tmp'' \<mapsto> []], ho_taken = (\<lambda>_. []), ho_manifests = Map.empty\<rparr> =
    (Ok (), \<lparr>ho_files = [ascii ''ref'' \<mapsto> []], ho_taken = (\<lambda>_. []), ho_manifests = Map.empty\<rparr>)"
  (is "write_entries _ ?f _ _ ?k = _")
proof -
  have "bs_renameat (cs_cache_dir host_sys) (ascii ''ref'' @ tmp_suffix) (ascii ''ref'') ?k =
      (Ok (), \<lparr>ho_files = [ascii ''ref'' \<mapsto> []], ho_taken = (\<lambda>_. []), ho_manifests = Map.empty\<rparr>)"
    by (auto simp: host_ops host_dir_def tmp_suffix_def ascii_def)
  from index_published_unwritten [OF _ _ _ this, of "[]" "[[1], [2]]" ?f] show ?thesis by (simp add: host_ops bw_capacity_def)
qed

end
