(* ===== verification/Spec2Isabelle.thy ===== *)
theory Spec2Isabelle
  imports Erofs_Compress Squash_Instances Pearchive_Correct Runtime_Spec Cpu_Sets Hypervisor Guest_Props Registry_Cache_Props
begin

text \<open>
  A verification of the program explorer: a service that fetches container images, turns them into
  read-only file system images, and runs a program from such an image in a virtual machine on
  files a client sends, returning the files the program writes.

  \<^bold>\<open>The parts and how they interact.\<close> \<open>peoci\<close> fetches and caches the layers of an image; \<open>peimage\<close>
  squashes the layers into one tree and hands it to \<open>peerofs\<close>, which writes an EROFS image and can read
  one. \<open>perunner\<close> makes the runtime specification and starts the machine; \<open>peinit\<close> runs inside it.
  Requests and responses go through one file, whose format is in \<open>peinit/src/lib.rs\<close>; the files of
  the client travel in the format of \<open>pearchive\<close>; \<open>waitid_timeout\<close> limits the time of a run;
  \<open>peserver\<close> is the front.

  \<^bold>\<open>The library.\<close> \<open>Prelude\<close> has Rust's \<open>Result\<close>, slices and machine integers (a \<open>u32\<close> is a \<open>32 word\<close>; where
  the code adds sizes, the sum is over words or its wrap-around is written out); \<open>State_Ops\<close> has
  operations that change a state and may fail; \<open>Codec\<close> has little-endian fields and the contract of a
  fixed-size encoding; \<open>Btree\<close> and \<open>Byte_Sink\<close> have the contracts of an ordered map and of a writer, as
  locales, with the models of \<open>BTreeMap\<close>, of \<open>BufWriter\<close> and of a vector as their instances; \<open>Paths\<close>,
  \<open>Path_Ops\<close> and \<open>Str_Ops\<close> model what the code uses of \<open>std::path\<close> and of strings.

  \<^bold>\<open>The file system image\<close> (\<open>peerofs/src/disk.rs\<close>, \<open>build.rs\<close>). \<open>Erofs_Disk\<close>: the structures and
  enumerations, each structure an instance of the codec contract. \<open>Erofs_Inode\<close>, \<open>Erofs_Dirents\<close>,
  \<open>Erofs_Xattr\<close>, \<open>Erofs_Compress\<close>, \<open>Erofs_Reader\<close>: the reader, \<open>Erofs\<close> with its iterators and \<open>lookup\<close>.
  \<open>Erofs_Tree\<close>, \<open>Erofs_Writer\<close>, \<open>Erofs_Build\<close>: the builder, its tree of entries, its output and the passes
  that lay out and write it. \<open>Erofs_Reader_Props\<close> is about any byte string: every loop of the
  reader ends and what it returns lies in the image. \<open>Erofs_Dirblock\<close>, \<open>Erofs_Content\<close>,
  \<open>Erofs_Xattrs_Stored\<close> and \<open>Erofs_Image_Props\<close> are about what the builder wrote: adding entries refines
  updates of an abstract file system, and files, directories, links, attributes and the superblock
  are read back as they were given. \<open>Erofs_Instances\<close> has concrete images.

  \<^bold>\<open>Squashing\<close> (\<open>peimage/src/squash.rs\<close>). \<open>Deletions\<close>: the trait of a deletion index as a record and
  its contract as a locale, interpreted for both implementations. \<open>Squash\<close>: whiteouts, the walk over the
  layers and its callbacks. \<open>Squash_Props\<close>: no visible entry is lost, the upper layer wins, and
  three cases where the index is wrong.

  \<^bold>\<open>Archives\<close> (\<open>pearchive\<close>). \<open>Pearchive\<close>: both packers, the readers and the sandbox. \<open>Pearchive_Props\<close>
  and \<open>Pearchive_Correct\<close>: packing and unpacking are inverse, both packers write the same bytes,
  packing a directory returns even when the directory contains itself, and unpacking to a directory makes the
  system calls of a walk over the tree.

  \<^bold>\<open>Fetching\<close> (\<open>peoci\<close>). \<open>Image_Spec\<close> (\<open>spec.rs\<close>, \<open>compression.rs\<close>): manifests and configurations.
  \<open>Blob_Cache\<close> (\<open>blobcache.rs\<close>): keys stay below the cache directory, and a file gets its name only when it is
  complete. \<open>Registry\<close> (\<open>ocidist.rs\<close>): requests with their tokens, rate limits, manifests and blobs;
  \<open>Registry_Props\<close>: what is accepted has the digest that was asked for, and a rate limit is respected.
  \<open>Registry_Cache\<close> (\<open>ocidist_cache.rs\<close>): the caches in front of it, on disk and in memory;
  \<open>Registry_Cache_Props\<close>: a cached image is the one of its digest, and a blob appears under its name only
  when it is verified. The state of a client is the part the program owns (credentials, limits, counters)
  and an abstract outside with the network, the caches and the disk.

  \<^bold>\<open>Running on the host\<close>. \<open>Runtime_Spec\<close> (\<open>perunner/src/lib.rs\<close>): every specification confines its container.
  \<open>Hypervisor\<close> (\<open>perunner/src/iofile.rs\<close>, \<open>cloudhypervisor.rs\<close>, \<open>worker.rs\<close>): a run starts one machine on the
  image, read only, and the file of the request. \<open>Cpu_Sets\<close> (\<open>perunner/src/worker.rs\<close>,
  \<open>peserver/src/worker.rs\<close>): workers share no core.

  \<^bold>\<open>Running in the guest\<close>. \<open>Io_File\<close> (\<open>peinit/src/lib.rs\<close>, \<open>pearchive/src/main.rs\<close>, \<open>peserver/src/api.rs\<close>): the
  file between host and guest, and requests and responses. \<open>Io_File_Props\<close> composes them: what the guest
  writes is what the client parses. \<open>Waitid\<close> (\<open>waitid_timeout/src/lib.rs\<close>, \<open>peinit/src/main.rs\<close>): a
  response tells whether the process was killed. \<open>Guest\<close> (\<open>peinit/src/main.rs\<close>): the whole program, from its
  mounts to the response, with its panic hook; \<open>Guest_Props\<close>: the host always finds a response, and
  \<open>Pack_Frame\<close> the part of it that is about the packer: it writes only behind the response.

  \<^bold>\<open>Loops and bounds.\<close> A loop over data that gets shorter is a \<open>fun\<close> or a \<open>function\<close> with a measure. A
  loop that may not end (\<open>sendfile_all\<close>, \<open>visit_dirc_rec\<close>, the directory iterator and the search in a
  directory) is a \<open>partial_function\<close> whose value None is that it does not return; that it does return is
  proved where it holds, and that it does not where it does not. No definition uses fuel. The depth
  limits are those of the code.

  \<^bold>\<open>Parameters.\<close> System calls are records of functions over an abstract kernel state (\<open>pack_sys\<close>,
  \<open>unpack_sys\<close>, \<open>sandbox_sys\<close>, \<open>wait_sys\<close>, \<open>blob_sys\<close>, \<open>memfd_sys\<close>, \<open>ch_sys\<close>, \<open>guest_sys\<close>). The crates \<open>tar\<close>, \<open>lz4\<close>,
  \<open>serde_json\<close>, \<open>bincode\<close>, \<open>hex\<close>, \<open>oci_spec\<close> and \<open>mio\<close> are arguments, and so are \<open>reqwest\<close>, \<open>sha2\<close>, \<open>chrono\<close>, the
  grammar run by \<open>nom\<close> (\<open>reg_crates\<close>) and the caches of \<open>moka\<close> (\<open>cache_sys\<close>). What a theorem needs of them is
  among its hypotheses (\<open>disk_laws\<close>, \<open>manifest_cache_laws\<close>, \<open>device_stays\<close>, \<open>packs_with\<close> and the like); each
  such theorem is applied to a concrete instance.

  \<^bold>\<open>Not modelled.\<close> Logging, \<open>Debug\<close> and \<open>Display\<close>, derived encodings, the inspection and dump of images,
  parsing of command lines. The servers (\<open>peserver\<close> beyond \<open>api.rs\<close> and the sets of cores,
  \<open>peimage-service\<close>) and \<open>pegh\<close>, whose behaviour is mostly that of \<open>tokio\<close>, \<open>pingora\<close> and \<open>axum\<close>. The threads of
  \<open>perunner\<close>. The block device \<open>pevub\<close>. The commands, index and fifo of \<open>peimage\<close>, and \<open>ocidir.rs\<close>. Timing: a
  duration is a number handed to the kernel. Concurrency: requests of one client come one after the
  other, and no two processes share a cache directory. Writes of a guest that are lost because they
  were not synced.
\<close>

end
